(* ===== verification/JSPrelude.thy ===== *)
theory JSPrelude
  imports Main "HOL-Library.Sublist"
begin

text \<open>
  Shared layer of the development: the parts of the JavaScript standard library the
  sources call (string searching, trimming, case mapping, splitting), JSON values, the
  host's timer table, and the generic notion of a reachable state of an event-driven
  component.

  A JavaScript string is a \<^typ>\<open>string\<close>, a list of code units of the Latin-1 range. On
  that range the definitions below are exact: white space is the seven code units that
  \<open>trim\<close> and the class \<open>\s\<close> accept, lower case maps A-Z and the accented capitals.
\<close>

named_theorems js_defs \<open>definitions of the JavaScript string operations\<close>

section \<open>Characters\<close>

abbreviation sq :: char where "sq \<equiv> CHR 0x27"
abbreviation dq :: char where "dq \<equiv> CHR 0x22"
abbreviation bsl :: char where "bsl \<equiv> CHR 0x5C"
abbreviation lf :: char where "lf \<equiv> CHR 0x0A"
abbreviation cr :: char where "cr \<equiv> CHR 0x0D"
abbreviation nul :: char where "nul \<equiv> CHR 0x00"
abbreviation esc :: char where "esc \<equiv> CHR 0x1B"

definition code :: "char \<Rightarrow> nat" where
  "code c = of_char c"

lemma code_eq_iff [simp]: "code c = code d \<longleftrightarrow> c = d"
  by (simp add: code_def)

lemma code_char_of: "n < 256 \<Longrightarrow> code (char_of n) = n"
  by (simp add: code_def)

definition is_digit :: "char \<Rightarrow> bool" where
  "is_digit c \<longleftrightarrow> 48 \<le> code c \<and> code c \<le> 57"

definition is_alpha :: "char \<Rightarrow> bool" where
  "is_alpha c \<longleftrightarrow> (65 \<le> code c \<and> code c \<le> 90) \<or> (97 \<le> code c \<and> code c \<le> 122)"

definition is_alnum :: "char \<Rightarrow> bool" where
  "is_alnum c \<longleftrightarrow> is_alpha c \<or> is_digit c"

text \<open>White space of \<open>String.prototype.trim\<close> and of the class \<open>\s\<close>: tab, line feed,
  vertical tab, form feed, carriage return, space and no-break space.\<close>

definition is_ws :: "char \<Rightarrow> bool" where
  "is_ws c \<longleftrightarrow> code c \<in> {9, 10, 11, 12, 13, 32, 160}"

definition js_lower_char :: "char \<Rightarrow> char" where
  "js_lower_char c =
     (let n = code c in
      if (65 \<le> n \<and> n \<le> 90) \<or> (192 \<le> n \<and> n \<le> 222 \<and> n \<noteq> 215) then char_of (n + 32) else c)"

definition js_lower :: "string \<Rightarrow> string" where
  "js_lower s = map js_lower_char s"

lemmas char_class_defs = is_digit_def is_alpha_def is_alnum_def is_ws_def code_def

lemma length_js_lower [simp]: "length (js_lower s) = length s"
  by (simp add: js_lower_def)

lemma js_lower_append: "js_lower (s @ t) = js_lower s @ js_lower t"
  by (simp add: js_lower_def)

lemma js_lower_char_idem [simp]: "js_lower_char (js_lower_char c) = js_lower_char c"
proof -
  have "code c < 256" by (simp add: code_def)
  then show ?thesis
    by (auto simp: js_lower_char_def Let_def code_char_of)
qed

lemma js_lower_idem [simp]: "js_lower (js_lower s) = js_lower s"
  by (simp add: js_lower_def)

lemma digit_not_ws: "is_digit c \<Longrightarrow> \<not> is_ws c"
  by (auto simp: is_digit_def is_ws_def)

lemma alnum_not_ws: "is_alnum c \<Longrightarrow> \<not> is_ws c"
  by (auto simp: is_alnum_def is_alpha_def is_digit_def is_ws_def)

section \<open>Trimming\<close>

definition js_trim :: "string \<Rightarrow> string" where
  "js_trim s = rev (dropWhile is_ws (rev (dropWhile is_ws s)))"

lemma js_trim_Nil [simp]: "js_trim [] = []"
  by (simp add: js_trim_def)

lemma js_trim_empty_iff: "js_trim s = [] \<longleftrightarrow> (\<forall>c\<in>set s. is_ws c)"
proof
  assume "js_trim s = []"
  then have h: "\<forall>x\<in>set (dropWhile is_ws s). is_ws x" by (simp add: js_trim_def)
  have "dropWhile is_ws s = []"
  proof (rule ccontr)
    assume n: "dropWhile is_ws s \<noteq> []"
    then have "\<not> is_ws (hd (dropWhile is_ws s))" by (rule hd_dropWhile)
    moreover have "hd (dropWhile is_ws s) \<in> set (dropWhile is_ws s)" using n by simp
    ultimately show False using h by blast
  qed
  then show "\<forall>c\<in>set s. is_ws c" by simp
qed (auto simp: js_trim_def dest: set_dropWhileD)

lemma js_trim_id: "\<not> is_ws (hd s) \<Longrightarrow> \<not> is_ws (last s) \<Longrightarrow> js_trim s = s"
proof (cases "s = []")
  case False
  assume h: "\<not> is_ws (hd s)" and l: "\<not> is_ws (last s)"
  have 1: "dropWhile is_ws s = s" using False h by (cases s) auto
  have 2: "dropWhile is_ws (rev s) = rev s" using False l by (cases s rule: rev_cases) auto
  show ?thesis by (simp add: js_trim_def 1 2)
qed simp

lemma js_trim_no_ws: "\<forall>c\<in>set s. \<not> is_ws c \<Longrightarrow> js_trim s = s"
  by (cases "s = []") (auto intro: js_trim_id)

lemma set_js_trim: "set (js_trim s) \<subseteq> set s"
  by (auto simp: js_trim_def dest!: set_dropWhileD)

lemma length_js_trim: "length (js_trim s) \<le> length s"
proof -
  have "length (js_trim s) \<le> length (dropWhile is_ws s)"
    by (simp add: js_trim_def) (metis length_dropWhile_le length_rev)
  then show ?thesis using length_dropWhile_le le_trans by blast
qed

lemma js_trim_hd: "js_trim s \<noteq> [] \<Longrightarrow> \<not> is_ws (last (js_trim s))"
  by (simp add: js_trim_def last_rev hd_dropWhile)

section \<open>Searching\<close>

definition js_startsWith :: "string \<Rightarrow> string \<Rightarrow> bool" where
  "js_startsWith s p \<longleftrightarrow> take (length p) s = p"

definition js_endsWith :: "string \<Rightarrow> string \<Rightarrow> bool" where
  "js_endsWith s p \<longleftrightarrow> js_startsWith (rev s) (rev p)"

text \<open>\<open>s.indexOf(p)\<close>, with \<^term>\<open>None\<close> for \<open>-1\<close>.\<close>

fun js_indexOf :: "string \<Rightarrow> string \<Rightarrow> nat option" where
  "js_indexOf [] p = (if p = [] then Some 0 else None)"
| "js_indexOf (c # cs) p =
     (if js_startsWith (c # cs) p then Some 0 else map_option Suc (js_indexOf cs p))"

definition js_includes :: "string \<Rightarrow> string \<Rightarrow> bool" where
  "js_includes s p \<longleftrightarrow> js_indexOf s p \<noteq> None"

declare js_startsWith_def [js_defs] js_includes_def [js_defs]

lemma js_startsWith_iff: "js_startsWith s p \<longleftrightarrow> (\<exists>r. s = p @ r)"
  unfolding js_startsWith_def by (metis append_eq_conv_conj append_take_drop_id)

lemma js_startsWith_append [simp]: "js_startsWith (p @ r) p"
  by (auto simp: js_startsWith_iff)

lemma js_startsWith_append_le: "length p \<le> length t \<Longrightarrow> js_startsWith (t @ x) p = js_startsWith t p"
  by (simp add: js_startsWith_def)

lemma js_startsWith_Nil [simp]: "js_startsWith s []"
  by (simp add: js_startsWith_def)

lemma js_indexOf_Some:
  "js_indexOf s p = Some i \<Longrightarrow> i + length p \<le> length s \<and> take (length p) (drop i s) = p"
proof (induction s arbitrary: i)
  case Nil
  then show ?case by (auto split: if_splits)
next
  case (Cons c cs)
  show ?case
  proof (cases "js_startsWith (c # cs) p")
    case True
    then obtain r where "c # cs = p @ r" by (auto simp: js_startsWith_iff)
    then have "length p \<le> length (c # cs)" by simp
    with True Cons.prems show ?thesis by (simp add: js_startsWith_def)
  next
    case False
    with Cons.prems obtain j where "js_indexOf cs p = Some j" "i = Suc j" by auto
    with Cons.IH show ?thesis by auto
  qed
qed

lemma js_indexOf_least:
  "js_indexOf s p = Some i \<Longrightarrow> j < i \<Longrightarrow> \<not> js_startsWith (drop j s) p"
proof (induction s arbitrary: i j)
  case Nil
  then show ?case by (auto split: if_splits)
next
  case (Cons c cs)
  show ?case
  proof (cases "js_startsWith (c # cs) p")
    case True
    with Cons.prems show ?thesis by simp
  next
    case False
    with Cons.prems obtain k where k: "js_indexOf cs p = Some k" "i = Suc k" by auto
    show ?thesis
    proof (cases j)
      case 0
      with False show ?thesis by simp
    next
      case (Suc j')
      with Cons.IH [OF k(1)] k(2) Cons.prems(2) show ?thesis by simp
    qed
  qed
qed

lemma js_indexOf_None: "js_indexOf s p = None \<longleftrightarrow> (\<forall>a b. s \<noteq> a @ p @ b)"
proof (induction s)
  case Nil
  then show ?case by auto
next
  case (Cons c cs)
  show ?case
  proof (cases "js_startsWith (c # cs) p")
    case True
    then obtain r where r: "c # cs = [] @ p @ r" by (auto simp: js_startsWith_iff)
    then have "\<not> (\<forall>a b. c # cs \<noteq> a @ p @ b)" by blast
    with True show ?thesis by simp
  next
    case False
    then have "(\<forall>a b. c # cs \<noteq> a @ p @ b) \<longleftrightarrow> (\<forall>a b. cs \<noteq> a @ p @ b)"
      by (auto simp: js_startsWith_iff Cons_eq_append_conv)
    with False Cons.IH show ?thesis by simp
  qed
qed

lemma js_includes_iff: "js_includes s p \<longleftrightarrow> (\<exists>a b. s = a @ p @ b)"
  by (simp add: js_includes_def js_indexOf_None)

lemma js_includes_append: "js_includes (a @ p @ b) p"
  by (auto simp: js_includes_iff)

lemma js_includes_char: "js_includes s [c] \<longleftrightarrow> c \<in> set s"
  by (auto simp: js_includes_iff dest: split_list)

text \<open>An optional string in a condition.\<close>

definition truthy :: "string option \<Rightarrow> bool" where
  "truthy s = (case s of None \<Rightarrow> False | Some t \<Rightarrow> t \<noteq> [])"

lemma truthy_iff: "truthy s \<longleftrightarrow> (\<exists>t. s = Some t \<and> t \<noteq> [])"
  by (auto simp: truthy_def split: option.splits)

section \<open>Splitting and joining\<close>

text \<open>\<open>s.split(c)\<close> for a one-character separator, and \<open>parts.join(sep)\<close>.\<close>

fun js_split :: "char \<Rightarrow> string \<Rightarrow> string list" where
  "js_split d [] = [[]]"
| "js_split d (c # cs) =
     (if c = d then [] # js_split d cs
      else (case js_split d cs of [] \<Rightarrow> [[c]] | x # xs \<Rightarrow> (c # x) # xs))"

fun js_join :: "string \<Rightarrow> string list \<Rightarrow> string" where
  "js_join sep [] = []"
| "js_join sep [x] = x"
| "js_join sep (x # y # xs) = x @ sep @ js_join sep (y # xs)"

lemma js_split_not_Nil [simp]: "js_split d s \<noteq> []"
  by (induction s) (auto split: list.splits)

lemma js_join_Cons: "xs \<noteq> [] \<Longrightarrow> js_join sep (x # xs) = x @ sep @ js_join sep xs"
  by (cases xs) auto

lemma js_join_split [simp]: "js_join [d] (js_split d s) = s"
proof (induction s)
  case (Cons c cs)
  show ?case
  proof (cases "c = d")
    case True
    with Cons show ?thesis by (simp add: js_join_Cons)
  next
    case False
    obtain x xs where x: "js_split d cs = x # xs" by (cases "js_split d cs") auto
    with False Cons show ?thesis by (cases xs) auto
  qed
qed simp

lemma js_split_no_sep: "d \<notin> set s \<Longrightarrow> js_split d s = [s]"
  by (induction s) auto

lemma js_split_append_sep: "d \<notin> set x \<Longrightarrow> js_split d (x @ d # s) = x # js_split d s"
  by (induction x) auto

lemma js_split_mem: "x \<in> set (js_split d s) \<Longrightarrow> d \<notin> set x"
proof (induction s arbitrary: x)
  case (Cons c cs)
  then show ?case by (cases "js_split d cs") (auto split: if_splits)
qed simp

section \<open>Decimal numerals\<close>

definition digits_val :: "string \<Rightarrow> nat" where
  "digits_val ds = foldl (\<lambda>n c. 10 * n + (code c - 48)) 0 ds"

definition all_digits :: "string \<Rightarrow> bool" where
  "all_digits s \<longleftrightarrow> s \<noteq> [] \<and> list_all is_digit s"

text \<open>\<open>String(n)\<close> of a natural number and \<open>padStart\<close>.\<close>

fun nat_to_string :: "nat \<Rightarrow> string" where
  "nat_to_string n =
     (if n < 10 then [char_of (n + 48)] else nat_to_string (n div 10) @ [char_of (n mod 10 + 48)])"

declare nat_to_string.simps [simp del]

definition js_padStart :: "nat \<Rightarrow> char \<Rightarrow> string \<Rightarrow> string" where
  "js_padStart n c s = replicate (n - length s) c @ s"

lemma digits_val_snoc: "digits_val (ds @ [c]) = 10 * digits_val ds + (code c - 48)"
  by (simp add: digits_val_def)

lemma nat_to_string_digits: "all_digits (nat_to_string n)"
proof (induction n rule: nat_to_string.induct)
  case (1 n)
  have d: "m < 10 \<Longrightarrow> is_digit (char_of (m + 48))" for m :: nat
    by (simp add: is_digit_def code_char_of)
  show ?case
  proof (cases "n < 10")
    case True
    then show ?thesis by (subst nat_to_string.simps) (simp add: all_digits_def d)
  next
    case False
    with "1" have "all_digits (nat_to_string (n div 10))" by simp
    with False show ?thesis
      by (subst nat_to_string.simps) (simp add: all_digits_def d)
  qed
qed

lemma digits_val_nat_to_string [simp]: "digits_val (nat_to_string n) = n"
proof (induction n rule: nat_to_string.induct)
  case (1 n)
  show ?case
  proof (cases "n < 10")
    case True
    then show ?thesis
      by (subst nat_to_string.simps) (simp add: digits_val_def code_char_of)
  next
    case False
    with "1" have "digits_val (nat_to_string (n div 10)) = n div 10" by simp
    with False show ?thesis
      by (subst nat_to_string.simps) (simp add: digits_val_snoc code_char_of)
  qed
qed

section \<open>JSON values\<close>

text \<open>What \<open>JSON.parse\<close> returns. Numbers are integers; an object is the list that
  \<open>Object.entries\<close> enumerates.\<close>

datatype json =
    JNull
  | JBool bool
  | JNum int
  | JStr string
  | JArr "json list"
  | JObj "(string \<times> json) list"

fun json_truthy :: "json \<Rightarrow> bool" where
  "json_truthy JNull = False"
| "json_truthy (JBool b) = b"
| "json_truthy (JNum n) = (n \<noteq> 0)"
| "json_truthy (JStr s) = (s \<noteq> [])"
| "json_truthy (JArr xs) = True"
| "json_truthy (JObj es) = True"

text \<open>\<open>JSON.stringify\<close> without indentation.\<close>

definition int_to_string :: "int \<Rightarrow> string" where
  "int_to_string i =
     (if i < 0 then CHR ''-'' # nat_to_string (nat (- i)) else nat_to_string (nat i))"

definition hex_digit :: "nat \<Rightarrow> char" where
  "hex_digit n = (if n < 10 then char_of (n + 48) else char_of (n + 87))"

definition json_escape :: "char \<Rightarrow> string" where
  "json_escape c =
     (if c = dq then [bsl, dq]
      else if c = bsl then [bsl, bsl]
      else if code c = 8 then bsl # ''b''
      else if code c = 9 then bsl # ''t''
      else if code c = 10 then bsl # ''n''
      else if code c = 12 then bsl # ''f''
      else if code c = 13 then bsl # ''r''
      else if code c < 32 then bsl # ''u00'' @ [hex_digit (code c div 16), hex_digit (code c mod 16)]
      else [c])"

definition json_quote :: "string \<Rightarrow> string" where
  "json_quote s = dq # concat (map json_escape s) @ [dq]"

fun js_stringify :: "json \<Rightarrow> string" where
  "js_stringify JNull = ''null''"
| "js_stringify (JBool b) = (if b then ''true'' else ''false'')"
| "js_stringify (JNum n) = int_to_string n"
| "js_stringify (JStr s) = json_quote s"
| "js_stringify (JArr xs) = CHR ''['' # js_join '','' (map js_stringify xs) @ '']''"
| "js_stringify (JObj es) =
     CHR ''{'' # js_join '','' (map (\<lambda>(k, v). json_quote k @ '':'' @ js_stringify v) es) @ ''}''"

text \<open>Whether \<open>Number(s) > 0\<close> for a string: a decimal literal with a non-zero digit in its
  mantissa (literals that underflow to zero excepted), \<open>Infinity\<close>, or an unsigned hexadecimal,
  octal or binary literal with a non-zero digit.\<close>

definition exponent_ok :: "string \<Rightarrow> bool" where
  "exponent_ok r \<longleftrightarrow>
     r = [] \<or>
     (hd r \<in> {CHR ''e'', CHR ''E''} \<and>
      (let t = tl r; u = (if t \<noteq> [] \<and> hd t \<in> {CHR ''+'', CHR ''-''} then tl t else t) in all_digits u))"

definition decimal_positive :: "string \<Rightarrow> bool" where
  "decimal_positive u =
     (let ip = takeWhile is_digit u; r = dropWhile is_digit u;
          fp = (if r \<noteq> [] \<and> hd r = CHR ''.'' then takeWhile is_digit (tl r) else []);
          r2 = (if r \<noteq> [] \<and> hd r = CHR ''.'' then dropWhile is_digit (tl r) else r)
      in exponent_ok r2 \<and> list_ex (\<lambda>c. c \<noteq> CHR ''0'') (ip @ fp))"

definition radix_digit :: "char \<Rightarrow> char \<Rightarrow> bool" where
  "radix_digit x c =
     (if x \<in> {CHR ''x'', CHR ''X''}
      then is_digit c \<or> (65 \<le> code c \<and> code c \<le> 70) \<or> (97 \<le> code c \<and> code c \<le> 102)
      else if x \<in> {CHR ''o'', CHR ''O''} then 48 \<le> code c \<and> code c \<le> 55
      else x \<in> {CHR ''b'', CHR ''B''} \<and> (code c = 48 \<or> code c = 49))"

definition string_positive :: "string \<Rightarrow> bool" where
  "string_positive s =
     (case js_trim s of
        [] \<Rightarrow> False
      | c # t \<Rightarrow>
          if c = CHR ''-'' then False
          else if c = CHR ''+'' then t = ''Infinity'' \<or> decimal_positive t
          else c # t = ''Infinity'' \<or> decimal_positive (c # t)
            \<or> (c = CHR ''0'' \<and> t \<noteq> [] \<and> list_all (radix_digit (hd t)) (tl t)
               \<and> list_ex (\<lambda>d. d \<noteq> CHR ''0'') (tl t)))"

text \<open>\<open>v > 0\<close> for a JSON value: an array coerces to the text of its only element.\<close>

fun gt_zero :: "json \<Rightarrow> bool" where
  "gt_zero JNull = False"
| "gt_zero (JBool b) = b"
| "gt_zero (JNum n) = (0 < n)"
| "gt_zero (JStr s) = string_positive s"
| "gt_zero (JArr [JBool b]) = False"
| "gt_zero (JArr [v]) = gt_zero v"
| "gt_zero (JArr _) = False"
| "gt_zero (JObj es) = False"

lemma fold_same: "(\<And>x p. P (f x p) = P p) \<Longrightarrow> P (fold f xs p) = P p"
  by (induction xs arbitrary: p) auto

section \<open>Host timers\<close>

text \<open>
  \<open>setTimeout\<close> and \<open>setInterval\<close> hand out a fresh truthy id; \<open>clearTimeout\<close> and
  \<open>clearInterval\<close> cancel. The table lists the armed timers with their payload.
\<close>

record 'k timers =
  armed :: "(nat \<times> 'k) list"
  nextId :: nat

definition no_timers :: "'k timers" where
  "no_timers = \<lparr>armed = [], nextId = 1\<rparr>"

definition set_timer :: "'k \<Rightarrow> 'k timers \<Rightarrow> nat \<times> 'k timers" where
  "set_timer k t = (nextId t, t\<lparr>armed := (nextId t, k) # armed t, nextId := Suc (nextId t)\<rparr>)"

definition clear_timer :: "nat \<Rightarrow> 'k timers \<Rightarrow> 'k timers" where
  "clear_timer i t = t\<lparr>armed := filter (\<lambda>p. fst p \<noteq> i) (armed t)\<rparr>"

definition clear_opt :: "nat option \<Rightarrow> 'k timers \<Rightarrow> 'k timers" where
  "clear_opt h t = (case h of None \<Rightarrow> t | Some i \<Rightarrow> clear_timer i t)"

text \<open>The armed ids of one kind of timer.\<close>

definition ids_of :: "('k \<Rightarrow> bool) \<Rightarrow> 'k timers \<Rightarrow> nat set" where
  "ids_of P t = fst ` {p \<in> set (armed t). P (snd p)}"

definition timers_fresh :: "'k timers \<Rightarrow> bool" where
  "timers_fresh t \<longleftrightarrow> (\<forall>p \<in> set (armed t). fst p < nextId t)"

lemma ids_of_no_timers [simp]: "ids_of P no_timers = {}"
  by (simp add: ids_of_def no_timers_def)

lemma ids_of_set [simp]:
  "ids_of P (snd (set_timer k t)) = (if P k then insert (nextId t) (ids_of P t) else ids_of P t)"
proof -
  have "{p \<in> set ((nextId t, k) # armed t). P (snd p)} =
      (if P k then {(nextId t, k)} else {}) \<union> {p \<in> set (armed t). P (snd p)}"
    by auto
  then show ?thesis by (simp add: ids_of_def set_timer_def image_Un)
qed

lemma fst_set_timer [simp]: "fst (set_timer k t) = nextId t"
  by (simp add: set_timer_def)

lemma ids_of_clear [simp]: "ids_of P (clear_timer i t) = ids_of P t - {i}"
  by (auto simp: ids_of_def clear_timer_def image_iff)

lemma ids_of_clear_opt [simp]: "ids_of P (clear_opt h t) = ids_of P t - set_option h"
  by (cases h) (auto simp: clear_opt_def)

lemma fresh_set: "timers_fresh t \<Longrightarrow> timers_fresh (snd (set_timer k t))"
  by (auto simp: timers_fresh_def set_timer_def)

lemma fresh_clear: "timers_fresh t \<Longrightarrow> timers_fresh (clear_timer i t)"
  by (auto simp: timers_fresh_def clear_timer_def)

lemma map_of_set:
  "timers_fresh t \<Longrightarrow> map_of (armed t) i = Some k \<Longrightarrow> map_of (armed (snd (set_timer k' t))) i = Some k"
  by (auto simp: timers_fresh_def set_timer_def dest!: map_of_SomeD)

lemma map_of_other: "i \<noteq> j \<Longrightarrow> map_of (filter (\<lambda>p. fst p \<noteq> j) xs) i = map_of xs i"
  by (induction xs) auto

lemma map_of_clear: "i \<noteq> j \<Longrightarrow> map_of (armed (clear_timer j t)) i = map_of (armed t) i"
  by (simp add: clear_timer_def map_of_other)

lemma map_of_clear_other:
  "map_of (armed t) i = Some k \<Longrightarrow> map_of (armed t) j \<noteq> Some k \<Longrightarrow> map_of (armed (clear_timer j t)) i = Some k"
  by (cases "i = j") (simp_all add: map_of_clear)

section \<open>Event-driven components\<close>

text \<open>Running a list of events, and the states reachable by enabled events.\<close>

definition run :: "('s \<Rightarrow> 'e \<Rightarrow> 's) \<Rightarrow> 's \<Rightarrow> 'e list \<Rightarrow> 's" where
  "run step s es = foldl step s es"

lemma run_Nil [simp]: "run step s [] = s"
  by (simp add: run_def)

lemma run_Cons [simp]: "run step s (e # es) = run step (step s e) es"
  by (simp add: run_def)

lemma run_append [simp]: "run step s (es @ fs) = run step (run step s es) fs"
  by (simp add: run_def)

inductive reachable ::
    "('s \<Rightarrow> bool) \<Rightarrow> ('s \<Rightarrow> 'e \<Rightarrow> bool) \<Rightarrow> ('s \<Rightarrow> 'e \<Rightarrow> 's) \<Rightarrow> 's \<Rightarrow> bool"
  for start :: "'s \<Rightarrow> bool" and enabled :: "'s \<Rightarrow> 'e \<Rightarrow> bool" and step :: "'s \<Rightarrow> 'e \<Rightarrow> 's" where
  reach_start: "start s \<Longrightarrow> reachable start enabled step s"
| reach_step: "reachable start enabled step s \<Longrightarrow> enabled s e \<Longrightarrow> reachable start enabled step (step s e)"

text \<open>The contract of an event-driven component: an invariant of its start states that
  every enabled event keeps. Whatever keeps the contract has the invariant in every
  reachable state and after every run.\<close>

locale event_machine =
  fixes start :: "'s \<Rightarrow> bool"
    and enabled :: "'s \<Rightarrow> 'e \<Rightarrow> bool"
    and step :: "'s \<Rightarrow> 'e \<Rightarrow> 's"
    and inv :: "'s \<Rightarrow> bool"
  assumes inv_start: "start s \<Longrightarrow> inv s"
    and inv_step: "inv s \<Longrightarrow> enabled s e \<Longrightarrow> inv (step s e)"
begin

lemma inv_reachable: "reachable start enabled step s \<Longrightarrow> inv s"
  by (induction rule: reachable.induct) (auto intro: inv_start inv_step)

lemma inv_run: "inv s \<Longrightarrow> (\<And>s e. enabled s e) \<Longrightarrow> inv (run step s es)"
  by (induction es arbitrary: s) (auto intro: inv_step)

lemma inv_run_enabled: "inv s \<Longrightarrow> list_all (\<lambda>e. \<forall>s. enabled s e) es \<Longrightarrow> inv (run step s es)"
  by (induction es arbitrary: s) (auto intro: inv_step)

end

text \<open>A component that logs what it does to the outside: every step only appends to the log, and
  what it appends is allowed. Then the log of every run holds allowed entries only and extends the
  log of every earlier moment.\<close>

locale logging_machine = event_machine start enabled step inv
  for start :: "'s \<Rightarrow> bool" and enabled :: "'s \<Rightarrow> 'e \<Rightarrow> bool" and step :: "'s \<Rightarrow> 'e \<Rightarrow> 's" and inv :: "'s \<Rightarrow> bool" +
  fixes log :: "'s \<Rightarrow> 'o list"
    and allowed :: "'o \<Rightarrow> bool"
  assumes log_start: "start s \<Longrightarrow> list_all allowed (log s)"
    and log_step: "inv s \<Longrightarrow> enabled s e \<Longrightarrow> \<exists>os. log (step s e) = log s @ os \<and> list_all allowed os"
begin

lemma log_run: "inv s \<Longrightarrow> (\<And>s e. enabled s e) \<Longrightarrow> \<exists>os. log (run step s es) = log s @ os \<and> list_all allowed os"
proof (induction es arbitrary: s)
  case (Cons e es)
  obtain os where os: "log (step s e) = log s @ os" "list_all allowed os"
    using log_step [OF Cons.prems(1,2)] by blast
  obtain ps where "log (run step (step s e) es) = log (step s e) @ ps" "list_all allowed ps"
    using Cons.IH [OF inv_step [OF Cons.prems(1,2)]] Cons.prems(2) by blast
  with os show ?case by (auto simp: list_all_append)
qed simp

lemma log_allowed: "start s \<Longrightarrow> (\<And>s e. enabled s e) \<Longrightarrow> list_all allowed (log (run step s es))"
  using log_run [OF inv_start] log_start by (metis list_all_append)

end

end
