(* ===== verification/TerminalConnection.thy ===== *)
theory TerminalConnection
  imports Complex_Main JSPrelude
begin

text \<open>
  The terminal's connection policy, resources/js/terminal-connection.js: close codes, the
  classification of server messages, the reaction to a close event, and the session-start methods
  that the terminal component spreads into itself. The methods are written over the record \<open>host\<close>,
  the fields they need of their host; the component of TerminalClient extends that record, as
  the spread does. Also the label of the session timer, resources/js/terminal-session-timer.js.
\<close>

section \<open>Close codes and messages\<close>

definition NORMAL :: nat where
  "NORMAL = 1000"

definition client_AUTH_REJECTED :: nat where
  "client_AUTH_REJECTED = 4401"

definition client_TOKEN_REJECTED :: nat where
  "client_TOKEN_REJECTED = 4403"

definition TERMINAL_CONNECT_TIMEOUT_MS :: nat where
  "TERMINAL_CONNECT_TIMEOUT_MS = 15000"

definition TERMINAL_SESSION_START_TIMEOUT_MS :: nat where
  "TERMINAL_SESSION_START_TIMEOUT_MS = 20000"

definition err_authRejected :: string where
  "err_authRejected = ''Terminal access was rejected. Reload the page and try again.''"

definition err_connectionFailed :: string where
  "err_connectionFailed = ''Could not connect to the terminal server. Reload the page and try again.''"

definition err_timeout :: string where
  "err_timeout = ''Timed out while connecting to the terminal. Reload the page and try again.''"

definition AUTH_REJECTION_MESSAGES :: "string list" where
  "AUTH_REJECTION_MESSAGES =
     [''Unauthorized: Missing required tokens'', ''Unauthorized: Invalid terminal token'',
      ''Unauthorized: Terminal token was rejected'']"

definition isTerminalAuthRejectionCode :: "nat \<Rightarrow> bool" where
  "isTerminalAuthRejectionCode c \<longleftrightarrow> c = client_AUTH_REJECTED \<or> c = client_TOKEN_REJECTED"

text \<open>The data of a message event: text, or something else.\<close>

datatype ws_data = TextFrame string | OtherFrame

datatype rejection = AuthRejectedMessage | StartupRejectedMessage

definition classifyTerminalServerMessage :: "ws_data \<Rightarrow> rejection option" where
  "classifyTerminalServerMessage d =
     (case d of
        OtherFrame \<Rightarrow> None
      | TextFrame t \<Rightarrow>
          if t \<in> set AUTH_REJECTION_MESSAGES then Some AuthRejectedMessage
          else if js_startsWith t ''Unauthorized:'' \<or> js_startsWith t ''Invalid SSH command:''
          then Some StartupRejectedMessage
          else None)"

record close_outcome =
  out_authRejected :: bool
  out_reconnect :: bool
  out_error :: "string option"

definition resolveTerminalCloseOutcome :: "nat \<Rightarrow> bool \<Rightarrow> nat \<Rightarrow> nat \<Rightarrow> close_outcome" where
  "resolveTerminalCloseOutcome c sessionPending reconnectAttempts maxReconnectAttempts =
     (if isTerminalAuthRejectionCode c
      then \<lparr>out_authRejected = True, out_reconnect = False, out_error = Some err_authRejected\<rparr>
      else if c = NORMAL
      then \<lparr>out_authRejected = False, out_reconnect = False, out_error = None\<rparr>
      else
        (let reconnect = reconnectAttempts < maxReconnectAttempts in
         \<lparr>out_authRejected = False, out_reconnect = reconnect,
          out_error = (if sessionPending \<or> \<not> reconnect then Some err_connectionFailed else None)\<rparr>))"

section \<open>Session start\<close>

text \<open>The timers of the component, by the callback they run.\<close>

datatype client_timer =
    TSessionStart
  | TInitialConnect
  | TConnect nat
  | TReconnect real
  | TPing
  | TResumeProbe
  | TKeepAlive
  | TCountdown
  | TResizeDebounce
  | TResizeOnce
  | TFocusOnce
  | TFocusWhenReady
  | TKeyboardSettle
  | TAnimationResize

text \<open>What the component does to the outside: sockets, the Livewire bus, the DOM and xterm.\<close>

datatype client_effect =
    OpenSocket nat string
  | CloseSocket nat "(nat \<times> string) option"
  | Send nat json
  | Dispatch string "string option"
  | DomEvent string
  | TermOpen
  | TermWrite string
  | TermWriteOther
  | TermNotice string
  | TermReset
  | TermFocus
  | ClipboardWrite string

record host =
  starting :: bool
  terminalActive :: bool
  connectionError :: "string option"
  authRejected :: bool
  pendingCommand :: "json option"
  sessionStartTimeoutId :: "nat option"
  timers :: "client_timer timers"
  fx :: "client_effect list"

definition effect :: "client_effect list \<Rightarrow> 'a host_scheme \<Rightarrow> 'a host_scheme" where
  "effect es s = s\<lparr>fx := fx s @ es\<rparr>"

definition isTerminalSessionPending :: "'a host_scheme \<Rightarrow> bool" where
  "isTerminalSessionPending s \<longleftrightarrow> starting s \<and> \<not> terminalActive s"

definition clearSessionStartTimeout :: "'a host_scheme \<Rightarrow> 'a host_scheme" where
  "clearSessionStartTimeout s =
     (case sessionStartTimeoutId s of
        None \<Rightarrow> s
      | Some i \<Rightarrow> s\<lparr>timers := clear_timer i (timers s), sessionStartTimeoutId := None\<rparr>)"

definition failTerminalConnection :: "string \<Rightarrow> bool \<Rightarrow> 'a host_scheme \<Rightarrow> 'a host_scheme" where
  "failTerminalConnection message override s0 =
     (let s = clearSessionStartTimeout (s0\<lparr>starting := False\<rparr>) in
      if connectionError s = Some message \<or> (truthy (connectionError s) \<and> \<not> override) then s
      else effect [Dispatch ''error'' (Some message)] (s\<lparr>connectionError := Some message\<rparr>))"

definition armTerminalSessionStartTimeout :: "'a host_scheme \<Rightarrow> 'a host_scheme" where
  "armTerminalSessionStartTimeout s0 =
     (let s = clearSessionStartTimeout s0; (i, t) = set_timer TSessionStart (timers s)
      in s\<lparr>timers := t, sessionStartTimeoutId := Some i\<rparr>)"

text \<open>The callback of the timer.\<close>

definition sessionStartTimedOut :: "'a host_scheme \<Rightarrow> 'a host_scheme" where
  "sessionStartTimedOut s0 =
     (let s = s0\<lparr>sessionStartTimeoutId := None\<rparr> in
      if isTerminalSessionPending s
      then failTerminalConnection err_timeout False (s\<lparr>pendingCommand := None\<rparr>)
      else s)"

definition beginTerminalSessionStart ::
    "('a host_scheme \<Rightarrow> 'a host_scheme) \<Rightarrow> 'a host_scheme \<Rightarrow> 'a host_scheme" where
  "beginTerminalSessionStart ensureWebSocketConnection s =
     ensureWebSocketConnection
       (armTerminalSessionStartTimeout
         (s\<lparr>starting := True, connectionError := None, authRejected := False\<rparr>))"

definition completeTerminalSessionStart :: "'a host_scheme \<Rightarrow> 'a host_scheme" where
  "completeTerminalSessionStart s =
     clearSessionStartTimeout (s\<lparr>starting := False, connectionError := None\<rparr>)"

definition failTerminalSessionStart :: "string option \<Rightarrow> 'a host_scheme \<Rightarrow> 'a host_scheme" where
  "failTerminalSessionStart message s =
     failTerminalConnection (if truthy message then the message else err_connectionFailed) True
       (s\<lparr>pendingCommand := None\<rparr>)"

definition cancelTerminalAutoStart :: "'a host_scheme \<Rightarrow> 'a host_scheme" where
  "cancelTerminalAutoStart s =
     (if terminalActive s \<or> pendingCommand s \<noteq> None then s
      else clearSessionStartTimeout (s\<lparr>starting := False\<rparr>))"

section \<open>The session timer's label\<close>

definition MAX_TERMINAL_SESSION_SECONDS :: nat where
  "MAX_TERMINAL_SESSION_SECONDS = 8 * 60 * 60"

definition TERMINAL_SESSION_WARNING_SECONDS :: nat where
  "TERMINAL_SESSION_WARNING_SECONDS = 30 * 60"

definition TERMINAL_SESSION_DANGER_SECONDS :: nat where
  "TERMINAL_SESSION_DANGER_SECONDS = 5 * 60"

definition two_digits :: "nat \<Rightarrow> string" where
  "two_digits n = js_padStart 2 (CHR ''0'') (nat_to_string n)"

definition formatTerminalSessionRemainingTime :: "real \<Rightarrow> string" where
  "formatTerminalSessionRemainingTime seconds =
     (let remainingSeconds = nat \<lceil>seconds\<rceil> in
      if remainingSeconds = 0 then ''expired''
      else
        (let totalMinutes = remainingSeconds div 60;
             hours = totalMinutes div 60;
             minutes = totalMinutes mod 60;
             secondsPart = remainingSeconds mod 60
         in if hours = 0
            then nat_to_string minutes @ ''m '' @ two_digits secondsPart @ ''s''
            else nat_to_string hours @ ''h '' @ two_digits minutes @ ''m '' @ two_digits secondsPart @ ''s''))"

section \<open>Lemmas\<close>

lemmas start_ops = clearSessionStartTimeout_def failTerminalConnection_def armTerminalSessionStartTimeout_def
  sessionStartTimedOut_def completeTerminalSessionStart_def failTerminalSessionStart_def
  cancelTerminalAutoStart_def effect_def

text \<open>The interface between these methods and their host. The methods assign some fields, report errors
  and drive one timer; a property of the host that survives those survives every method. A host that also
  provides \<open>ensureWebSocketConnection\<close> keeps it when a session starts; \<open>fine\<close> are the circumstances
  in which the provided function is known to keep it.\<close>

locale session_fields =
  fixes keeps :: "'a host_scheme \<Rightarrow> bool"
  assumes keeps_settled: "keeps s \<Longrightarrow> keeps (s\<lparr>starting := False\<rparr>)"
    and keeps_error: "keeps s \<Longrightarrow> keeps (s\<lparr>connectionError := x\<rparr>)"
    and keeps_dropped: "keeps s \<Longrightarrow> keeps (s\<lparr>pendingCommand := None\<rparr>)"
    and keeps_dispatch: "keeps s \<Longrightarrow> keeps (effect [Dispatch ''error'' m] s)"
    and keeps_cleared: "keeps s \<Longrightarrow> keeps (clearSessionStartTimeout s)"
begin

lemma keeps_fail: "keeps s \<Longrightarrow> keeps (failTerminalConnection m override s)"
  by (simp add: failTerminalConnection_def Let_def keeps_settled keeps_error keeps_dispatch keeps_cleared)

lemma keeps_failStart: "keeps s \<Longrightarrow> keeps (failTerminalSessionStart m s)"
  by (simp add: failTerminalSessionStart_def keeps_dropped keeps_fail)

lemma keeps_complete: "keeps s \<Longrightarrow> keeps (completeTerminalSessionStart s)"
  using keeps_error [OF keeps_settled, of s None] by (simp add: completeTerminalSessionStart_def keeps_cleared)

lemma keeps_cancel: "keeps s \<Longrightarrow> keeps (cancelTerminalAutoStart s)"
  by (simp add: cancelTerminalAutoStart_def keeps_settled keeps_cleared)

lemma keeps_timedOut: "keeps (s\<lparr>sessionStartTimeoutId := None\<rparr>) \<Longrightarrow> keeps (sessionStartTimedOut s)"
  using keeps_dropped [of "s\<lparr>sessionStartTimeoutId := None\<rparr>"]
  by (simp add: sessionStartTimedOut_def Let_def keeps_fail)

end

locale session_host = session_fields keeps for keeps :: "'a host_scheme \<Rightarrow> bool" +
  fixes fine :: "'v \<Rightarrow> bool" and ensureWebSocketConnection :: "'v \<Rightarrow> 'a host_scheme \<Rightarrow> 'a host_scheme"
  assumes keeps_requested: "keeps s \<Longrightarrow> keeps (s\<lparr>starting := True, connectionError := None, authRejected := False\<rparr>)"
    and keeps_armed: "keeps s \<Longrightarrow> keeps (armTerminalSessionStartTimeout s)"
    and keeps_ensured: "fine v \<Longrightarrow> keeps s \<Longrightarrow> keeps (ensureWebSocketConnection v s)"
begin

lemma keeps_begin: "fine v \<Longrightarrow> keeps s \<Longrightarrow> keeps (beginTerminalSessionStart (ensureWebSocketConnection v) s)"
  unfolding beginTerminalSessionStart_def by (intro keeps_ensured keeps_armed keeps_requested)

end

text \<open>The record fields the methods may write, in the order of the laws.\<close>

lemma arm_start_sel [simp]:
  "starting (armTerminalSessionStartTimeout s) = starting s" "fx (armTerminalSessionStartTimeout s) = fx s"
  "pendingCommand (armTerminalSessionStartTimeout s) = pendingCommand s"
  "authRejected (armTerminalSessionStartTimeout s) = authRejected s"
  "connectionError (armTerminalSessionStartTimeout s) = connectionError s"
  by (simp_all add: armTerminalSessionStartTimeout_def clearSessionStartTimeout_def Let_def split_beta split: option.split)

text \<open>Reading a label back.\<close>

definition unit_seconds :: "char \<Rightarrow> nat" where
  "unit_seconds u = (if u = CHR ''h'' then 3600 else if u = CHR ''m'' then 60 else if u = CHR ''s'' then 1 else 0)"

lemma length_after_digits: "dropWhile P s = u # r \<Longrightarrow> length (drop 1 r) < length s"
  using length_dropWhile_le [of P s] by simp

function label_seconds :: "string \<Rightarrow> nat" where
  "label_seconds s =
     (case dropWhile is_digit s of
        [] \<Rightarrow> 0
      | u # r \<Rightarrow> digits_val (takeWhile is_digit s) * unit_seconds u + label_seconds (drop 1 r))"
  by pat_completeness auto

termination
  by (relation "measure length") (use length_after_digits in \<open>force+\<close>)

declare label_seconds.simps [simp del]

lemma label_seconds_part:
  assumes "all_digits ds" "\<not> is_digit u"
  shows "label_seconds (ds @ u # r) = digits_val ds * unit_seconds u + label_seconds (drop 1 r)"
proof -
  have "takeWhile is_digit (ds @ u # r) = ds" "dropWhile is_digit (ds @ u # r) = u # r"
    using assms by (auto simp: all_digits_def list_all_iff takeWhile_append dropWhile_append)
  then show ?thesis by (subst label_seconds.simps) simp
qed

lemma label_seconds_Nil [simp]: "label_seconds [] = 0"
  by (subst label_seconds.simps) simp

lemma two_digits_all: "all_digits (two_digits n)"
  using nat_to_string_digits [of n] by (auto simp: two_digits_def js_padStart_def all_digits_def list_all_iff is_digit_def code_def)

lemma digits_val_zeros: "digits_val (replicate k (CHR ''0'') @ ds) = digits_val ds"
  by (induction k) (simp_all add: digits_val_def code_def)

lemma two_digits_val: "digits_val (two_digits n) = n"
  by (simp add: two_digits_def js_padStart_def digits_val_zeros)

lemma units: "\<not> is_digit (CHR ''h'')" "\<not> is_digit (CHR ''m'')" "\<not> is_digit (CHR ''s'')"
  by (simp_all add: is_digit_def code_def)

lemma label_expired: "label_seconds ''expired'' = 0"
proof -
  have "label_seconds (c # r) = label_seconds (drop 1 r)" if "\<not> is_digit c" "c \<in> set ''expired''" for c r
    using that by (subst label_seconds.simps) (auto simp: digits_val_def)
  then show ?thesis by (simp add: is_digit_def code_def)
qed

lemma label_round_trip: "label_seconds (formatTerminalSessionRemainingTime x) = nat \<lceil>x\<rceil>"
proof -
  let ?n = "nat \<lceil>x\<rceil>"
  have "?n div 60 * 60 + ?n mod 60 = ?n" "?n div 60 div 60 * 60 + ?n div 60 mod 60 = ?n div 60"
    by (rule div_mult_mod_eq)+
  then have split: "(?n div 60 div 60) * 3600 + ((?n div 60 mod 60) * 60 + ?n mod 60) = ?n" by linarith
  show ?thesis
  proof (cases "?n = 0")
    case False
    then show ?thesis
      using split
      by (simp add: formatTerminalSessionRemainingTime_def Let_def label_seconds_part nat_to_string_digits
          two_digits_all two_digits_val units unit_seconds_def)
  qed (simp add: formatTerminalSessionRemainingTime_def label_expired)
qed

end
