(* ===== verification/TerminalFullscreen.thy ===== *)
theory TerminalFullscreen
  imports Complex_Main JSPrelude
begin

text \<open>
  The fullscreen mode of the terminal component in resources/js/terminal.js: the ancestor styles
  that are patched and restored, the page scroll lock, the recovery of stray nodes and the inset
  that keeps the terminal above a software keyboard. The page is a tree of elements, named by
  numbers, with the inline style of each.
\<close>

section \<open>Inline styles\<close>

text \<open>A property value: a keyword, a length in pixels, or the two values of a shorthand.\<close>

datatype css = Kw string | Px real | Two css css

type_synonym decls = "string \<Rightarrow> (css \<times> bool) option"

definition shorthand :: "string \<Rightarrow> (string \<times> string) option" where
  "shorthand p =
     (if p = ''overflow'' then Some (''overflow-x'', ''overflow-y'')
      else if p = ''overscroll-behavior'' then Some (''overscroll-behavior-x'', ''overscroll-behavior-y'')
      else None)"

text \<open>\<open>style.getPropertyValue\<close>, \<open>None\<close> for the empty string: a shorthand has a value only when
  both of its longhands are set with the same priority.\<close>

definition getPropertyValue :: "decls \<Rightarrow> string \<Rightarrow> css option" where
  "getPropertyValue d p =
     (case shorthand p of
        None \<Rightarrow> map_option fst (d p)
      | Some (a, b) \<Rightarrow>
          (case (d a, d b) of
             (Some (x, i), Some (y, j)) \<Rightarrow> if i \<noteq> j then None else if x = y then Some x else Some (Two x y)
           | _ \<Rightarrow> None))"

definition setProperty :: "string \<Rightarrow> css \<Rightarrow> bool \<Rightarrow> decls \<Rightarrow> decls" where
  "setProperty p v important d =
     (case shorthand p of
        None \<Rightarrow> d(p \<mapsto> (v, important))
      | Some (a, b) \<Rightarrow>
          (case v of
             Two x y \<Rightarrow> d(a \<mapsto> (x, important), b \<mapsto> (y, important))
           | _ \<Rightarrow> d(a \<mapsto> (v, important), b \<mapsto> (v, important))))"

definition removeProperty :: "string \<Rightarrow> decls \<Rightarrow> decls" where
  "removeProperty p d =
     (case shorthand p of None \<Rightarrow> d(p := None) | Some (a, b) \<Rightarrow> d(a := None, b := None))"

text \<open>Restoring a saved value.\<close>

definition restore :: "string \<Rightarrow> css option \<Rightarrow> decls \<Rightarrow> decls" where
  "restore p v d = (case v of Some x \<Rightarrow> setProperty p x False d | None \<Rightarrow> removeProperty p d)"

section \<open>The page and the fullscreen fields\<close>

type_synonym el = nat

record page =
  parentElement :: "el \<Rightarrow> el option"
  dom_size :: nat
  style :: "el \<Rightarrow> decls"
  htmlEl :: el
  bodyEl :: el
  isMain :: "el \<Rightarrow> bool"
  isShell :: "el \<Rightarrow> bool"
  terminalContainer :: "el option"
  terminalEl :: "el option"
  terminalWrapper :: "el option"
  fullscreenClass :: bool
  scrollHandlers :: bool
  scrollPos :: "real \<times> real"

record viewport =
  vp_width :: real
  vp_height :: real
  vp_offsetTop :: real

text \<open>What the browser reports when a callback runs.\<close>

record browser =
  visualViewport :: "viewport option"
  innerWidth :: real
  innerHeight :: real
  clientWidth :: real
  clientHeight :: real
  positionStatic :: "el \<Rightarrow> bool"

type_synonym saved = "(string \<times> css option) list"

record fullscreen_state =
  page :: page
  fullscreen :: bool
  fullscreenAncestorPatches :: "(el \<times> saved) list option"
  pageScrollLocked :: bool
  scrollLockY :: real
  scrollLockStyles :: "(saved \<times> saved) option"
  keyboardInset :: int
  keyboardAnchorTop :: int
  keyboardViewportHeight :: real
  keyboardViewportWidth :: real

definition on_style :: "el \<Rightarrow> (decls \<Rightarrow> decls) \<Rightarrow> page \<Rightarrow> page" where
  "on_style e f pg = pg\<lparr>style := (style pg)(e := f (style pg e))\<rparr>"

definition set_all :: "(string \<times> css) list \<Rightarrow> decls \<Rightarrow> decls" where
  "set_all ps d = fold (\<lambda>(p, v). setProperty p v True) ps d"

definition save_all :: "string list \<Rightarrow> decls \<Rightarrow> saved" where
  "save_all ps d = map (\<lambda>p. (p, getPropertyValue d p)) ps"

definition restore_all :: "saved \<Rightarrow> decls \<Rightarrow> decls" where
  "restore_all vs d = fold (\<lambda>(p, v). restore p v) vs d"

section \<open>Ancestors\<close>

definition patch_props :: "string list" where
  "patch_props =
     [''isolation'', ''transform'', ''filter'', ''backdrop-filter'', ''contain'', ''overflow'',
      ''overflow-x'', ''overflow-y'', ''will-change'', ''perspective'', ''z-index'', ''position'']"

definition patch_values :: "(string \<times> css) list" where
  "patch_values =
     [(''isolation'', Kw ''auto''), (''transform'', Kw ''none''), (''filter'', Kw ''none''),
      (''backdrop-filter'', Kw ''none''), (''contain'', Kw ''none''), (''perspective'', Kw ''none''),
      (''will-change'', Kw ''auto''), (''overflow'', Kw ''visible''), (''overflow-x'', Kw ''visible''),
      (''overflow-y'', Kw ''visible''), (''z-index'', Kw ''auto'')]"

text \<open>The loop from the parent of an element up to the document element; the fuel is the number of
  elements of the document.\<close>

fun patch_loop :: "nat \<Rightarrow> el option \<Rightarrow> page \<Rightarrow> (el \<times> saved) list \<Rightarrow> page \<times> (el \<times> saved) list" where
  "patch_loop _ None pg ps = (pg, ps)"
| "patch_loop 0 (Some n) pg ps = (pg, ps)"
| "patch_loop (Suc k) (Some n) pg ps =
     (if n = htmlEl pg then (pg, ps)
      else patch_loop k (parentElement pg n) (on_style n (set_all patch_values) pg)
             (ps @ [(n, save_all patch_props (style pg n))]))"

text \<open>\<open>fromEl.closest('main')\<close>.\<close>

fun closest_main :: "nat \<Rightarrow> el option \<Rightarrow> page \<Rightarrow> el option" where
  "closest_main _ None pg = None"
| "closest_main 0 (Some n) pg = (if isMain pg n then Some n else None)"
| "closest_main (Suc k) (Some n) pg =
     (if isMain pg n then Some n else closest_main k (parentElement pg n) pg)"

definition restore_patches :: "(el \<times> saved) list \<Rightarrow> page \<Rightarrow> page" where
  "restore_patches ps pg = fold (\<lambda>(e, vs). on_style e (restore_all vs)) ps pg"

definition restoreAncestorsAfterFullscreen :: "fullscreen_state \<Rightarrow> fullscreen_state" where
  "restoreAncestorsAfterFullscreen s =
     (case fullscreenAncestorPatches s of
        None \<Rightarrow> s\<lparr>fullscreenAncestorPatches := None\<rparr>
      | Some ps \<Rightarrow> s\<lparr>page := restore_patches ps (page s), fullscreenAncestorPatches := None\<rparr>)"

definition patchAncestorsForFullscreen :: "browser \<Rightarrow> el \<Rightarrow> fullscreen_state \<Rightarrow> fullscreen_state" where
  "patchAncestorsForFullscreen b fromEl s0 =
     (let s = restoreAncestorsAfterFullscreen s0; pg0 = page s;
          (pg, ps) = patch_loop (dom_size pg0) (parentElement pg0 fromEl) pg0 [];
          main = closest_main (dom_size pg) (Some fromEl) pg
      in case main of
           None \<Rightarrow> s\<lparr>page := pg, fullscreenAncestorPatches := Some ps\<rparr>
         | Some m \<Rightarrow>
             let ps' = (if m \<in> fst ` set ps then ps else ps @ [(m, save_all patch_props (style pg m))]);
                 pg' = (if positionStatic b m then on_style m (setProperty ''position'' (Kw ''relative'') True) pg else pg);
                 pg'' = on_style m (setProperty ''z-index'' (Kw ''100001'') True) pg'
             in s\<lparr>page := pg'', fullscreenAncestorPatches := Some ps'\<rparr>)"

section \<open>The scroll lock\<close>

definition html_lock_props :: "string list" where
  "html_lock_props = [''overflow'', ''overscroll-behavior'']"

definition body_lock_props :: "string list" where
  "body_lock_props =
     [''overflow'', ''position'', ''top'', ''left'', ''right'', ''width'', ''padding-right'', ''overscroll-behavior'']"

definition lockPageScroll :: "browser \<Rightarrow> fullscreen_state \<Rightarrow> fullscreen_state" where
  "lockPageScroll b s =
     (if pageScrollLocked s then s
      else
        (let pg = page s; y = snd (scrollPos pg);
             gap = max 0 (innerWidth b - clientWidth b);
             html' = set_all [(''overflow'', Kw ''hidden''), (''overscroll-behavior'', Kw ''none'')];
             body' = set_all ([(''overflow'', Kw ''hidden''), (''overscroll-behavior'', Kw ''none''),
                               (''position'', Kw ''fixed''), (''top'', Px (- y)), (''left'', Kw ''0''), (''right'', Kw ''0''),
                               (''width'', Kw ''100%'')]
                              @ (if 0 < gap then [(''padding-right'', Px gap)] else []))
         in s\<lparr>pageScrollLocked := True, scrollLockY := y,
              scrollLockStyles := Some (save_all html_lock_props (style pg (htmlEl pg)),
                                        save_all body_lock_props (style pg (bodyEl pg))),
              page := (on_style (bodyEl pg) body' (on_style (htmlEl pg) html' pg))\<lparr>scrollHandlers := True\<rparr>\<rparr>))"

definition unlockPageScroll :: "fullscreen_state \<Rightarrow> fullscreen_state" where
  "unlockPageScroll s =
     (if \<not> pageScrollLocked s then s
      else
        (let pg = page s;
             (h, bd) = (case scrollLockStyles s of
                Some st \<Rightarrow> st
              | None \<Rightarrow> (map (\<lambda>p. (p, None)) html_lock_props, map (\<lambda>p. (p, None)) body_lock_props))
         in s\<lparr>pageScrollLocked := False, scrollLockStyles := None, scrollLockY := 0,
              page := (on_style (bodyEl pg) (restore_all bd) (on_style (htmlEl pg) (restore_all h) pg))
                        \<lparr>scrollHandlers := False, scrollPos := (0, scrollLockY s)\<rparr>\<rparr>))"

section \<open>Stray nodes and the keyboard\<close>

definition move_to :: "el option \<Rightarrow> el \<Rightarrow> page \<Rightarrow> page" where
  "move_to h e pg = pg\<lparr>parentElement := (parentElement pg)(e := h)\<rparr>"

fun is_inside :: "nat \<Rightarrow> el option \<Rightarrow> el \<Rightarrow> page \<Rightarrow> bool" where
  "is_inside _ None e pg = False"
| "is_inside 0 (Some n) e pg = (n = e)"
| "is_inside (Suc k) (Some n) e pg = (n = e \<or> is_inside k (parentElement pg n) e pg)"

text \<open>\<open>querySelectorAll('body > .terminal-fullscreen-shell')\<close> is taken before the loop; a node that
  holds the terminal goes home, any other is removed.\<close>

definition salvage_node :: "el \<Rightarrow> el \<Rightarrow> page \<Rightarrow> page" where
  "salvage_node h node pg =
     (if terminalWrapper pg = Some node \<or> is_inside (dom_size pg) (terminalEl pg) node pg
      then move_to (Some h) node pg else move_to None node pg)"

definition salvageStrayFullscreenNodes :: "page \<Rightarrow> page" where
  "salvageStrayFullscreenNodes pg0 =
     (case terminalContainer pg0 of
        None \<Rightarrow> pg0
      | Some h \<Rightarrow>
          (let pg = (case terminalWrapper pg0 of
                 Some w \<Rightarrow> if parentElement pg0 w = Some (bodyEl pg0) then move_to (Some h) w pg0 else pg0
               | None \<Rightarrow> pg0);
               strays = filter (\<lambda>n. parentElement pg n = Some (bodyEl pg) \<and> isShell pg n) [0..<dom_size pg]
           in fold (salvage_node h) strays pg))"

definition js_round :: "real \<Rightarrow> int" where
  "js_round x = \<lfloor>x + 1 / 2\<rfloor>"

definition on_wrapper :: "(decls \<Rightarrow> decls) \<Rightarrow> page \<Rightarrow> page" where
  "on_wrapper f pg = (case terminalWrapper pg of None \<Rightarrow> pg | Some w \<Rightarrow> on_style w f pg)"

definition syncFullscreenShellWithKeyboard :: "viewport option \<Rightarrow> fullscreen_state \<Rightarrow> fullscreen_state" where
  "syncFullscreenShellWithKeyboard vp s =
     (case vp of
        Some v \<Rightarrow>
          if fullscreen s \<and> 0 < keyboardInset s
          then s\<lparr>page := on_wrapper (set_all [(''top'', Px (of_int (js_round (vp_offsetTop v)))),
                  (''height'', Px (of_int (js_round (vp_height v)))), (''bottom'', Kw ''auto'')]) (page s)\<rparr>
          else s\<lparr>page := on_wrapper (removeProperty ''bottom'' \<circ> removeProperty ''height'' \<circ> removeProperty ''top'') (page s)\<rparr>
      | None \<Rightarrow> s\<lparr>page := on_wrapper (removeProperty ''bottom'' \<circ> removeProperty ''height'' \<circ> removeProperty ''top'') (page s)\<rparr>)"

text \<open>The fields that \<open>updateKeyboardInset\<close> computes before it resizes the shell.\<close>

definition measureKeyboard :: "browser \<Rightarrow> fullscreen_state \<Rightarrow> fullscreen_state" where
  "measureKeyboard b s =
     (let vp = visualViewport b;
          viewportWidth = (case vp of Some v \<Rightarrow> vp_width v | None \<Rightarrow> innerWidth b);
          bottom = (case vp of Some v \<Rightarrow> vp_height v + vp_offsetTop v | None \<Rightarrow> 0);
          layoutHeight = max (max (innerHeight b) (clientHeight b)) bottom;
          h = (if 80 < \<bar>keyboardViewportWidth s - viewportWidth\<bar> then layoutHeight
               else max (keyboardViewportHeight s) layoutHeight);
          visualBottom = (case vp of Some v \<Rightarrow> bottom | None \<Rightarrow> layoutHeight);
          inset = (if innerWidth b < 640 \<and> vp \<noteq> None then max 0 (js_round (h - visualBottom)) else 0)
      in s\<lparr>keyboardViewportHeight := h, keyboardViewportWidth := viewportWidth,
           keyboardInset := inset, keyboardAnchorTop := js_round visualBottom\<rparr>)"

definition updateKeyboardInset :: "browser \<Rightarrow> fullscreen_state \<Rightarrow> fullscreen_state" where
  "updateKeyboardInset b s =
     syncFullscreenShellWithKeyboard (visualViewport b) (measureKeyboard b s)"

section \<open>Entering and leaving\<close>

definition clear_wrapper_size :: "page \<Rightarrow> page" where
  "clear_wrapper_size =
     on_wrapper (removeProperty ''min-height'' \<circ> removeProperty ''height'' \<circ> removeProperty ''display'')"

definition enterFullscreen :: "browser \<Rightarrow> fullscreen_state \<Rightarrow> fullscreen_state" where
  "enterFullscreen b s =
     (case terminalWrapper (page s) of
        None \<Rightarrow> s
      | Some w \<Rightarrow>
          if fullscreen s then s
          else
            (let s1 = s\<lparr>page := salvageStrayFullscreenNodes (page s)\<rparr>;
                 s2 = lockPageScroll b (patchAncestorsForFullscreen b w s1);
                 s3 = s2\<lparr>page := (clear_wrapper_size (page s2))\<lparr>fullscreenClass := True\<rparr>, fullscreen := True\<rparr>
             in updateKeyboardInset b s3))"

definition exitFullscreen :: "browser \<Rightarrow> fullscreen_state \<Rightarrow> fullscreen_state" where
  "exitFullscreen b s =
     (let s1 = unlockPageScroll (restoreAncestorsAfterFullscreen s);
          s2 = s1\<lparr>fullscreen := False,
                 page := salvageStrayFullscreenNodes (clear_wrapper_size ((page s1)\<lparr>fullscreenClass := False\<rparr>))\<rparr>
      in updateKeyboardInset b s2)"

definition makeFullscreen :: "browser \<Rightarrow> fullscreen_state \<Rightarrow> fullscreen_state" where
  "makeFullscreen b s = (if fullscreen s then exitFullscreen b s else enterFullscreen b s)"

section \<open>Saving and restoring styles\<close>

definition plain_decls :: "decls \<Rightarrow> bool" where
  "plain_decls d \<longleftrightarrow> (\<forall>p v i. d p = Some (v, i) \<longrightarrow> \<not> i)"

text \<open>The longhands of a property.\<close>

definition longhands :: "string \<Rightarrow> string list" where
  "longhands p = (case shorthand p of None \<Rightarrow> [p] | Some (a, b) \<Rightarrow> [a, b])"

lemma setProperty_other: "q \<notin> set (longhands p) \<Longrightarrow> setProperty p v i d q = d q"
  by (auto simp: setProperty_def longhands_def split: option.splits css.splits)

lemma removeProperty_other: "q \<notin> set (longhands p) \<Longrightarrow> removeProperty p d q = d q"
  by (auto simp: removeProperty_def longhands_def split: option.splits)

lemma restore_other: "q \<notin> set (longhands p) \<Longrightarrow> restore p v d q = d q"
  by (simp add: restore_def setProperty_other removeProperty_other split: option.splits)

lemma set_all_other: "q \<notin> set (concat (map (longhands \<circ> fst) ps)) \<Longrightarrow> set_all ps d q = d q"
  unfolding set_all_def by (induction ps arbitrary: d) (auto simp: setProperty_other split: prod.splits)

lemma restore_all_append: "restore_all (xs @ ys) d = restore_all ys (restore_all xs d)"
  by (simp add: restore_all_def)

lemma restore_longhand:
  assumes "shorthand p = None" "plain_decls d"
  shows "restore p (getPropertyValue d p) d' = d'(p := d p)"
proof (cases "d p")
  case (Some vi)
  obtain v i where "vi = (v, i)" by (cases vi)
  with Some assms have "d p = Some (v, False)" by (auto simp: plain_decls_def)
  with assms(1) show ?thesis by (simp add: restore_def getPropertyValue_def setProperty_def)
qed (use assms(1) in \<open>simp add: restore_def getPropertyValue_def removeProperty_def\<close>)

lemma restore_longhands:
  assumes "list_all (\<lambda>p. shorthand p = None) ps" "plain_decls d"
  shows "restore_all (save_all ps d) d' = (\<lambda>q. if q \<in> set ps then d q else d' q)"
  using assms(1)
proof (induction ps arbitrary: d')
  case (Cons p ps)
  then have "restore_all (save_all (p # ps) d) d' = restore_all (save_all ps d) (d'(p := d p))"
    using restore_longhand [OF _ assms(2)] by (simp add: restore_all_def save_all_def)
  with Cons show ?case by (auto simp: fun_eq_iff)
qed (simp add: restore_all_def save_all_def)

text \<open>A shorthand whose two longhands are set together, or not at all, with one value.\<close>

definition uniform :: "string \<Rightarrow> decls \<Rightarrow> bool" where
  "uniform p d = (case shorthand p of None \<Rightarrow> True
     | Some (a, b) \<Rightarrow> (d a = None \<and> d b = None)
         \<or> (\<exists>v. d a = Some (v, False) \<and> d b = Some (v, False) \<and> (case v of Two x y \<Rightarrow> False | _ \<Rightarrow> True)))"

lemma restore_uniform:
  assumes "uniform p d" "plain_decls d"
  shows "restore p (getPropertyValue d p) d' = (\<lambda>q. if q \<in> set (longhands p) then d q else d' q)"
proof (cases "shorthand p")
  case None
  with restore_longhand [OF None assms(2)] show ?thesis by (auto simp: longhands_def)
next
  case (Some ab)
  obtain a b where ab: "ab = (a, b)" by (cases ab)
  from assms(1) Some ab consider "d a = None" "d b = None"
    | v where "d a = Some (v, False)" "d b = Some (v, False)" "case v of Two x y \<Rightarrow> False | _ \<Rightarrow> True"
    by (auto simp: uniform_def)
  then show ?thesis
  proof cases
    case 1
    with Some ab show ?thesis by (auto simp: restore_def getPropertyValue_def removeProperty_def longhands_def fun_eq_iff)
  next
    case 2
    with Some ab show ?thesis
      by (cases v) (auto simp: restore_def getPropertyValue_def setProperty_def longhands_def fun_eq_iff)
  qed
qed

lemma restore_uniforms:
  assumes "list_all (\<lambda>p. uniform p d) ps" "plain_decls d"
  shows "restore_all (save_all ps d) d' = (\<lambda>q. if q \<in> set (concat (map longhands ps)) then d q else d' q)"
  using assms(1)
proof (induction ps arbitrary: d')
  case (Cons p ps)
  then have "restore_all (save_all (p # ps) d) d' =
      restore_all (save_all ps d) (\<lambda>q. if q \<in> set (longhands p) then d q else d' q)"
    using restore_uniform [OF _ assms(2)] by (simp add: restore_all_def save_all_def)
  with Cons show ?case by (auto simp: fun_eq_iff)
qed (simp add: restore_all_def save_all_def)

definition patch_longs :: "string list" where
  "patch_longs =
     [''isolation'', ''transform'', ''filter'', ''backdrop-filter'', ''contain'',
      ''overflow-x'', ''overflow-y'', ''will-change'', ''perspective'', ''z-index'', ''position'']"

lemma restore_patch:
  assumes "plain_decls d"
  shows "restore_all (save_all patch_props d) d' = (\<lambda>q. if q \<in> set patch_longs then d q else d' q)"
proof -
  let ?a = "take 5 patch_props" and ?b = "drop 6 patch_props"
  have p: "patch_props = ?a @ [''overflow''] @ ?b" by (simp add: patch_props_def)
  have "list_all (\<lambda>p. shorthand p = None) ?a" "list_all (\<lambda>p. shorthand p = None) ?b"
    by (simp_all add: patch_props_def shorthand_def)
  note r = restore_longhands [OF this(1) assms] restore_longhands [OF this(2) assms]
  have o: "restore ''overflow'' v e q = e q" if "q \<noteq> ''overflow-x''" "q \<noteq> ''overflow-y''" for v e q
    using that by (intro restore_other) (simp add: longhands_def shorthand_def)
  have "restore_all (save_all patch_props d) d' =
      restore_all (save_all ?b d) (restore ''overflow'' (getPropertyValue d ''overflow'') (restore_all (save_all ?a d) d'))"
    by (subst p) (simp add: save_all_def restore_all_def)
  also have "\<dots> = (\<lambda>q. if q \<in> set patch_longs then d q else d' q)"
    unfolding r using o by (auto simp: fun_eq_iff patch_props_def patch_longs_def)
  finally show ?thesis .
qed

lemma patch_values_other: "q \<notin> set patch_longs \<Longrightarrow> set_all patch_values d q = d q"
  by (rule set_all_other) (simp add: patch_values_def patch_longs_def longhands_def shorthand_def)

section \<open>The ancestor chain\<close>

fun chain :: "nat \<Rightarrow> el option \<Rightarrow> page \<Rightarrow> el list" where
  "chain _ None pg = []"
| "chain 0 (Some n) pg = []"
| "chain (Suc k) (Some n) pg = (if n = htmlEl pg then [] else n # chain k (parentElement pg n) pg)"

lemma on_style_sel [simp]:
  "parentElement (on_style e f pg) = parentElement pg" "dom_size (on_style e f pg) = dom_size pg"
  "htmlEl (on_style e f pg) = htmlEl pg" "bodyEl (on_style e f pg) = bodyEl pg"
  "isMain (on_style e f pg) = isMain pg" "isShell (on_style e f pg) = isShell pg"
  "terminalContainer (on_style e f pg) = terminalContainer pg" "terminalEl (on_style e f pg) = terminalEl pg"
  "terminalWrapper (on_style e f pg) = terminalWrapper pg" "scrollPos (on_style e f pg) = scrollPos pg"
  "style (on_style e f pg) = (style pg)(e := f (style pg e))"
  by (simp_all add: on_style_def)

lemma chain_cong:
  "parentElement pg' = parentElement pg \<Longrightarrow> htmlEl pg' = htmlEl pg \<Longrightarrow> chain k n pg' = chain k n pg"
  by (induction k n pg rule: chain.induct) auto

lemma patch_loop_chain:
  assumes "distinct (chain k n pg)"
  shows "patch_loop k n pg ps =
    (fold (\<lambda>e. on_style e (set_all patch_values)) (chain k n pg) pg,
     ps @ map (\<lambda>e. (e, save_all patch_props (style pg e))) (chain k n pg))"
  using assms
proof (induction k n pg ps rule: patch_loop.induct)
  case (3 k n pg ps)
  show ?case
  proof (cases "n = htmlEl pg")
    case False
    let ?q = "on_style n (set_all patch_values) pg"
    have c: "chain k (parentElement pg n) ?q = chain k (parentElement pg n) pg" by (rule chain_cong) simp_all
    from 3(2) False have "distinct (chain k (parentElement pg n) ?q)" "n \<notin> set (chain k (parentElement pg n) pg)"
      by (simp_all add: c)
    with 3(1) [OF False] False show ?thesis by (auto simp: c)
  qed simp
qed simp_all

lemma fold_style:
  "distinct es \<Longrightarrow>
   style (fold (\<lambda>e. on_style e f) es pg) x = (if x \<in> set es then f (style pg x) else style pg x)"
  by (induction es arbitrary: pg) auto

lemma restore_patches_style:
  "distinct (map fst ps) \<Longrightarrow>
   style (restore_patches ps pg) x =
     (case map_of ps x of None \<Rightarrow> style pg x | Some vs \<Rightarrow> restore_all vs (style pg x))"
  unfolding restore_patches_def
proof (induction ps arbitrary: pg)
  case (Cons q ps)
  obtain e vs where q: "q = (e, vs)" by (cases q)
  have "map_of ps e = None" using Cons.prems by (simp add: q map_of_eq_None_iff)
  with Cons show ?case by (simp add: q split: option.splits)
qed simp

lemma fold_on_style_sel [simp]:
  "parentElement (fold (\<lambda>e. on_style e f) es pg) = parentElement pg"
  "dom_size (fold (\<lambda>e. on_style e f) es pg) = dom_size pg"
  "htmlEl (fold (\<lambda>e. on_style e f) es pg) = htmlEl pg" "bodyEl (fold (\<lambda>e. on_style e f) es pg) = bodyEl pg"
  "isMain (fold (\<lambda>e. on_style e f) es pg) = isMain pg" "isShell (fold (\<lambda>e. on_style e f) es pg) = isShell pg"
  "terminalContainer (fold (\<lambda>e. on_style e f) es pg) = terminalContainer pg"
  "terminalEl (fold (\<lambda>e. on_style e f) es pg) = terminalEl pg"
  "terminalWrapper (fold (\<lambda>e. on_style e f) es pg) = terminalWrapper pg"
  "scrollPos (fold (\<lambda>e. on_style e f) es pg) = scrollPos pg"
  by (induction es arbitrary: pg) auto

lemma restore_patches_sel [simp]:
  "parentElement (restore_patches ps pg) = parentElement pg" "dom_size (restore_patches ps pg) = dom_size pg"
  "htmlEl (restore_patches ps pg) = htmlEl pg" "bodyEl (restore_patches ps pg) = bodyEl pg"
  "isMain (restore_patches ps pg) = isMain pg" "isShell (restore_patches ps pg) = isShell pg"
  "terminalContainer (restore_patches ps pg) = terminalContainer pg"
  "terminalEl (restore_patches ps pg) = terminalEl pg"
  "terminalWrapper (restore_patches ps pg) = terminalWrapper pg"
  "scrollPos (restore_patches ps pg) = scrollPos pg"
  unfolding restore_patches_def by (induction ps arbitrary: pg) (auto split: prod.splits)

text \<open>What patching does to the page: the patches taken, and only patched longhands change.\<close>

definition patched :: "fullscreen_state \<Rightarrow> el \<Rightarrow> browser \<Rightarrow> (el \<times> saved) list \<Rightarrow> page \<Rightarrow> bool" where
  "patched s w b ps pg \<longleftrightarrow>
     distinct (map fst ps)
     \<and> (\<forall>e vs. map_of ps e = Some vs \<longrightarrow> vs = save_all patch_props (style (page s) e))
     \<and> (\<forall>e q. q \<notin> set patch_longs \<longrightarrow> style pg e q = style (page s) e q)
     \<and> (\<forall>e. e \<notin> fst ` set ps \<longrightarrow> style pg e = style (page s) e)
     \<and> set (chain (dom_size (page s)) (parentElement (page s) w) (page s)) \<subseteq> fst ` set ps
     \<and> (\<forall>e. e \<in> set (chain (dom_size (page s)) (parentElement (page s) w) (page s)) \<and> \<not> isMain (page s) e \<longrightarrow>
          style pg e = set_all patch_values (style (page s) e))
     \<and> (\<forall>e. e \<in> fst ` set ps \<longrightarrow> e \<in> set (chain (dom_size (page s)) (parentElement (page s) w) (page s)) \<or> isMain (page s) e)"

definition same_tree :: "page \<Rightarrow> page \<Rightarrow> bool" where
  "same_tree a b \<longleftrightarrow> parentElement a = parentElement b \<and> dom_size a = dom_size b \<and> htmlEl a = htmlEl b
     \<and> bodyEl a = bodyEl b \<and> isMain a = isMain b \<and> isShell a = isShell b
     \<and> terminalContainer a = terminalContainer b \<and> terminalEl a = terminalEl b
     \<and> terminalWrapper a = terminalWrapper b \<and> scrollPos a = scrollPos b"

lemma closest_main_isMain: "closest_main k n pg = Some m \<Longrightarrow> isMain pg m"
  by (induction k n pg rule: closest_main.induct) (auto split: if_splits)

lemma patched_main:
  assumes base: "patched s w b ps pg" and main: "isMain (page s) m"
    and f: "\<And>d q. q \<notin> set patch_longs \<Longrightarrow> f d q = d q"
  shows "patched s w b (if m \<in> fst ` set ps then ps else ps @ [(m, save_all patch_props (style pg m))]) (on_style m f pg)"
    (is "patched s w b ?ps2 _")
proof -
  from base have d: "distinct (map fst ps)"
    and mp: "\<And>e vs. map_of ps e = Some vs \<Longrightarrow> vs = save_all patch_props (style (page s) e)"
    and other: "\<And>e q. q \<notin> set patch_longs \<Longrightarrow> style pg e q = style (page s) e q"
    and unp: "\<And>e. e \<notin> fst ` set ps \<Longrightarrow> style pg e = style (page s) e"
    unfolding patched_def by blast+
  have mp2: "map_of ?ps2 e = Some vs \<Longrightarrow> vs = save_all patch_props (style (page s) e)" for e vs
    using mp unp [of m] by (auto split: if_splits option.splits simp: map_add_def)
  have fst2: "fst ` set ?ps2 = insert m (fst ` set ps)" by auto
  have st: "style (on_style m f pg) e = (if e = m then f (style pg m) else style pg e)" for e by simp
  have "distinct (map fst ?ps2)" using d by auto
  moreover have "(if e = m then f (style pg m) else style pg e) q = style (page s) e q" if "q \<notin> set patch_longs" for e q
    using f other that by simp
  moreover have "(if e = m then f (style pg m) else style pg e) = style (page s) e" if "e \<notin> insert m (fst ` set ps)" for e
    using unp that by simp
  moreover have "(if e = m then f (style pg m) else style pg e) = set_all patch_values (style (page s) e)"
    if "e \<in> set (chain (dom_size (page s)) (parentElement (page s) w) (page s)) \<and> \<not> isMain (page s) e" for e
    using base main that unfolding patched_def by metis
  moreover have "set (chain (dom_size (page s)) (parentElement (page s) w) (page s)) \<subseteq> insert m (fst ` set ps)"
    using base unfolding patched_def by blast
  moreover have "e \<in> set (chain (dom_size (page s)) (parentElement (page s) w) (page s)) \<or> isMain (page s) e"
    if "e \<in> insert m (fst ` set ps)" for e
    using base main that unfolding patched_def by blast
  ultimately show ?thesis unfolding patched_def fst2 st using mp2 by simp
qed

lemma patch_loop_patched:
  assumes d: "distinct (chain (dom_size (page s)) (parentElement (page s) w) (page s))"
  obtains ps pg where "patch_loop (dom_size (page s)) (parentElement (page s) w) (page s) [] = (pg, ps)"
    "patched s w b ps pg" "same_tree pg (page s)"
proof -
  let ?pg = "page s"
  let ?c = "chain (dom_size ?pg) (parentElement ?pg w) ?pg"
  let ?pg1 = "fold (\<lambda>e. on_style e (set_all patch_values)) ?c ?pg"
  let ?ps1 = "map (\<lambda>e. (e, save_all patch_props (style ?pg e))) ?c"
  have st: "style ?pg1 e = (if e \<in> set ?c then set_all patch_values (style ?pg e) else style ?pg e)" for e
    by (rule fold_style [OF d])
  have m1: "map_of ?ps1 e = (if e \<in> set ?c then Some (save_all patch_props (style ?pg e)) else None)" for e
    by (induction ?c) (auto simp: map_of_map_restrict restrict_map_def)
  show thesis
  proof (rule that)
    show "patch_loop (dom_size ?pg) (parentElement ?pg w) ?pg [] = (?pg1, ?ps1)"
      using patch_loop_chain [OF d, of "[]"] by simp
    show "patched s w b ?ps1 ?pg1"
      unfolding patched_def using d st m1 by (auto simp: comp_def image_image patch_values_other split: if_splits)
    show "same_tree ?pg1 ?pg" by (simp add: same_tree_def)
  qed
qed

lemma patchAncestors_patched:
  assumes "fullscreenAncestorPatches s = None"
    and d: "distinct (chain (dom_size (page s)) (parentElement (page s) w) (page s))"
  obtains ps pg where "patchAncestorsForFullscreen b w s = s\<lparr>page := pg, fullscreenAncestorPatches := Some ps\<rparr>"
    "patched s w b ps pg" "same_tree pg (page s)"
proof -
  have s0: "restoreAncestorsAfterFullscreen s = s"
    using assms(1) by (simp add: restoreAncestorsAfterFullscreen_def)
  obtain ps pg where l: "patch_loop (dom_size (page s)) (parentElement (page s) w) (page s) [] = (pg, ps)"
    "patched s w b ps pg" "same_tree pg (page s)"
    by (rule patch_loop_patched [OF d])
  have sz: "dom_size pg = dom_size (page s)" using l(3) by (simp add: same_tree_def)
  show thesis
  proof (cases "closest_main (dom_size (page s)) (Some w) pg")
    case None
    then have "patchAncestorsForFullscreen b w s = s\<lparr>page := pg, fullscreenAncestorPatches := Some ps\<rparr>"
      by (simp add: patchAncestorsForFullscreen_def s0 Let_def l(1) sz)
    then show ?thesis using l(2,3) by (rule that)
  next
    case (Some m)
    let ?f = "\<lambda>d. setProperty ''z-index'' (Kw ''100001'') True
        (if positionStatic b m then setProperty ''position'' (Kw ''relative'') True d else d)"
    have main: "isMain (page s) m" using closest_main_isMain [OF Some] l(3) by (simp add: same_tree_def)
    have f: "?f d q = d q" if "q \<notin> set patch_longs" for d q
      using that by (auto simp: setProperty_other longhands_def shorthand_def patch_longs_def)
    have pt: "patched s w b (if m \<in> fst ` set ps then ps else ps @ [(m, save_all patch_props (style pg m))])
        (on_style m ?f pg)"
      by (rule patched_main [where f = ?f, OF l(2) main f])
    have "patchAncestorsForFullscreen b w s = s\<lparr>page := on_style m ?f pg, fullscreenAncestorPatches :=
        Some (if m \<in> fst ` set ps then ps else ps @ [(m, save_all patch_props (style pg m))])\<rparr>"
      by (simp add: patchAncestorsForFullscreen_def s0 Let_def l(1) sz Some on_style_def)
    then show ?thesis
      using pt by (rule that) (use l(3) in \<open>simp_all add: same_tree_def\<close>)
  qed
qed

lemma same_tree_on_style: "same_tree a b \<Longrightarrow> same_tree (on_style e f a) b"
  by (simp add: same_tree_def)

lemma salvage_frame:
  assumes "\<And>h e p. P (move_to h e p) = P p"
  shows "P (salvageStrayFullscreenNodes pg) = P pg"
proof -
  have "P (fold (salvage_node h) ns p) = P p" for h ns p
    by (rule fold_same) (simp add: salvage_node_def assms)
  then show ?thesis
    by (simp add: salvageStrayFullscreenNodes_def Let_def assms split: option.splits)
qed

lemma salvage_sel [simp]:
  "style (salvageStrayFullscreenNodes pg) = style pg"
  "htmlEl (salvageStrayFullscreenNodes pg) = htmlEl pg" "bodyEl (salvageStrayFullscreenNodes pg) = bodyEl pg"
  "scrollPos (salvageStrayFullscreenNodes pg) = scrollPos pg"
  "terminalWrapper (salvageStrayFullscreenNodes pg) = terminalWrapper pg"
  "isMain (salvageStrayFullscreenNodes pg) = isMain pg"
  by (rule salvage_frame; simp add: move_to_def)+

text \<open>The keyboard step touches only the wrapper's style.\<close>

lemma measure_sel [simp]:
  "page (measureKeyboard b s) = page s" "fullscreen (measureKeyboard b s) = fullscreen s"
  "fullscreenAncestorPatches (measureKeyboard b s) = fullscreenAncestorPatches s"
  "pageScrollLocked (measureKeyboard b s) = pageScrollLocked s"
  "scrollLockStyles (measureKeyboard b s) = scrollLockStyles s" "scrollLockY (measureKeyboard b s) = scrollLockY s"
  by (simp_all add: measureKeyboard_def Let_def)

lemma on_wrapper_sel [simp]:
  "htmlEl (on_wrapper f pg) = htmlEl pg" "bodyEl (on_wrapper f pg) = bodyEl pg"
  "scrollPos (on_wrapper f pg) = scrollPos pg" "terminalWrapper (on_wrapper f pg) = terminalWrapper pg"
  "isMain (on_wrapper f pg) = isMain pg"
  "terminalWrapper pg \<noteq> Some e \<Longrightarrow> style (on_wrapper f pg) e = style pg e"
  by (auto simp: on_wrapper_def split: option.splits)

lemma sync_page: "\<exists>f. page (syncFullscreenShellWithKeyboard v s) = on_wrapper f (page s)"
  by (auto simp: syncFullscreenShellWithKeyboard_def split: option.splits)

lemma sync_sel [simp]:
  "fullscreen (syncFullscreenShellWithKeyboard v s) = fullscreen s"
  "fullscreenAncestorPatches (syncFullscreenShellWithKeyboard v s) = fullscreenAncestorPatches s"
  "pageScrollLocked (syncFullscreenShellWithKeyboard v s) = pageScrollLocked s"
  "scrollLockStyles (syncFullscreenShellWithKeyboard v s) = scrollLockStyles s"
  "scrollLockY (syncFullscreenShellWithKeyboard v s) = scrollLockY s"
  by (simp_all add: syncFullscreenShellWithKeyboard_def split: option.splits)

lemma keyboard_page: "\<exists>f. page (updateKeyboardInset b s) = on_wrapper f (page s)"
  using sync_page [of "visualViewport b" "measureKeyboard b s"] by (simp add: updateKeyboardInset_def)

lemma keyboard_sel [simp]:
  "htmlEl (page (updateKeyboardInset b s)) = htmlEl (page s)" "bodyEl (page (updateKeyboardInset b s)) = bodyEl (page s)"
  "scrollPos (page (updateKeyboardInset b s)) = scrollPos (page s)"
  "terminalWrapper (page (updateKeyboardInset b s)) = terminalWrapper (page s)"
  "isMain (page (updateKeyboardInset b s)) = isMain (page s)"
  "fullscreen (updateKeyboardInset b s) = fullscreen s"
  "fullscreenAncestorPatches (updateKeyboardInset b s) = fullscreenAncestorPatches s"
  "pageScrollLocked (updateKeyboardInset b s) = pageScrollLocked s"
  "scrollLockStyles (updateKeyboardInset b s) = scrollLockStyles s" "scrollLockY (updateKeyboardInset b s) = scrollLockY s"
  using keyboard_page [of b s] by (auto simp: updateKeyboardInset_def)

lemma keyboard_style:
  "terminalWrapper (page s) \<noteq> Some e \<Longrightarrow> style (page (updateKeyboardInset b s)) e = style (page s) e"
  using keyboard_page [of b s] by auto

lemma wrapper_sel [simp]:
  "htmlEl (clear_wrapper_size pg) = htmlEl pg" "bodyEl (clear_wrapper_size pg) = bodyEl pg"
  "scrollPos (clear_wrapper_size pg) = scrollPos pg" "terminalWrapper (clear_wrapper_size pg) = terminalWrapper pg"
  "isMain (clear_wrapper_size pg) = isMain pg"
  by (simp_all add: clear_wrapper_size_def on_wrapper_def split: option.splits)

lemma wrapper_style: "terminalWrapper pg \<noteq> Some e \<Longrightarrow> style (clear_wrapper_size pg) e = style pg e"
  by (auto simp: clear_wrapper_size_def on_wrapper_def split: option.splits)

section \<open>Locking and unlocking\<close>

abbreviation body_longs :: "string list" where
  "body_longs \<equiv> concat (map longhands body_lock_props)"

abbreviation html_longs :: "string list" where
  "html_longs \<equiv> concat (map longhands html_lock_props)"

lemma html_lock_other:
  "q \<notin> set html_longs \<Longrightarrow> set_all [(''overflow'', Kw ''hidden''), (''overscroll-behavior'', Kw ''none'')] d q = d q"
  by (rule set_all_other) (simp add: html_lock_props_def longhands_def shorthand_def)

lemma body_lock_other:
  assumes "q \<notin> set body_longs"
  shows "set_all ([(''overflow'', Kw ''hidden''), (''overscroll-behavior'', Kw ''none''),
      (''position'', Kw ''fixed''), (''top'', Px (- y)), (''left'', Kw ''0''), (''right'', Kw ''0''),
      (''width'', Kw ''100%'')] @ (if c then [(''padding-right'', Px g)] else [])) d q = d q"
  by (rule set_all_other, cases c)
    (use assms in \<open>simp_all add: body_lock_props_def longhands_def shorthand_def\<close>)

lemma lock_sel:
  assumes "\<not> pageScrollLocked s"
  shows "pageScrollLocked (lockPageScroll b s)" "scrollLockY (lockPageScroll b s) = snd (scrollPos (page s))"
    "scrollLockStyles (lockPageScroll b s) = Some (save_all html_lock_props (style (page s) (htmlEl (page s))),
        save_all body_lock_props (style (page s) (bodyEl (page s))))"
    "fullscreenAncestorPatches (lockPageScroll b s) = fullscreenAncestorPatches s"
    "fullscreen (lockPageScroll b s) = fullscreen s"
    "htmlEl (page (lockPageScroll b s)) = htmlEl (page s)" "bodyEl (page (lockPageScroll b s)) = bodyEl (page s)"
    "isMain (page (lockPageScroll b s)) = isMain (page s)"
    "terminalWrapper (page (lockPageScroll b s)) = terminalWrapper (page s)"
    "e \<noteq> htmlEl (page s) \<Longrightarrow> e \<noteq> bodyEl (page s) \<Longrightarrow> style (page (lockPageScroll b s)) e = style (page s) e"
    "htmlEl (page s) \<noteq> bodyEl (page s) \<Longrightarrow> q \<notin> set html_longs \<Longrightarrow>
       style (page (lockPageScroll b s)) (htmlEl (page s)) q = style (page s) (htmlEl (page s)) q"
    "htmlEl (page s) \<noteq> bodyEl (page s) \<Longrightarrow> q \<notin> set body_longs \<Longrightarrow>
       style (page (lockPageScroll b s)) (bodyEl (page s)) q = style (page s) (bodyEl (page s)) q"
  using assms html_lock_other body_lock_other by (simp_all add: lockPageScroll_def Let_def del: set_concat)

text \<open>Unlocking writes back exactly the saved longhands.\<close>

lemma unlock_style:
  assumes "pageScrollLocked s" "scrollLockStyles s = Some (h, bd)" "htmlEl (page s) \<noteq> bodyEl (page s)"
  shows "style (page (unlockPageScroll s)) e =
    (if e = htmlEl (page s) then restore_all h (style (page s) e)
     else if e = bodyEl (page s) then restore_all bd (style (page s) e) else style (page s) e)"
  using assms by (simp add: unlockPageScroll_def Let_def)

lemma unlock_sel [simp]:
  "htmlEl (page (unlockPageScroll s)) = htmlEl (page s)" "bodyEl (page (unlockPageScroll s)) = bodyEl (page s)"
  "terminalWrapper (page (unlockPageScroll s)) = terminalWrapper (page s)"
  "isMain (page (unlockPageScroll s)) = isMain (page s)"
  "fullscreenAncestorPatches (unlockPageScroll s) = fullscreenAncestorPatches s"
  "\<not> pageScrollLocked (unlockPageScroll s)"
  by (simp_all add: unlockPageScroll_def Let_def split: option.splits prod.splits)

definition lockable :: "fullscreen_state \<Rightarrow> bool" where
  "lockable s \<longleftrightarrow> htmlEl (page s) \<noteq> bodyEl (page s)
     \<and> plain_decls (style (page s) (htmlEl (page s))) \<and> plain_decls (style (page s) (bodyEl (page s)))
     \<and> list_all (\<lambda>p. uniform p (style (page s) (htmlEl (page s)))) html_lock_props
     \<and> list_all (\<lambda>p. uniform p (style (page s) (bodyEl (page s)))) body_lock_props"

lemma lock_unlock_style:
  assumes "lockable s" "\<not> pageScrollLocked s"
  shows "style (page (unlockPageScroll (lockPageScroll b s))) = style (page s)"
proof
  fix e
  note l = lock_sel [OF assms(2), where b = b]
  have ne: "htmlEl (page s) \<noteq> bodyEl (page s)" using assms(1) by (simp add: lockable_def)
  then have ne': "htmlEl (page (lockPageScroll b s)) \<noteq> bodyEl (page (lockPageScroll b s))" by (simp add: l)
  note u = unlock_style [OF l(1) l(3) ne', of e]
  have h: "restore_all (save_all html_lock_props (style (page s) (htmlEl (page s)))) d' =
      (\<lambda>q. if q \<in> set html_longs then style (page s) (htmlEl (page s)) q else d' q)" for d'
    using assms(1) by (intro restore_uniforms) (simp_all only: lockable_def)
  have bd: "restore_all (save_all body_lock_props (style (page s) (bodyEl (page s)))) d' =
      (\<lambda>q. if q \<in> set body_longs then style (page s) (bodyEl (page s)) q else d' q)" for d'
    using assms(1) by (intro restore_uniforms) (simp_all only: lockable_def)
  show "style (page (unlockPageScroll (lockPageScroll b s))) e = style (page s) e"
    unfolding u l(6,7) h bd using l(10) l(11,12) [OF ne] by (auto simp: fun_eq_iff simp del: set_concat)
qed

section \<open>Entering and leaving\<close>

text \<open>A page that can go fullscreen: the wrapper is inside the body, the tree has no cycle, no
  inline style is marked important, and the locked shorthands are not half set.\<close>

definition fullscreen_ready :: "fullscreen_state \<Rightarrow> el \<Rightarrow> bool" where
  "fullscreen_ready s w \<longleftrightarrow>
     terminalWrapper (page s) = Some w \<and> \<not> fullscreen s \<and> fullscreenAncestorPatches s = None
     \<and> \<not> pageScrollLocked s \<and> lockable s \<and> (\<forall>e. plain_decls (style (page s) e))
     \<and> \<not> isMain (page s) (htmlEl (page s)) \<and> \<not> isMain (page s) (bodyEl (page s))
     \<and> (let pg = salvageStrayFullscreenNodes (page s); c = chain (dom_size pg) (parentElement pg w) pg
        in distinct c \<and> bodyEl pg \<in> set c)"

lemma chain_not_html: "htmlEl pg \<notin> set (chain k n pg)"
  by (induction k n pg rule: chain.induct) auto

text \<open>The state on entering, and the same state reached through the three steps of leaving.\<close>

lemma enter_steps:
  assumes "fullscreen_ready s w"
  obtains ps pg where
    "patched (s\<lparr>page := salvageStrayFullscreenNodes (page s)\<rparr>) w b ps pg"
    "same_tree pg (salvageStrayFullscreenNodes (page s))"
    "fullscreenAncestorPatches (enterFullscreen b s) = Some ps"
    "\<And>e. e \<noteq> w \<Longrightarrow> style (page (enterFullscreen b s)) e = style (page (lockPageScroll b
       (s\<lparr>page := pg, fullscreenAncestorPatches := Some ps\<rparr>))) e"
    "fullscreen (enterFullscreen b s)" "pageScrollLocked (enterFullscreen b s)"
    "scrollLockStyles (enterFullscreen b s) = Some (save_all html_lock_props (style pg (htmlEl (page s))),
        save_all body_lock_props (style pg (bodyEl (page s))))"
    "scrollLockY (enterFullscreen b s) = snd (scrollPos (page s))"
    "htmlEl (page (enterFullscreen b s)) = htmlEl (page s)" "bodyEl (page (enterFullscreen b s)) = bodyEl (page s)"
    "terminalWrapper (page (enterFullscreen b s)) = Some w"
proof -
  let ?s1 = "s\<lparr>page := salvageStrayFullscreenNodes (page s)\<rparr>"
  from assms have w: "terminalWrapper (page s) = Some w" "\<not> fullscreen s" "\<not> pageScrollLocked s"
    "fullscreenAncestorPatches ?s1 = None"
    "distinct (chain (dom_size (page ?s1)) (parentElement (page ?s1) w) (page ?s1))"
    by (simp_all add: fullscreen_ready_def Let_def)
  obtain ps pg where p: "patchAncestorsForFullscreen b w ?s1 = ?s1\<lparr>page := pg, fullscreenAncestorPatches := Some ps\<rparr>"
    "patched ?s1 w b ps pg" "same_tree pg (page ?s1)"
    using patchAncestors_patched [OF w(4,5)] by blast
  let ?s2 = "s\<lparr>page := pg, fullscreenAncestorPatches := Some ps\<rparr>"
  have t: "htmlEl pg = htmlEl (page s)" "bodyEl pg = bodyEl (page s)" "terminalWrapper pg = Some w"
    "scrollPos pg = scrollPos (page s)"
    using p(3) w(1) by (simp_all add: same_tree_def)
  have nl: "\<not> pageScrollLocked ?s2" using w(3) by simp
  note l = lock_sel [OF nl, where b = b, simplified]
  have e: "enterFullscreen b s = updateKeyboardInset b ((lockPageScroll b ?s2)\<lparr>page :=
      (clear_wrapper_size (page (lockPageScroll b ?s2)))\<lparr>fullscreenClass := True\<rparr>, fullscreen := True\<rparr>)"
    using w p(1) by (simp add: enterFullscreen_def Let_def)
  show thesis
  proof (rule that [of ps pg])
    show "patched ?s1 w b ps pg" by (rule p(2))
    show "same_tree pg (salvageStrayFullscreenNodes (page s))" using p(3) by simp
  next
    fix x assume "x \<noteq> w"
    then have "terminalWrapper (page (lockPageScroll b ?s2)) \<noteq> Some x" using t(3) l by simp
    then show "style (page (enterFullscreen b s)) x = style (page (lockPageScroll b ?s2)) x"
      unfolding e by (subst keyboard_style) (simp_all add: wrapper_style)
  qed (simp_all add: e l t)
qed

lemma exit_style:
  assumes "fullscreenAncestorPatches t = Some ps" "terminalWrapper (page t) \<noteq> Some e"
  shows "style (page (exitFullscreen b t)) e =
    style (page (unlockPageScroll (t\<lparr>page := restore_patches ps (page t), fullscreenAncestorPatches := None\<rparr>))) e"
  using assms
  by (simp add: exitFullscreen_def Let_def restoreAncestorsAfterFullscreen_def keyboard_style wrapper_style)

lemma body_saved_when_patched:
  assumes "plain_decls d"
  shows "save_all body_lock_props (set_all patch_values d) =
    (''overflow'', Some (Kw ''visible'')) # save_all (tl body_lock_props) d"
proof -
  have o: "set_all patch_values d ''overflow-x'' = Some (Kw ''visible'', True)"
    "set_all patch_values d ''overflow-y'' = Some (Kw ''visible'', True)"
    by (simp_all add: set_all_def patch_values_def setProperty_def shorthand_def)
  have k: "getPropertyValue (set_all patch_values d) p = getPropertyValue d p" if "p \<in> set (tl body_lock_props)" for p
  proof -
    have "set_all patch_values d q = d q" if "q \<in> set (longhands p)" for q
      using that \<open>p \<in> set (tl body_lock_props)\<close>
      by (intro set_all_other) (auto simp: body_lock_props_def patch_values_def longhands_def shorthand_def)
    then show ?thesis by (auto simp: getPropertyValue_def longhands_def split: option.splits)
  qed
  have "save_all body_lock_props e =
      (''overflow'', getPropertyValue e ''overflow'') # save_all (tl body_lock_props) e" for e
    by (simp add: save_all_def body_lock_props_def)
  moreover have "getPropertyValue (set_all patch_values d) ''overflow'' = Some (Kw ''visible'')"
    using o by (simp add: getPropertyValue_def shorthand_def)
  ultimately show ?thesis using k by (simp add: save_all_def)
qed

lemma overflow_longs: "set (longhands ''overflow'') = {''overflow-x'', ''overflow-y''}"
  by (simp add: longhands_def shorthand_def)

lemma body_round_trip:
  assumes "plain_decls d" "list_all (\<lambda>p. uniform p d) body_lock_props"
    and L: "\<And>q. q \<notin> set body_longs \<Longrightarrow> L q = set_all patch_values d q"
  shows "restore_all (save_all body_lock_props (set_all patch_values d)) (restore_all (save_all patch_props d) L)
    = d(''overflow-x'' \<mapsto> (Kw ''visible'', False), ''overflow-y'' \<mapsto> (Kw ''visible'', False))"
proof -
  let ?d1 = "\<lambda>q. if q \<in> set patch_longs then d q else L q"
  let ?t = "tl body_lock_props" and ?tl = "concat (map longhands (tl body_lock_props))"
  have b: "body_lock_props = ''overflow'' # ?t" by (simp add: body_lock_props_def)
  have "list_all (\<lambda>p. uniform p d) ?t" using assms(2) by (subst (asm) b) simp
  note r = restore_uniforms [OF this assms(1)]
  have v: "restore ''overflow'' (Some (Kw ''visible'')) ?d1 =
      ?d1(''overflow-x'' \<mapsto> (Kw ''visible'', False), ''overflow-y'' \<mapsto> (Kw ''visible'', False))"
    by (simp add: restore_def setProperty_def shorthand_def)
  have "restore_all (save_all body_lock_props (set_all patch_values d)) (restore_all (save_all patch_props d) L) =
      restore_all (save_all ?t d) (restore ''overflow'' (Some (Kw ''visible'')) ?d1)"
    unfolding restore_patch [OF assms(1)] body_saved_when_patched [OF assms(1)] by (simp add: restore_all_def)
  also have "\<dots> = (\<lambda>q. if q \<in> set ?tl then d q
      else if q = ''overflow-y'' \<or> q = ''overflow-x'' then Some (Kw ''visible'', False) else ?d1 q)"
    unfolding r v by (auto simp: fun_eq_iff)
  also have "\<dots> = d(''overflow-x'' \<mapsto> (Kw ''visible'', False), ''overflow-y'' \<mapsto> (Kw ''visible'', False))"
  proof
    fix q
    have no: "''overflow-x'' \<notin> set ?tl" "''overflow-y'' \<notin> set ?tl"
      by (simp_all add: body_lock_props_def longhands_def shorthand_def)
    have "set body_longs = {''overflow-x'', ''overflow-y''} \<union> set ?tl"
      by (subst b) (simp only: list.map concat.simps set_append overflow_longs)
    then have Lq: "L q = d q" if "q \<notin> set ?tl" "q \<noteq> ''overflow-x''" "q \<noteq> ''overflow-y''" "q \<notin> set patch_longs"
      using that L [of q] patch_values_other [of q d] by simp
    consider "q = ''overflow-x''" | "q = ''overflow-y''" | "q \<noteq> ''overflow-x''" "q \<noteq> ''overflow-y''" by blast
    then show "(if q \<in> set ?tl then d q
      else if q = ''overflow-y'' \<or> q = ''overflow-x'' then Some (Kw ''visible'', False) else ?d1 q) =
      (d(''overflow-x'' \<mapsto> (Kw ''visible'', False), ''overflow-y'' \<mapsto> (Kw ''visible'', False))) q"
    proof cases
      case 3
      then show ?thesis using Lq by (cases "q \<in> set ?tl"; cases "q \<in> set patch_longs") (simp_all del: set_concat)
    qed (use no in \<open>simp_all del: set_concat\<close>)
  qed
  finally show ?thesis .
qed

text \<open>The style of an element other than the wrapper through a whole round trip: \<open>L\<close> after the scroll lock,
  \<open>U\<close> after the patches are restored.\<close>

lemma exit_enter_trace:
  assumes r: "fullscreen_ready s w" and e: "e \<noteq> w"
  obtains ps pg L U where "patched (s\<lparr>page := salvageStrayFullscreenNodes (page s)\<rparr>) w b ps pg"
    "style (page (exitFullscreen b' (enterFullscreen b s))) e =
      (if e = htmlEl (page s) then restore_all (save_all html_lock_props (style pg (htmlEl (page s)))) U
       else if e = bodyEl (page s) then restore_all (save_all body_lock_props (style pg (bodyEl (page s)))) U else U)"
    "U = (case map_of ps e of None \<Rightarrow> L | Some vs \<Rightarrow> restore_all vs L)"
    "\<And>q. e = htmlEl (page s) \<Longrightarrow> q \<notin> set html_longs \<Longrightarrow> L q = style pg e q"
    "\<And>q. e = bodyEl (page s) \<Longrightarrow> q \<notin> set body_longs \<Longrightarrow> L q = style pg e q"
    "e \<noteq> htmlEl (page s) \<Longrightarrow> e \<noteq> bodyEl (page s) \<Longrightarrow> L = style pg e"
proof -
  let ?t = "enterFullscreen b s" and ?html = "htmlEl (page s)" and ?body = "bodyEl (page s)"
  from enter_steps [OF r, of b] obtain ps pg where p: "patched (s\<lparr>page := salvageStrayFullscreenNodes (page s)\<rparr>) w b ps pg"
    "same_tree pg (salvageStrayFullscreenNodes (page s))"
    and t: "fullscreenAncestorPatches ?t = Some ps"
      "style (page ?t) e = style (page (lockPageScroll b (s\<lparr>page := pg, fullscreenAncestorPatches := Some ps\<rparr>))) e"
      "pageScrollLocked ?t" "scrollLockStyles ?t = Some (save_all html_lock_props (style pg ?html),
        save_all body_lock_props (style pg ?body))"
      "htmlEl (page ?t) = ?html" "bodyEl (page ?t) = ?body" "terminalWrapper (page ?t) = Some w"
    using e by metis
  let ?u = "?t\<lparr>page := restore_patches ps (page ?t), fullscreenAncestorPatches := None\<rparr>"
  let ?l = "lockPageScroll b (s\<lparr>page := pg, fullscreenAncestorPatches := Some ps\<rparr>)"
  have ne: "?html \<noteq> ?body" and nl: "\<not> pageScrollLocked (s\<lparr>page := pg, fullscreenAncestorPatches := Some ps\<rparr>)"
    using r by (simp_all add: fullscreen_ready_def lockable_def)
  have pgt: "htmlEl pg = ?html" "bodyEl pg = ?body" using p(2) by (simp_all add: same_tree_def)
  note l = lock_sel [OF nl, where b = b, simplified, unfolded pgt]
  have d: "distinct (map fst ps)" using p(1) unfolding patched_def by simp
  show thesis
  proof (rule that [OF p(1)])
    show "style (page (exitFullscreen b' ?t)) e =
      (if e = ?html then restore_all (save_all html_lock_props (style pg ?html)) (style (page ?u) e)
       else if e = ?body then restore_all (save_all body_lock_props (style pg ?body)) (style (page ?u) e)
       else style (page ?u) e)"
      using exit_style [OF t(1)] unlock_style [of ?u] t e ne by simp
    show "style (page ?u) e = (case map_of ps e of None \<Rightarrow> style (page ?l) e
        | Some vs \<Rightarrow> restore_all vs (style (page ?l) e))"
      using restore_patches_style [OF d] t(2) by (simp split: option.split)
  qed (use l(10) l(11,12) [OF ne] in simp_all)
qed

lemma exit_enter_style:
  assumes r: "fullscreen_ready s w" and e: "e \<noteq> w"
  shows "style (page (exitFullscreen b' (enterFullscreen b s))) e =
    (if e = bodyEl (page s)
     then (style (page s) e)(''overflow-x'' \<mapsto> (Kw ''visible'', False), ''overflow-y'' \<mapsto> (Kw ''visible'', False))
     else style (page s) e)"
proof (rule exit_enter_trace [OF r e, where b = b and b' = b'])
  let ?s1 = "s\<lparr>page := salvageStrayFullscreenNodes (page s)\<rparr>"
  let ?html = "htmlEl (page s)" and ?body = "bodyEl (page s)" and ?st = "style (page s)"
  fix ps pg L U
  assume p: "patched ?s1 w b ps pg"
    and ex: "style (page (exitFullscreen b' (enterFullscreen b s))) e =
      (if e = ?html then restore_all (save_all html_lock_props (style pg ?html)) U
       else if e = ?body then restore_all (save_all body_lock_props (style pg ?body)) U else U)"
    and U: "U = (case map_of ps e of None \<Rightarrow> L | Some vs \<Rightarrow> restore_all vs L)"
    and l: "\<And>q. e = ?html \<Longrightarrow> q \<notin> set html_longs \<Longrightarrow> L q = style pg e q"
      "\<And>q. e = ?body \<Longrightarrow> q \<notin> set body_longs \<Longrightarrow> L q = style pg e q"
      "e \<noteq> ?html \<Longrightarrow> e \<noteq> ?body \<Longrightarrow> L = style pg e"
  from r have ne: "?html \<noteq> ?body" and plain: "plain_decls (?st x)"
    and lk: "list_all (\<lambda>p. uniform p (?st ?html)) html_lock_props" "list_all (\<lambda>p. uniform p (?st ?body)) body_lock_props" for x
    unfolding fullscreen_ready_def lockable_def by blast+
  from p have mp: "\<And>x vs. map_of ps x = Some vs \<Longrightarrow> vs = save_all patch_props (?st x)"
    and other: "\<And>x q. q \<notin> set patch_longs \<Longrightarrow> style pg x q = ?st x q"
    and unp: "\<And>x. map_of ps x = None \<Longrightarrow> style pg x = ?st x"
    unfolding patched_def map_of_eq_None_iff by simp_all
  have "?body \<in> set (chain (dom_size (page ?s1)) (parentElement (page ?s1) w) (page ?s1))"
    "\<not> isMain (page s) ?html" "\<not> isMain (page s) ?body"
    using r by (simp_all add: fullscreen_ready_def Let_def)
  then have bin: "map_of ps ?body \<noteq> None" "style pg ?body = set_all patch_values (?st ?body)"
    and hin: "map_of ps ?html = None"
    using p chain_not_html [of "page ?s1"] unfolding patched_def map_of_eq_None_iff by auto
  consider "e = ?html" | "e = ?body" | "e \<noteq> ?html" "e \<noteq> ?body" by blast
  then show ?thesis
  proof cases
    case 1
    then show ?thesis
      using ex U hin l(1) ne restore_uniforms [OF lk(1) plain] unp [OF hin] by (simp add: fun_eq_iff del: set_concat)
  next
    case 2
    from bin(1) obtain vs where "map_of ps ?body = Some vs" by auto
    with 2 U mp have "U = restore_all (save_all patch_props (?st ?body)) L" by simp
    with 2 ex ne bin(2) l(2) show ?thesis using body_round_trip [OF plain lk(2), of L] by simp
  next
    case 3
    have "U = ?st e"
    proof (cases "map_of ps e")
      case None
      with U l(3) 3 unp [OF None] show ?thesis by simp
    next
      case (Some vs)
      with U l(3) 3 mp [OF Some] have "U = restore_all (save_all patch_props (?st e)) (style pg e)" by simp
      also have "\<dots> = ?st e" unfolding restore_patch [OF plain] using other by auto
      finally show ?thesis .
    qed
    with 3 ex show ?thesis by simp
  qed
qed

lemma exit_enter_fields:
  assumes "fullscreen_ready s w"
  shows "\<not> fullscreen (exitFullscreen b' (enterFullscreen b s))
    \<and> fullscreenAncestorPatches (exitFullscreen b' (enterFullscreen b s)) = None
    \<and> \<not> pageScrollLocked (exitFullscreen b' (enterFullscreen b s))
    \<and> snd (scrollPos (page (exitFullscreen b' (enterFullscreen b s)))) = snd (scrollPos (page s))"
proof -
  from enter_steps [OF assms, of b] obtain ps where t: "fullscreenAncestorPatches (enterFullscreen b s) = Some ps"
    "pageScrollLocked (enterFullscreen b s)" "scrollLockY (enterFullscreen b s) = snd (scrollPos (page s))"
    by metis
  then show ?thesis
    by (simp add: exitFullscreen_def restoreAncestorsAfterFullscreen_def unlockPageScroll_def Let_def
        split: option.splits prod.splits)
qed

lemma js_round_bounds: "\<bar>of_int (js_round x) - x\<bar> \<le> 1 / 2"
  unfolding js_round_def by linarith

lemma js_round_nonneg: "0 \<le> x \<Longrightarrow> 0 \<le> js_round x"
  unfolding js_round_def by linarith

text \<open>A small page: the document, its body, a main element and the terminal's wrapper.\<close>

definition sample_page :: page where
  "sample_page = \<lparr>parentElement = (\<lambda>_. None)(1 := Some 0, 2 := Some 1, 3 := Some 2), dom_size = 4, style = (\<lambda>_ _. None),
     htmlEl = 0, bodyEl = 1, isMain = (\<lambda>e. e = 2), isShell = (\<lambda>_. False), terminalContainer = None,
     terminalEl = None, terminalWrapper = Some 3, fullscreenClass = False, scrollHandlers = False, scrollPos = (0, 120)\<rparr>"

definition fullscreen_start :: "page \<Rightarrow> fullscreen_state" where
  "fullscreen_start pg = \<lparr>page = pg, fullscreen = False, fullscreenAncestorPatches = None, pageScrollLocked = False,
     scrollLockY = 0, scrollLockStyles = None, keyboardInset = 0, keyboardAnchorTop = 0,
     keyboardViewportHeight = 0, keyboardViewportWidth = 0\<rparr>"

definition sample_browser :: browser where
  "sample_browser = \<lparr>visualViewport = Some \<lparr>vp_width = 400, vp_height = 450, vp_offsetTop = 0\<rparr>, innerWidth = 400,
     innerHeight = 800, clientWidth = 400, clientHeight = 800, positionStatic = (\<lambda>_. False)\<rparr>"

lemma sample_lockable: "lockable (fullscreen_start sample_page)"
  by (simp add: lockable_def fullscreen_start_def sample_page_def plain_decls_def html_lock_props_def
      body_lock_props_def uniform_def shorthand_def)

lemma sample_chain: "chain (dom_size sample_page) (parentElement sample_page 3) sample_page = [2, 1]"
  by (simp add: sample_page_def numeral_eq_Suc)

lemma sample_fullscreen_ready: "fullscreen_ready (fullscreen_start sample_page) 3"
proof -
  have "salvageStrayFullscreenNodes sample_page = sample_page"
    by (simp add: salvageStrayFullscreenNodes_def sample_page_def)
  then show ?thesis
    using sample_lockable sample_chain
    by (simp add: fullscreen_ready_def fullscreen_start_def Let_def) (simp add: sample_page_def plain_decls_def)
qed

section \<open>Claims\<close>



text \<open>The scroll lock alone is undone exactly: locking and then unlocking leaves every inline
  style of the page as it was.\<close>

theorem scroll_lock_round_trip:
  assumes "lockable s" "\<not> pageScrollLocked s"
  shows "style (page (unlockPageScroll (lockPageScroll b s))) = style (page s)"
  using assms by (rule lock_unlock_style)

theorem scroll_lock_round_trip_witness:
  "style (page (unlockPageScroll (lockPageScroll sample_browser (fullscreen_start sample_page)))) = (\<lambda>_ _. None)"
proof -
  have "\<not> pageScrollLocked (fullscreen_start sample_page)" by (simp add: fullscreen_start_def)
  from scroll_lock_round_trip [OF sample_lockable this, of sample_browser] show ?thesis
    by (simp add: fullscreen_start_def sample_page_def)
qed

text \<open>The keyboard inset is sound: it is never negative, it is zero on wide screens and without a
  visual viewport, and on a narrow screen it is the height hidden below the visual viewport,
  measured from the tallest viewport seen, rounded to the nearest pixel.\<close>

theorem keyboard_inset_sound:
  "0 \<le> keyboardInset (updateKeyboardInset b s)
   \<and> (640 \<le> innerWidth b \<or> visualViewport b = None \<longrightarrow> keyboardInset (updateKeyboardInset b s) = 0)
   \<and> (\<forall>v. innerWidth b < 640 \<and> visualViewport b = Some v \<longrightarrow>
        \<bar>keyboardInset (updateKeyboardInset b s)
          - (keyboardViewportHeight (updateKeyboardInset b s) - (vp_height v + vp_offsetTop v))\<bar> \<le> 1 / 2)"
proof -
  have k: "keyboardInset (updateKeyboardInset b s) = keyboardInset (measureKeyboard b s)"
    "keyboardViewportHeight (updateKeyboardInset b s) = keyboardViewportHeight (measureKeyboard b s)"
    by (simp_all add: updateKeyboardInset_def syncFullscreenShellWithKeyboard_def split: option.splits)
  have "\<bar>keyboardInset (measureKeyboard b s) - (keyboardViewportHeight (measureKeyboard b s) - (vp_height v + vp_offsetTop v))\<bar> \<le> 1 / 2"
    if v: "innerWidth b < 640" "visualViewport b = Some v" for v
  proof -
    let ?h = "keyboardViewportHeight (measureKeyboard b s)" and ?b = "vp_height v + vp_offsetTop v"
    have "?b \<le> ?h" using v(2) by (simp add: measureKeyboard_def Let_def) (simp add: max_def)
    then have "keyboardInset (measureKeyboard b s) = js_round (?h - ?b)"
      using v js_round_nonneg [of "?h - ?b"] by (simp add: measureKeyboard_def Let_def)
    with js_round_bounds [of "?h - ?b"] show ?thesis by simp
  qed
  then show ?thesis unfolding k by (auto simp: measureKeyboard_def Let_def)
qed

theorem keyboard_inset_sound_witness:
  "\<bar>keyboardInset (updateKeyboardInset sample_browser (fullscreen_start sample_page)) - (350 :: real)\<bar> \<le> 1 / 2"
proof -
  have "keyboardViewportHeight (updateKeyboardInset sample_browser (fullscreen_start sample_page)) = 800"
    by (simp add: updateKeyboardInset_def syncFullscreenShellWithKeyboard_def measureKeyboard_def Let_def
        sample_browser_def fullscreen_start_def)
  with keyboard_inset_sound [of sample_browser "fullscreen_start sample_page"] show ?thesis
    by (simp add: sample_browser_def)
qed

end
