(* ===== verification/TerminalTheme.thy ===== *)
theory TerminalTheme
  imports TerminalFullscreen
begin

text \<open>
  The colour themes of the terminal component in resources/js/terminal.js: the palettes, the
  accent derived from the user's colour, the choice and persistence of a theme and its
  application to the terminal. An object of colours is an association list whose first entry for
  a key counts, so a spread puts the later object in front.
\<close>

section \<open>Palettes\<close>

type_synonym theme = "(string \<times> string) list"

definition baseApplicationTerminalTheme :: "(string \<times> string) list" where
  "baseApplicationTerminalTheme =
     [(''black'', ''#675f70''), (''red'', ''#ef7272''), (''green'', ''#7bd88f''),
      (''yellow'', ''#e7bd68''), (''blue'', ''#85aacb''), (''magenta'', ''#c792ea''),
      (''cyan'', ''#72d5d0''), (''white'', ''#d8d2df''), (''brightBlack'', ''#8a8292''),
      (''brightRed'', ''#ff9b9b''), (''brightGreen'', ''#a5e7b2''),
      (''brightYellow'', ''#f2d596''), (''brightBlue'', ''#b0c8df''),
      (''brightMagenta'', ''#ddb3f4''), (''brightCyan'', ''#a7e8e4''),
      (''brightWhite'', ''#ffffff''), (''foreground'', ''#eee9f2''),
      (''background'', ''#00000000''), (''overviewRulerBorder'', ''#00000000'')]"

definition createApplicationTerminalTheme :: "string \<Rightarrow> theme \<Rightarrow> theme" where
  "createApplicationTerminalTheme accent colors =
     colors @ [(''cursor'', accent), (''cursorAccent'', ''#101012''), (''selectionBackground'', accent @ ''66'')]
       @ baseApplicationTerminalTheme"

text \<open>\<open>/^#[0-9a-f]{6}$/i\<close>\<close>

definition is_hex :: "char \<Rightarrow> bool" where
  "is_hex c \<longleftrightarrow> is_digit c \<or> (65 \<le> code c \<and> code c \<le> 70) \<or> (97 \<le> code c \<and> code c \<le> 102)"

definition is_hex_color :: "string \<Rightarrow> bool" where
  "is_hex_color c \<longleftrightarrow> length c = 7 \<and> hd c = CHR ''#'' \<and> list_all is_hex (tl c)"

definition hex_value :: "char \<Rightarrow> nat" where
  "hex_value c =
     (if is_digit c then code c - 48 else if 97 \<le> code c then code c - 87 else code c - 55)"

definition hex_char :: "nat \<Rightarrow> char" where
  "hex_char n = char_of (if n < 10 then n + 48 else n + 87)"

text \<open>\<open>channel.toString(16).padStart(2, '0')\<close> for a channel below 256.\<close>

definition hex2 :: "nat \<Rightarrow> string" where
  "hex2 n = [hex_char (n div 16), hex_char (n mod 16)]"

definition lighten :: "nat \<Rightarrow> nat" where
  "lighten n = nat (js_round (of_nat n * (85 / 100) + 255 * (15 / 100)))"

fun channel_pairs :: "string \<Rightarrow> nat list" where
  "channel_pairs (a # b # cs) = (16 * hex_value a + hex_value b) # channel_pairs cs"
| "channel_pairs _ = []"

definition customThemeAccent :: "string option \<Rightarrow> string" where
  "customThemeAccent themeColor =
     (let color = (if truthy themeColor then the themeColor else ''#6b16ed'') in
      if \<not> is_hex_color color then ''#7c3aed''
      else CHR ''#'' # concat (map (hex2 \<circ> lighten) (channel_pairs (tl color))))"

definition lightColors :: "(string \<times> string) list" where
  "lightColors =
     [(''black'', ''#18181b''), (''red'', ''#dc2626''), (''green'', ''#15803d''),
      (''yellow'', ''#a16207''), (''blue'', ''#2563eb''), (''magenta'', ''#9333ea''),
      (''cyan'', ''#0e7490''), (''white'', ''#52525b''), (''brightBlack'', ''#71717a''),
      (''brightWhite'', ''#18181b''), (''foreground'', ''#18181b'')]"

text \<open>The document's theme attribute, dark class and the stored colour decide the system theme.\<close>

record scheme =
  datasetTheme :: "string option"
  darkClass :: bool

type_synonym storage = "string \<Rightarrow> string option"

definition createSystemTerminalTheme :: "scheme \<Rightarrow> storage \<Rightarrow> theme" where
  "createSystemTerminalTheme c storage =
     (if datasetTheme c = Some ''custom''
      then createApplicationTerminalTheme (customThemeAccent (storage ''themeColor'')) []
      else if darkClass c then createApplicationTerminalTheme ''#8C8E9C'' []
      else createApplicationTerminalTheme ''#52525b'' lightColors)"

definition fixedThemes :: "(string \<times> theme) list" where
  "fixedThemes =
     [(''shadows-midnight'', createApplicationTerminalTheme ''#6d7a7c''
        [(''blue'', ''#7392ad''), (''cyan'', ''#7fa3a6''), (''brightBlue'', ''#9bb4c9''),
         (''brightCyan'', ''#a8c4c6'')]),
      (''shadows-golden-hour'', createApplicationTerminalTheme ''#bf8c3c''
        [(''yellow'', ''#d9a759''), (''red'', ''#df7756''), (''brightYellow'', ''#edc987''),
         (''brightRed'', ''#efa086'')]),
      (''shadows-cosmic-purple'', createApplicationTerminalTheme ''#A76DBE''
        [(''blue'', ''#8f86d9''), (''magenta'', ''#c58ad8''), (''brightBlue'', ''#b1a9ed''),
         (''brightMagenta'', ''#ddb0e9'')]),
      (''shadows-neon-glow'', createApplicationTerminalTheme ''#DB425A''
        [(''red'', ''#ed5d72''), (''magenta'', ''#f35fc2''), (''brightRed'', ''#ff8c9d''),
         (''brightMagenta'', ''#ff93d7'')]),
      (''shadows-icy-mist'', createApplicationTerminalTheme ''#93b7c4''
        [(''blue'', ''#8fb7d0''), (''cyan'', ''#9acbd0''), (''brightBlue'', ''#b9d5e5''),
         (''brightCyan'', ''#c0e3e5'')]),
      (''shadows-tropical-storm'', createApplicationTerminalTheme ''#1fa771''
        [(''green'', ''#45c98b''), (''cyan'', ''#4ec7ad''), (''brightGreen'', ''#7de0ad''),
         (''brightCyan'', ''#80dfcc'')]),
      (''shadows-golden-nebula'', createApplicationTerminalTheme ''#d4a20e''
        [(''yellow'', ''#e5bb35''), (''red'', ''#ee755f''), (''blue'', ''#718fc1''),
         (''brightYellow'', ''#f4d375'')]),
      (''shadows-cosmic-lagoon'', createApplicationTerminalTheme ''#00b5b8''
        [(''blue'', ''#668de0''), (''magenta'', ''#ba6ad0''), (''cyan'', ''#38c6c8''),
         (''brightCyan'', ''#76e0e2'')]),
      (''shadows-neon-nebula'', createApplicationTerminalTheme ''#ff55aa''
        [(''blue'', ''#6f91dd''), (''magenta'', ''#ff72c1''), (''cyan'', ''#51d5d5''),
         (''brightMagenta'', ''#ffa1d4'')]),
      (''shadows-transparent'', createApplicationTerminalTheme ''#8C8E9C''
        [])]"

text \<open>\<open>applicationTerminalThemes[name]\<close>: an own entry, or what every object inherits, whose spread
  is empty.\<close>

definition object_prototype :: "string list" where
  "object_prototype =
     [''constructor'', ''toString'', ''hasOwnProperty'', ''isPrototypeOf'', ''propertyIsEnumerable'',
      ''toLocaleString'', ''valueOf'', ''__proto__'', ''__defineGetter__'', ''__defineSetter__'',
      ''__lookupGetter__'', ''__lookupSetter__'']"

definition applicationTerminalThemes :: "theme \<Rightarrow> string \<Rightarrow> theme option" where
  "applicationTerminalThemes sysTheme name =
     (if name = ''system'' then Some sysTheme
      else if name \<in> set object_prototype then Some []
      else map_of fixedThemes name)"

section \<open>Choosing a theme\<close>

text \<open>The theme state: the cached system theme, the selection, local storage, and of the terminal
  its theme, its cursor blink and the pending animation frames, each with the blink to restore.\<close>

record theme_state =
  systemTheme :: theme
  selectedTheme :: string
  localStorage :: storage
  hasTerm :: bool
  termTheme :: "theme option"
  cursorBlink :: bool
  frames :: "bool list"

definition initial_theme :: "theme \<Rightarrow> storage \<Rightarrow> string" where
  "initial_theme sysTheme storage =
     (case storage ''coolify-console-theme'' of
        Some n \<Rightarrow> if applicationTerminalThemes sysTheme n \<noteq> None then n else ''system''
      | None \<Rightarrow> ''system'')"

text \<open>\<open>setupTerminal\<close>: an application console starts with the selected theme and a blinking cursor.\<close>

definition theme_start :: "scheme \<Rightarrow> storage \<Rightarrow> bool \<Rightarrow> theme_state" where
  "theme_start c storage isApplicationConsole =
     (let sys = createSystemTerminalTheme c storage; n = initial_theme sys storage
      in \<lparr>systemTheme = sys, selectedTheme = n, localStorage = storage, hasTerm = True,
          termTheme = (if isApplicationConsole
             then Some (case applicationTerminalThemes sys n of Some t \<Rightarrow> t | None \<Rightarrow> sys) else None),
          cursorBlink = True, frames = []\<rparr>)"

definition setTerminalTheme :: "scheme \<Rightarrow> string \<Rightarrow> theme_state \<Rightarrow> theme_state" where
  "setTerminalTheme c themeName s0 =
     (if applicationTerminalThemes (systemTheme s0) themeName = None then s0
      else
        (let s = (if themeName = ''system''
                  then s0\<lparr>systemTheme := createSystemTerminalTheme c (localStorage s0)\<rparr> else s0);
             s' = s\<lparr>selectedTheme := themeName,
                    localStorage := (localStorage s)(''coolify-console-theme'' \<mapsto> themeName)\<rparr>
         in if hasTerm s'
            then s'\<lparr>frames := frames s' @ [cursorBlink s'], cursorBlink := False,
                    termTheme := applicationTerminalThemes (systemTheme s') themeName\<rparr>
            else s'))"

text \<open>An animation frame runs every callback that was waiting for it.\<close>

definition animation_frame :: "theme_state \<Rightarrow> theme_state" where
  "animation_frame s =
     (if hasTerm s then s\<lparr>cursorBlink := (if frames s = [] then cursorBlink s else last (frames s)), frames := []\<rparr>
      else s\<lparr>frames := []\<rparr>)"

text \<open>The observer of the document's attributes.\<close>

definition on_document_theme :: "scheme \<Rightarrow> theme_state \<Rightarrow> theme_state" where
  "on_document_theme c s =
     (if selectedTheme s = ''system''
      then setTerminalTheme c ''system'' (s\<lparr>systemTheme := createSystemTerminalTheme c (localStorage s)\<rparr>)
      else s)"

datatype theme_event = PickTheme scheme string | DocumentTheme scheme | Frame

fun theme_step :: "theme_state \<Rightarrow> theme_event \<Rightarrow> theme_state" where
  "theme_step s (PickTheme c n) = setTerminalTheme c n s"
| "theme_step s (DocumentTheme c) = on_document_theme c s"
| "theme_step s Frame = animation_frame s"

section \<open>Lemmas\<close>

lemma hex_value_bound: "is_hex c \<Longrightarrow> hex_value c < 16"
  by (auto simp: is_hex_def is_digit_def hex_value_def)

lemma hex_char_hex: "n < 16 \<Longrightarrow> is_hex (hex_char n)"
  by (simp add: is_hex_def is_digit_def hex_char_def code_char_of)

lemma lighten_bound: "n < 256 \<Longrightarrow> lighten n < 256"
  unfolding lighten_def js_round_def by (simp add: nat_less_iff floor_less_iff)

lemma lighten_range: "n < 256 \<Longrightarrow> n \<le> lighten n"
  unfolding lighten_def js_round_def by (simp add: le_nat_iff le_floor_iff)

lemma channel_pairs_bound: "list_all is_hex cs \<Longrightarrow> list_all (\<lambda>n. n < 256) (channel_pairs cs)"
proof (induction cs rule: channel_pairs.induct)
  case (1 a b cs)
  then show ?case using hex_value_bound [of a] hex_value_bound [of b] by simp
qed simp_all

lemma length_channel_pairs: "length (channel_pairs cs) = length cs div 2"
  by (induction cs rule: channel_pairs.induct) auto

lemma hex2_list:
  "list_all (\<lambda>n. n < 256) ns \<Longrightarrow>
   list_all is_hex (concat (map (hex2 \<circ> lighten) ns)) \<and> length (concat (map (hex2 \<circ> lighten) ns)) = 2 * length ns"
proof (induction ns)
  case (Cons n ns)
  then show ?case using lighten_bound [of n] by (simp add: hex2_def hex_char_hex)
qed simp

lemma accent_hex: "is_hex_color (customThemeAccent c)"
proof (cases "is_hex_color (if truthy c then the c else ''#6b16ed'')")
  case True
  let ?ns = "channel_pairs (tl (if truthy c then the c else ''#6b16ed''))"
  have "list_all (\<lambda>n. n < 256) ?ns" using True channel_pairs_bound by (simp only: is_hex_color_def)
  moreover have "length ?ns = 3" using True by (simp add: is_hex_color_def length_channel_pairs)
  ultimately show ?thesis
    using True hex2_list [of ?ns] by (simp add: customThemeAccent_def Let_def is_hex_color_def)
next
  case False
  then show ?thesis
    by (simp add: customThemeAccent_def Let_def is_hex_color_def is_hex_def is_digit_def code_def)
qed

text \<open>A colour of a palette: \<open>#rrggbb\<close> or \<open>#rrggbbaa\<close>.\<close>

definition is_color :: "string \<Rightarrow> bool" where
  "is_color c \<longleftrightarrow> (length c = 7 \<or> length c = 9) \<and> hd c = CHR ''#'' \<and> list_all is_hex (tl c)"

definition palette_keys :: "string list" where
  "palette_keys = map fst baseApplicationTerminalTheme @ [''cursor'', ''cursorAccent'', ''selectionBackground'']"

definition complete :: "theme \<Rightarrow> bool" where
  "complete t \<longleftrightarrow> list_all (\<lambda>k. case map_of t k of None \<Rightarrow> False | Some c \<Rightarrow> is_color c) palette_keys"

lemmas hex_eval = is_color_def is_hex_def is_digit_def code_def

lemma base_colors: "list_all (\<lambda>p. is_color (snd p)) baseApplicationTerminalTheme"
  by (simp add: baseApplicationTerminalTheme_def hex_eval)

lemma complete_created:
  assumes "is_hex_color a" "list_all (\<lambda>p. is_color (snd p)) cs"
  shows "complete (createApplicationTerminalTheme a cs)"
proof -
  let ?t = "createApplicationTerminalTheme a cs"
  have "is_color a" "is_color (a @ ''66'')"
    using assms(1) by (auto simp: is_hex_color_def is_color_def is_hex_def is_digit_def code_def neq_Nil_conv numeral_eq_Suc length_Suc_conv)
  moreover have "is_color ''#101012''" by (simp add: hex_eval)
  ultimately have all: "list_all (\<lambda>p. is_color (snd p)) ?t"
    using assms(2) base_colors by (simp add: createApplicationTerminalTheme_def)
  have "set palette_keys \<subseteq> fst ` set ?t"
    by (simp add: palette_keys_def createApplicationTerminalTheme_def image_Un) blast
  then have "map_of ?t k \<noteq> None" if "k \<in> set palette_keys" for k
    using that by (auto simp: map_of_eq_None_iff)
  moreover have "map_of ?t k = Some c \<Longrightarrow> is_color c" for k c
    using all by (fastforce simp: list_all_iff dest: map_of_SomeD)
  ultimately show ?thesis by (fastforce simp: complete_def list_all_iff split: option.split)
qed

lemma light_colors: "list_all (\<lambda>p. is_color (snd p)) lightColors"
  by (simp add: lightColors_def hex_eval)

lemma complete_system: "complete (createSystemTerminalTheme c st)"
proof -
  have "is_hex_color ''#8C8E9C''" "is_hex_color ''#52525b''"
    by (simp_all add: is_hex_color_def is_hex_def is_digit_def code_def)
  then show ?thesis
    using complete_created accent_hex light_colors by (simp add: createSystemTerminalTheme_def)
qed

lemma complete_fixed: "list_all (\<lambda>(n, t). complete t) fixedThemes"
  unfolding fixedThemes_def
  by (simp only: list.pred_inject prod.case) (intro conjI TrueI complete_created; simp add: is_hex_color_def hex_eval)

section \<open>The theme state\<close>

definition theme_inv :: "theme_state \<Rightarrow> bool" where
  "theme_inv s \<longleftrightarrow>
     complete (systemTheme s)
     \<and> applicationTerminalThemes (systemTheme s) (selectedTheme s) \<noteq> None"

lemma known_any_system: "applicationTerminalThemes t n \<noteq> None \<Longrightarrow> applicationTerminalThemes u n \<noteq> None"
  by (simp add: applicationTerminalThemes_def split: if_splits)

lemma setTheme_inv: "theme_inv s \<Longrightarrow> theme_inv (setTerminalTheme c n s)"
  using known_any_system
  by (auto simp: theme_inv_def setTerminalTheme_def Let_def complete_system simp del: not_None_eq)

lemma theme_inv_step: "theme_inv s \<Longrightarrow> theme_inv (theme_step s e)"
proof (cases e)
  case (DocumentTheme c)
  assume inv: "theme_inv s"
  then have "theme_inv (s\<lparr>systemTheme := createSystemTerminalTheme c (localStorage s)\<rparr>)"
    using known_any_system [of "systemTheme s" "selectedTheme s"]
    by (simp add: theme_inv_def complete_system del: not_None_eq)
  with inv DocumentTheme show ?thesis by (simp add: on_document_theme_def setTheme_inv)
next
  case (PickTheme c n)
  assume "theme_inv s"
  with PickTheme show ?thesis by (simp add: setTheme_inv)
qed (simp add: theme_inv_def animation_frame_def)

lemma theme_inv_start: "theme_inv (theme_start c st a)"
proof -
  have "applicationTerminalThemes t (initial_theme t st) \<noteq> None" for t
    by (auto simp: initial_theme_def applicationTerminalThemes_def split: option.splits)
  then show ?thesis by (simp add: theme_inv_def theme_start_def Let_def complete_system)
qed

interpretation themes: event_machine "\<lambda>s. \<exists>c st a. s = theme_start c st a" "\<lambda>_ _. True" theme_step theme_inv
  by unfold_locales (auto simp: theme_inv_start theme_inv_step)

text \<open>Picking themes one after the other before the next animation frame.\<close>

lemma picks_blink:
  assumes "\<And>n. n \<in> set ns \<Longrightarrow> applicationTerminalThemes (systemTheme s) n \<noteq> None" "hasTerm s" "ns \<noteq> []"
  shows "frames (fold (setTerminalTheme c) ns s) = frames s @ cursorBlink s # replicate (length ns - 1) False
    \<and> hasTerm (fold (setTerminalTheme c) ns s) \<and> \<not> cursorBlink (fold (setTerminalTheme c) ns s)"
  using assms
proof (induction ns arbitrary: s)
  case (Cons n ns)
  let ?t = "setTerminalTheme c n s"
  have t: "frames ?t = frames s @ [cursorBlink s]" "hasTerm ?t" "\<not> cursorBlink ?t"
    using Cons.prems(1) [of n] Cons.prems(2) by (auto simp: setTerminalTheme_def Let_def)
  show ?case
  proof (cases "ns = []")
    case False
    have "applicationTerminalThemes (systemTheme ?t) m \<noteq> None" if "m \<in> set ns" for m
      using Cons.prems(1) [of m] that known_any_system by auto
    from Cons.IH [OF this t(2) False] t False show ?thesis
      by (cases ns) auto
  qed (use t in simp)
qed simp

section \<open>Claims\<close>

text \<open>The custom accent is always a colour. Whatever is stored as the user's colour, the accent is
  a hash and six hexadecimal digits, and for a stored colour no channel gets darker or leaves the
  range of a byte.\<close>

theorem customThemeAccent_is_color:
  "is_hex_color (customThemeAccent stored)
   \<and> list_all (\<lambda>n. n \<le> lighten n \<and> lighten n < 256) [0..<256]"
  using accent_hex lighten_range lighten_bound by (auto simp: list_all_iff)


text \<open>Only one theme change may happen per frame. When several known themes are picked before the
  next animation frame, the frame leaves the cursor blinking only if a single one was picked: a second
  pick saves the blink that the first one had switched off.\<close>

theorem theme_changes_blink:
  assumes "list_all (\<lambda>n. applicationTerminalThemes (systemTheme s) n \<noteq> None) ns"
    and "hasTerm s" "frames s = []" "ns \<noteq> []"
  shows "cursorBlink (animation_frame (fold (setTerminalTheme c) ns s)) \<longleftrightarrow> cursorBlink s \<and> length ns = 1"
proof -
  from assms have "frames (fold (setTerminalTheme c) ns s) = cursorBlink s # replicate (length ns - 1) False"
    "hasTerm (fold (setTerminalTheme c) ns s)"
    using picks_blink [of ns s c] by (simp_all add: list_all_iff)
  then show ?thesis using assms(4) by (cases ns) (auto simp: animation_frame_def)
qed

theorem theme_changes_blink_witness:
  "\<not> cursorBlink (animation_frame (fold (setTerminalTheme \<lparr>datasetTheme = None, darkClass = True\<rparr>) [''system'', ''system'']
       (theme_start \<lparr>datasetTheme = None, darkClass = True\<rparr> (\<lambda>_. None) True)))"
proof -
  let ?c = "\<lparr>datasetTheme = None, darkClass = True\<rparr> :: scheme"
  let ?s = "theme_start ?c (\<lambda>_. None) True"
  have "list_all (\<lambda>n. applicationTerminalThemes (systemTheme ?s) n \<noteq> None) [''system'', ''system'']"
    "hasTerm ?s" "frames ?s = []" "[''system'', ''system''] \<noteq> []"
    by (simp_all add: applicationTerminalThemes_def theme_start_def Let_def)
  from theme_changes_blink [OF this, of ?c] show ?thesis by simp
qed

end
