(* ===== verification/TerminalClient.thy ===== *)
theory TerminalClient
  imports TerminalConnection TerminalTheme
begin

text \<open>
  The terminal component of the browser, \<open>terminalData\<close> in resources/js/terminal.js: its fields as
  a record that extends the host record of the session-start methods (the spread of
  terminal-connection.js), its methods as functions on that record, and its callbacks (socket
  events, timers, Livewire and document events) as the steps of a state machine. What the browser
  reports while a callback runs is the record \<open>env\<close>; what the component does to the outside is
  appended to \<open>fx\<close>. Callbacks of \<open>$nextTick\<close> wait in \<open>ticks\<close>. Logging is left out.
\<close>

section \<open>State\<close>

datatype ready_state = WsConnecting | WsOpen | WsClosing | WsClosed

text \<open>The states in the order of their numbers, in which a socket passes through them.\<close>

definition ready_number :: "ready_state \<Rightarrow> nat" where
  "ready_number r = (case r of WsConnecting \<Rightarrow> 0 | WsOpen \<Rightarrow> 1 | WsClosing \<Rightarrow> 2 | WsClosed \<Rightarrow> 3)"

instantiation ready_state :: linorder
begin

definition less_eq_ready_state :: "ready_state \<Rightarrow> ready_state \<Rightarrow> bool" where
  "less_eq_ready_state r q \<longleftrightarrow> ready_number r \<le> ready_number q"

definition less_ready_state :: "ready_state \<Rightarrow> ready_state \<Rightarrow> bool" where
  "less_ready_state r q \<longleftrightarrow> ready_number r < ready_number q"

instance
  by standard (auto simp: less_eq_ready_state_def less_ready_state_def ready_number_def split: ready_state.splits)

end

lemma ready_order [simp]:
  "WsConnecting \<le> r" "r \<le> WsClosed" "WsOpen \<le> WsClosing" "WsClosed \<le> r \<longleftrightarrow> r = WsClosed"
  "r \<le> WsConnecting \<longleftrightarrow> r = WsConnecting" "r \<le> WsClosing \<longleftrightarrow> r \<noteq> WsClosed" "r \<le> WsOpen \<longleftrightarrow> r = WsConnecting \<or> r = WsOpen"
  by (cases r; simp add: less_eq_ready_state_def ready_number_def)+

datatype connection_state = CsConnecting | CsConnected | CsDisconnected | CsReconnecting

record term_state =
  term_initialized :: bool
  term_cols :: nat
  term_rows :: nat

datatype tick = TickResize | TickResizeFocus | TickScheduleResize | TickWatch bool | TickSalvage

record client = host +
  fs :: fullscreen_state
  look :: theme_state
  message :: string
  "term" :: "term_state option"
  socket :: "nat option"
  readyState :: "nat \<Rightarrow> ready_state"
  nextSocket :: nat
  commandBuffer :: string
  pendingWrites :: nat
  paused :: bool
  keepAliveInterval :: "nat option"
  reconnectInterval :: "nat option"
  connectionTimeoutId :: "nat option"
  pingTimeoutId :: "nat option"
  resizeTimeout :: "nat option"
  keyboardInsetSettleTimeout :: "nat option"
  terminalSessionCountdownInterval :: "nat option"
  connectionState :: connection_state
  reconnectAttempts :: nat
  lastPingTime :: "nat option"
  heartbeatMissed :: nat
  isDocumentVisible :: bool
  wasConnectedBeforeHidden :: bool
  mobileToolbarCollapsed :: bool
  terminalModifier :: "string option"
  resizeObserver :: bool
  observing :: bool
  watchedActive :: bool
  terminalSessionStartedAt :: "nat option"
  terminalSessionRemainingSeconds :: "real option"
  ticks :: "tick list"

definition MAX_PENDING_WRITES :: nat where "MAX_PENDING_WRITES = 5"
definition maxReconnectAttempts :: nat where "maxReconnectAttempts = 10"
definition baseReconnectDelay :: nat where "baseReconnectDelay = 1000"
definition maxReconnectDelay :: nat where "maxReconnectDelay = 30000"
definition connectionTimeout :: nat where "connectionTimeout = 10000"
definition pingTimeout :: nat where "pingTimeout = 35000"
definition maxHeartbeatMisses :: nat where "maxHeartbeatMisses = 3"

text \<open>The page's address and \<open>window.terminalConfig\<close>.\<close>

record location =
  https :: bool
  hostname :: string
  loc_port :: string
  config_host :: "string option"
  config_port :: "string option"
  config_protocol :: "string option"

record env =
  now :: nat
  random1000 :: real
  socketThrows :: bool
  hidden :: bool
  writeThrows :: bool
  terminalHost :: "(nat \<times> nat) option"
  fitted :: "nat \<times> nat"
  applicationStyle :: bool
  window :: browser
  address :: location

text \<open>What the component reports of itself for debugging.\<close>

record connection_status =
  status_state :: connection_state
  status_readyState :: "ready_state option"
  status_attempts :: nat
  status_pendingWrites :: nat
  status_paused :: bool
  status_lastPingTime :: "nat option"
  status_heartbeatMissed :: nat

definition getConnectionStatus :: "client \<Rightarrow> connection_status" where
  "getConnectionStatus s =
     \<lparr>status_state = connectionState s, status_readyState = map_option (readyState s) (socket s),
      status_attempts = reconnectAttempts s, status_pendingWrites = pendingWrites s, status_paused = paused s,
      status_lastPingTime = lastPingTime s, status_heartbeatMissed = heartbeatMissed s\<rparr>"

text \<open>Arming a timer and remembering its id in a field.\<close>

definition arm :: "client_timer \<Rightarrow> (nat option \<Rightarrow> client \<Rightarrow> client) \<Rightarrow> client \<Rightarrow> client" where
  "arm k store s = (let (i, t) = set_timer k (timers s) in store (Some i) (s\<lparr>timers := t\<rparr>))"

definition disarm :: "nat option \<Rightarrow> client \<Rightarrow> client" where
  "disarm h s = s\<lparr>timers := clear_opt h (timers s)\<rparr>"

definition later :: "tick \<Rightarrow> client \<Rightarrow> client" where
  "later k s = s\<lparr>ticks := ticks s @ [k]\<rparr>"

definition once :: "client_timer \<Rightarrow> client \<Rightarrow> client" where
  "once k = arm k (\<lambda>_ s. s)"

section \<open>The socket\<close>

definition url :: "location \<Rightarrow> string" where
  "url l =
     (let protocol = (if truthy (config_protocol l) then the (config_protocol l) else if https l then ''wss'' else ''ws'');
          host = (if truthy (config_host l) then the (config_host l) else hostname l);
          port = (if truthy (config_port l) then CHR '':'' # the (config_port l)
                  else if loc_port l = [] then [] else '':6002'')
      in protocol @ ''://'' @ host @ port @ ''/terminal/ws'')"

definition socketIs :: "ready_state \<Rightarrow> client \<Rightarrow> bool" where
  "socketIs r s \<longleftrightarrow> (case socket s of None \<Rightarrow> False | Some i \<Rightarrow> readyState s i = r)"

text \<open>\<open>this.socket && this.socket.readyState !== WebSocket.CLOSED\<close>\<close>

definition socketLive :: "client \<Rightarrow> bool" where
  "socketLive s \<longleftrightarrow> (case socket s of None \<Rightarrow> False | Some i \<Rightarrow> readyState s i \<noteq> WsClosed)"

text \<open>\<open>this.socket.close(...)\<close>: a socket that is not yet closing starts to.\<close>

definition closeSocket :: "(nat \<times> string) option \<Rightarrow> client \<Rightarrow> client" where
  "closeSocket why s =
     (case socket s of
        None \<Rightarrow> s
      | Some i \<Rightarrow>
          if readyState s i = WsClosing \<or> readyState s i = WsClosed then s
          else effect [CloseSocket i why] (s\<lparr>readyState := (readyState s)(i := WsClosing)\<rparr>))"

definition sendMessage :: "json \<Rightarrow> client \<Rightarrow> client" where
  "sendMessage m s =
     (case socket s of
        Some i \<Rightarrow> if readyState s i = WsOpen then effect [Send i m] s else s
      | None \<Rightarrow> s)"

definition obj :: "string \<Rightarrow> json \<Rightarrow> json" where
  "obj k v = JObj [(k, v)]"

definition isWebSocketReady :: "client \<Rightarrow> bool" where
  "isWebSocketReady s \<longleftrightarrow> connectionState s = CsConnected \<and> socketIs WsOpen s"

definition sendCommandWhenReady :: "json \<Rightarrow> client \<Rightarrow> client" where
  "sendCommandWhenReady m s = (if isWebSocketReady s then sendMessage m s else s\<lparr>pendingCommand := Some m\<rparr>)"

definition checkIfProcessIsRunningAndKillIt :: "client \<Rightarrow> client" where
  "checkIfProcessIsRunningAndKillIt = sendMessage (obj ''checkActive'' (JStr ''force''))"

section \<open>Timers and the countdown\<close>

definition clearAllTimers :: "client \<Rightarrow> client" where
  "clearAllTimers s =
     (disarm (terminalSessionCountdownInterval s) (disarm (resizeTimeout s) (disarm (pingTimeoutId s)
       (disarm (connectionTimeoutId s) (disarm (reconnectInterval s) (disarm (keepAliveInterval s) s))))))
     \<lparr>keepAliveInterval := None, reconnectInterval := None, connectionTimeoutId := None, pingTimeoutId := None,
      resizeTimeout := None, terminalSessionCountdownInterval := None\<rparr>"

definition resetTerminalSessionCountdown :: "client \<Rightarrow> client" where
  "resetTerminalSessionCountdown s =
     (disarm (terminalSessionCountdownInterval s) s)
     \<lparr>terminalSessionStartedAt := None, terminalSessionRemainingSeconds := None,
      terminalSessionCountdownInterval := None\<rparr>"

definition updateTerminalSessionCountdown :: "env \<Rightarrow> client \<Rightarrow> client" where
  "updateTerminalSessionCountdown v s =
     (case terminalSessionStartedAt s of
        None \<Rightarrow> s\<lparr>terminalSessionRemainingSeconds := None\<rparr>
      | Some t \<Rightarrow>
          if t = 0 then s\<lparr>terminalSessionRemainingSeconds := None\<rparr>
          else s\<lparr>terminalSessionRemainingSeconds :=
                   Some (max 0 (of_nat MAX_TERMINAL_SESSION_SECONDS - (real (now v) - real t) / 1000))\<rparr>)"

definition startTerminalSessionCountdown :: "env \<Rightarrow> client \<Rightarrow> client" where
  "startTerminalSessionCountdown v s =
     arm TCountdown (\<lambda>i s. s\<lparr>terminalSessionCountdownInterval := i\<rparr>)
       (updateTerminalSessionCountdown v
         ((resetTerminalSessionCountdown s)\<lparr>terminalSessionStartedAt := Some (now v)\<rparr>))"

definition terminalSessionRemainingLabel :: "client \<Rightarrow> string" where
  "terminalSessionRemainingLabel s =
     (case terminalSessionRemainingSeconds s of
        None \<Rightarrow> []
      | Some r \<Rightarrow> ''Session expires in '' @ formatTerminalSessionRemainingTime r)"

definition terminalSessionTimerClass :: "client \<Rightarrow> string" where
  "terminalSessionTimerClass s =
     (case terminalSessionRemainingSeconds s of
        None \<Rightarrow> ''text-neutral-300 bg-black/70 border-white/10''
      | Some r \<Rightarrow>
          if r \<le> of_nat TERMINAL_SESSION_DANGER_SECONDS then ''text-red-200 bg-red-950/80 border-red-500/40''
          else if r \<le> of_nat TERMINAL_SESSION_WARNING_SECONDS
          then ''text-yellow-200 bg-yellow-950/80 border-yellow-500/40''
          else ''text-neutral-300 bg-black/70 border-white/10'')"

section \<open>Size and fullscreen\<close>

definition resizeTerminal :: "env \<Rightarrow> client \<Rightarrow> client" where
  "resizeTerminal v s =
     (case term s of
        None \<Rightarrow> s
      | Some t \<Rightarrow>
          if \<not> terminalActive s then s
          else
            (case terminalHost v of
               None \<Rightarrow> s
             | Some (h, w) \<Rightarrow>
                 if \<not> term_initialized t then s
                 else if h < 24 \<or> w < 24 then once TResizeOnce s
                 else
                   (let c = fst (fitted v); r = snd (fitted v);
                        s' = s\<lparr>term := Some (t\<lparr>term_cols := c, term_rows := r\<rparr>)\<rparr>
                    in if 0 < c \<and> 0 < r \<and> (c \<noteq> term_cols t \<or> r \<noteq> term_rows t)
                       then sendMessage (obj ''resize'' (JObj [(''cols'', JNum (int c)), (''rows'', JNum (int r))])) s'
                       else s')))"

definition updateInset :: "env \<Rightarrow> client \<Rightarrow> client" where
  "updateInset v s =
     (let s' = s\<lparr>fs := updateKeyboardInset (window v) (fs s)\<rparr> in
      if fullscreen (fs s') then later TickResize s' else s')"

definition syncKeyboardInset :: "env \<Rightarrow> client \<Rightarrow> client" where
  "syncKeyboardInset v s =
     (let s' = updateInset v s in
      arm TKeyboardSettle (\<lambda>i s. s\<lparr>keyboardInsetSettleTimeout := i\<rparr>)
        (disarm (keyboardInsetSettleTimeout s') s'))"

text \<open>A resize after the next tick, one in the following frame and two more 50 and 150 ms later: see
  \<open>run_tick\<close> and \<open>run_timer\<close>.\<close>

definition scheduleTerminalResize :: "client \<Rightarrow> client" where
  [simp]: "scheduleTerminalResize s = later TickScheduleResize s"

definition client_exitFullscreen :: "env \<Rightarrow> client \<Rightarrow> client" where
  "client_exitFullscreen v s = scheduleTerminalResize (s\<lparr>fs := exitFullscreen (window v) (fs s)\<rparr>)"

definition client_enterFullscreen :: "env \<Rightarrow> client \<Rightarrow> client" where
  "client_enterFullscreen v s =
     (if terminalWrapper (page (fs s)) = None \<or> fullscreen (fs s) then s
      else scheduleTerminalResize (later TickResize (s\<lparr>fs := enterFullscreen (window v) (fs s)\<rparr>)))"

definition client_makeFullscreen :: "env \<Rightarrow> client \<Rightarrow> client" where
  "client_makeFullscreen v s = (if fullscreen (fs s) then client_exitFullscreen v s else client_enterFullscreen v s)"

section \<open>Connecting\<close>

definition scheduleReconnect :: "env \<Rightarrow> client \<Rightarrow> client" where
  "scheduleReconnect v s =
     (if authRejected s then s
      else if maxReconnectAttempts \<le> reconnectAttempts s
      then failTerminalConnection err_connectionFailed False
             (s\<lparr>message := ''(connection failed - max retries exceeded)''\<rparr>)
      else if reconnectInterval s \<noteq> None then s
      else
        arm (TReconnect (min (real baseReconnectDelay * 2 ^ reconnectAttempts s + random1000 v) (real maxReconnectDelay)))
          (\<lambda>i s. s\<lparr>reconnectInterval := i\<rparr>) (s\<lparr>connectionState := CsReconnecting\<rparr>))"

definition handleConnectionError :: "env \<Rightarrow> client \<Rightarrow> client" where
  "handleConnectionError v s0 =
     (let s = s0\<lparr>connectionState := CsDisconnected\<rparr> in
      scheduleReconnect v
        (if isTerminalSessionPending s \<or> 2 \<le> reconnectAttempts s
         then failTerminalConnection err_connectionFailed False s else s))"

definition initializeWebSocket :: "env \<Rightarrow> client \<Rightarrow> client" where
  "initializeWebSocket v s0 =
     (if socketLive s0 then s0
      else
        (let s = clearAllTimers (s0\<lparr>connectionState := CsConnecting\<rparr>) in
         if socketThrows v then handleConnectionError v s
         else
           (let n = nextSocket s;
                s1 = effect [OpenSocket n (url (address v))]
                       (s\<lparr>socket := Some n, readyState := (readyState s)(n := WsConnecting), nextSocket := Suc n\<rparr>);
                timeoutMs = (if reconnectAttempts s1 = 0 then TERMINAL_CONNECT_TIMEOUT_MS else connectionTimeout)
            in arm (TConnect timeoutMs) (\<lambda>i s. s\<lparr>connectionTimeoutId := i\<rparr>) s1)))"

definition connectTimedOut :: "client \<Rightarrow> client" where
  "connectTimedOut s =
     (if connectionState s = CsConnecting
      then closeSocket None
             (if isTerminalSessionPending s then failTerminalConnection err_timeout False s else s)
      else s)"

definition ensureWebSocketConnection :: "env \<Rightarrow> client \<Rightarrow> client" where
  "ensureWebSocketConnection v s =
     (if socketLive s then s
      else
        initializeWebSocket v
          ((disarm (reconnectInterval s) s)\<lparr>reconnectInterval := None, reconnectAttempts := 0\<rparr>))"

definition reconnectFires :: "env \<Rightarrow> client \<Rightarrow> client" where
  "reconnectFires v s =
     initializeWebSocket v (s\<lparr>reconnectInterval := None, reconnectAttempts := Suc (reconnectAttempts s)\<rparr>)"

section \<open>Heartbeat\<close>

definition resetPingTimeout :: "client \<Rightarrow> client" where
  "resetPingTimeout s = arm TPing (\<lambda>i s. s\<lparr>pingTimeoutId := i\<rparr>) (disarm (pingTimeoutId s) s)"

definition pingTimedOut :: "client \<Rightarrow> client" where
  "pingTimedOut s0 =
     (let s = s0\<lparr>heartbeatMissed := Suc (heartbeatMissed s0)\<rparr> in
      if maxHeartbeatMisses \<le> heartbeatMissed s then closeSocket (Some (1001, ''Heartbeat timeout'')) s else s)"

definition keepAlive :: "env \<Rightarrow> client \<Rightarrow> client" where
  "keepAlive v s =
     (if socketIs WsOpen s then sendMessage (obj ''ping'' (JBool True)) s
      else if connectionState s = CsDisconnected \<and> \<not> authRejected s then initializeWebSocket v s
      else s)"

definition handleVisibilityChange :: "env \<Rightarrow> client \<Rightarrow> client" where
  "handleVisibilityChange v s0 =
     (let wasVisible = isDocumentVisible s0; s = s0\<lparr>isDocumentVisible := \<not> hidden v\<rparr> in
      if \<not> isDocumentVisible s
      then (let s1 = s\<lparr>wasConnectedBeforeHidden := (connectionState s = CsConnected)\<rparr> in
            case pingTimeoutId s1 of
              None \<Rightarrow> s1
            | Some i \<Rightarrow> (disarm (Some i) s1)\<lparr>pingTimeoutId := None\<rparr>)
      else if \<not> wasVisible
      then
        (if wasConnectedBeforeHidden s \<and> socketIs WsOpen s
         then (let s1 = sendMessage (obj ''ping'' (JBool True)) (s\<lparr>heartbeatMissed := 0\<rparr>) in
               arm TResumeProbe (\<lambda>i s. s\<lparr>pingTimeoutId := i\<rparr>) (disarm (pingTimeoutId s1) s1))
         else if wasConnectedBeforeHidden s \<and> connectionState s \<noteq> CsConnected \<and> \<not> authRejected s
         then initializeWebSocket v (s\<lparr>reconnectAttempts := 0\<rparr>)
         else s)
      else s)"

section \<open>Socket events\<close>

definition handleSocketOpen :: "env \<Rightarrow> client \<Rightarrow> client" where
  "handleSocketOpen v s0 =
     (let s1 = s0\<lparr>connectionState := CsConnected, reconnectAttempts := 0, heartbeatMissed := 0,
                  lastPingTime := Some (now v)\<rparr>;
          s2 = (case connectionTimeoutId s1 of
                  None \<Rightarrow> s1
                | Some i \<Rightarrow> (disarm (Some i) s1)\<lparr>connectionTimeoutId := None\<rparr>);
          s3 = (case pendingCommand s2 of
                  None \<Rightarrow> s2
                | Some c \<Rightarrow> (sendMessage c s2)\<lparr>pendingCommand := None, connectionError := None, starting := True\<rparr>);
          s4 = (if keepAliveInterval s3 = None
                then arm TKeepAlive (\<lambda>i s. s\<lparr>keepAliveInterval := i\<rparr>) s3 else s3)
      in effect [DomEvent ''terminal-websocket-ready''] (resetPingTimeout s4))"

definition handleSocketError :: "client \<Rightarrow> client" where
  "handleSocketError s =
     (if isTerminalSessionPending s then failTerminalConnection err_connectionFailed False s else s)"

definition resetTerminal :: "client \<Rightarrow> client" where
  "resetTerminal s =
     (case term s of
        None \<Rightarrow> s
      | Some t \<Rightarrow>
          later TickResizeFocus
            (effect [Dispatch ''terminalDisconnected'' None]
              (resetTerminalSessionCountdown
                ((effect [Dispatch ''error'' (Some ''Terminal websocket connection lost. Reconnecting...''),
                          TermNotice ''Connection lost''] s)
                 \<lparr>pendingWrites := 0, paused := False, commandBuffer := [], pendingCommand := None\<rparr>))))"

definition handleSocketClose :: "env \<Rightarrow> nat \<Rightarrow> client \<Rightarrow> client" where
  "handleSocketClose v c s0 =
     (let outcome = resolveTerminalCloseOutcome c (isTerminalSessionPending s0) (reconnectAttempts s0) maxReconnectAttempts;
          s = resetTerminalSessionCountdown (clearAllTimers (s0\<lparr>connectionState := CsDisconnected\<rparr>))
      in if out_authRejected outcome
         then
           (let s1 = s\<lparr>authRejected := True, pendingCommand := None\<rparr>;
                s2 = (if terminalActive s1
                      then effect [Dispatch ''terminalDisconnected'' None]
                             ((client_exitFullscreen v s1)\<lparr>terminalActive := False\<rparr>)
                      else s1)
            in failTerminalConnection (case out_error outcome of Some e \<Rightarrow> e | None \<Rightarrow> []) True s2)
         else if c \<noteq> NORMAL
         then
           (let s1 = (if 0 < reconnectAttempts s
                      then (resetTerminal s)\<lparr>message := ''(connection closed)'', terminalActive := False\<rparr>
                      else s);
                s2 = (case out_error outcome of Some e \<Rightarrow> failTerminalConnection e False s1 | None \<Rightarrow> s1)
            in scheduleReconnect v s2)
         else s)"

definition flowControlCallback :: "client \<Rightarrow> client" where
  "flowControlCallback s0 =
     (let s = s0\<lparr>pendingWrites := pendingWrites s0 - 1\<rparr> in
      if MAX_PENDING_WRITES < pendingWrites s \<and> \<not> paused s
      then sendMessage (obj ''pause'' (JBool True)) (s\<lparr>paused := True\<rparr>)
      else if pendingWrites s \<le> MAX_PENDING_WRITES div 2 \<and> paused s
      then sendMessage (obj ''resume'' (JBool True)) (s\<lparr>paused := False\<rparr>)
      else s)"

text \<open>The branches of \<open>handleSocketMessage\<close>. A missing terminal makes the first use of it throw.\<close>

definition on_pty_ready :: "env \<Rightarrow> client \<Rightarrow> client" where
  "on_pty_ready v s0 =
     (let s1 = completeTerminalSessionStart s0 in
      case term s1 of
        None \<Rightarrow> s1
      | Some t \<Rightarrow>
          (let s2 = (if \<not> term_initialized t
                     then effect [TermOpen] (s1\<lparr>term := Some (t\<lparr>term_initialized := True\<rparr>)\<rparr>)
                     else effect [TermNotice ''Reconnected''] s1);
               s3 = effect [TermFocus] (startTerminalSessionCountdown v (s2\<lparr>terminalActive := True\<rparr>))
           in effect [Dispatch ''terminalConnected'' None]
                (once TFocusOnce (once TFocusOnce (once TResizeOnce (resizeTerminal v s3))))))"

definition on_unprocessable :: "client \<Rightarrow> client" where
  "on_unprocessable s0 =
     (let s1 = clearSessionStartTimeout (s0\<lparr>starting := False\<rparr>);
          s2 = (case term s1 of None \<Rightarrow> s1 | Some t \<Rightarrow> effect [TermReset] s1);
          s3 = (resetTerminalSessionCountdown (s2\<lparr>terminalActive := False\<rparr>))
                 \<lparr>message := ''(sorry, something went wrong, please try again)''\<rparr>
      in effect [Dispatch ''terminalDisconnected'' None] s3)"

definition on_pty_exited :: "env \<Rightarrow> client \<Rightarrow> client" where
  "on_pty_exited v s0 =
     (let s1 = (client_exitFullscreen v (s0\<lparr>starting := False\<rparr>))\<lparr>mobileToolbarCollapsed := False, terminalActive := False\<rparr>;
          s2 = resetTerminalSessionCountdown s1
      in case term s2 of
           None \<Rightarrow> s2
         | Some t \<Rightarrow>
             effect [Dispatch ''terminalDisconnected'' None]
               ((effect [TermReset] s2)\<lparr>commandBuffer := []\<rparr>))"

definition on_rejection :: "rejection \<Rightarrow> string \<Rightarrow> client \<Rightarrow> client" where
  "on_rejection r text s0 =
     failTerminalConnection (if r = AuthRejectedMessage then err_authRejected else text) True
       (resetTerminalSessionCountdown (s0\<lparr>pendingCommand := None, terminalActive := False\<rparr>))"

definition write_output :: "env \<Rightarrow> ws_data \<Rightarrow> client \<Rightarrow> client" where
  "write_output v d s =
     (if writeThrows v \<or> term s = None then s\<lparr>pendingWrites := Suc (pendingWrites s) - 1\<rparr>
      else effect (case d of TextFrame t \<Rightarrow> [TermWrite t] | OtherFrame \<Rightarrow> [TermWriteOther])
             (s\<lparr>pendingWrites := Suc (pendingWrites s)\<rparr>))"

definition handleSocketMessage :: "env \<Rightarrow> ws_data \<Rightarrow> client \<Rightarrow> client" where
  "handleSocketMessage v d s =
     (if d = TextFrame ''pong''
      then resetPingTimeout (s\<lparr>heartbeatMissed := 0, lastPingTime := Some (now v)\<rparr>)
      else if d = TextFrame ''pty-ready'' then on_pty_ready v s
      else if d = TextFrame ''unprocessable'' then on_unprocessable s
      else if d = TextFrame ''pty-exited'' then on_pty_exited v s
      else
        (case (d, classifyTerminalServerMessage d) of
           (TextFrame t, Some r) \<Rightarrow> on_rejection r t s
         | _ \<Rightarrow> write_output v d s))"

section \<open>Input\<close>

definition on_term_data :: "string \<Rightarrow> client \<Rightarrow> client" where
  "on_term_data data s0 =
     (let s = sendMessage (obj ''message'' (JStr data)) s0
      in s\<lparr>commandBuffer := (if data = [cr] then [] else commandBuffer s @ data)\<rparr>)"

text \<open>The key handler: the returned value says whether xterm handles the key itself.\<close>

definition on_custom_key :: "bool \<Rightarrow> string \<Rightarrow> string \<Rightarrow> string \<Rightarrow> client \<Rightarrow> bool \<times> client" where
  "on_custom_key ctrl keyCode type selection s =
     (if ctrl \<and> keyCode = ''KeyV'' \<and> type = ''keydown'' then (False, s)
      else if ctrl \<and> keyCode = ''KeyC'' \<and> type = ''keydown'' \<and> selection \<noteq> []
      then (False, effect [ClipboardWrite selection] s)
      else (True, s))"

definition sendTerminalInput :: "string \<Rightarrow> client \<Rightarrow> client" where
  "sendTerminalInput data s =
     (if term s = None \<or> \<not> terminalActive s then s else sendMessage (obj ''message'' (JStr data)) s)"

definition terminalSequences :: "(string \<times> string) list" where
  "terminalSequences =
     [(''arrowUp'', esc # ''[A''), (''arrowDown'', esc # ''[B''), (''arrowRight'', esc # ''[C''),
      (''arrowLeft'', esc # ''[D''), (''tab'', [CHR 0x09]), (''escape'', [esc]), (''ctrlC'', [CHR 0x03]),
      (''ctrlD'', [CHR 0x04]), (''ctrlBackslash'', [CHR 0x1C]), (''ctrlS'', [CHR 0x13]), (''ctrlZ'', [CHR 0x1A])]"

definition sendTerminalControl :: "string \<Rightarrow> client \<Rightarrow> client" where
  "sendTerminalControl sequence s =
     (case map_of terminalSequences sequence of
        None \<Rightarrow> s
      | Some q \<Rightarrow> sendTerminalInput q (s\<lparr>terminalModifier := None\<rparr>))"

definition toggleTerminalModifier :: "string \<Rightarrow> client \<Rightarrow> client" where
  "toggleTerminalModifier modifier s =
     s\<lparr>terminalModifier := (if terminalModifier s = Some modifier then None else Some modifier)\<rparr>"

text \<open>\<open>key.toUpperCase().charCodeAt(0)\<close> for a first character of the Latin-1 range: the sharp s
  becomes SS, the micro sign a capital mu and y with diaeresis leaves Latin-1.\<close>

definition upper_code :: "char \<Rightarrow> nat" where
  "upper_code c =
     (let n = code c in
      if 97 \<le> n \<and> n \<le> 122 then n - 32
      else if n = 181 then 924 else if n = 223 then 83 else if n = 255 then 376
      else if 224 \<le> n \<and> n \<noteq> 247 then n - 32 else n)"

definition control_char :: "string \<Rightarrow> char" where
  "control_char key = char_of ((case key of [] \<Rightarrow> 0 | c # cs \<Rightarrow> upper_code c) mod 32)"

definition sendTerminalKey :: "string \<Rightarrow> client \<Rightarrow> client" where
  "sendTerminalKey key s =
     (let input = (if terminalModifier s = Some ''ctrl'' then [control_char key]
                   else if terminalModifier s = Some ''alt'' then esc # key else key)
      in sendTerminalInput input (s\<lparr>terminalModifier := None\<rparr>))"

datatype clipboard = ClipboardMissing | ClipboardText string | ClipboardDenied

definition pasteFromClipboard :: "clipboard \<Rightarrow> client \<Rightarrow> client" where
  "pasteFromClipboard c s =
     (case c of
        ClipboardMissing \<Rightarrow> effect [Dispatch ''error'' (Some ''Clipboard paste is not available in this browser.'')] s
      | ClipboardText t \<Rightarrow> if t = [] then s else sendTerminalInput t s
      | ClipboardDenied \<Rightarrow> effect [Dispatch ''error'' (Some ''Clipboard paste permission was denied.'')] s)"

definition copyTerminalSelection :: "string \<Rightarrow> bool \<Rightarrow> client \<Rightarrow> client" where
  "copyTerminalSelection selection allowed s =
     (if term s = None \<or> selection = [] then effect [Dispatch ''error'' (Some ''Select terminal text before copying.'')] s
      else if allowed then effect [ClipboardWrite selection] s
      else effect [Dispatch ''error'' (Some ''Clipboard copy permission was denied.'')] s)"

section \<open>Life cycle\<close>

definition setupTerminal :: "bool \<Rightarrow> client \<Rightarrow> client" where
  "setupTerminal elementExists s =
     (if elementExists
      then later TickResize (s\<lparr>term := Some \<lparr>term_initialized = False, term_cols = 80, term_rows = 30\<rparr>\<rparr>)
      else s)"

text \<open>\<open>terminalData()\<close>: the fields before \<open>init\<close>.\<close>

definition terminalData :: "page \<Rightarrow> theme_state \<Rightarrow> client" where
  "terminalData pg th =
     \<lparr>starting = False, terminalActive = False, connectionError = None, authRejected = False, pendingCommand = None,
      sessionStartTimeoutId = None, timers = no_timers, fx = [],
      fs = fullscreen_start pg, look = th, message = ''(connection closed)'', term = None, socket = None,
      readyState = (\<lambda>_. WsClosed), nextSocket = 0, commandBuffer = [], pendingWrites = 0, paused = False,
      keepAliveInterval = None, reconnectInterval = None, connectionTimeoutId = None, pingTimeoutId = None,
      resizeTimeout = None, keyboardInsetSettleTimeout = None, terminalSessionCountdownInterval = None,
      connectionState = CsDisconnected, reconnectAttempts = 0, lastPingTime = None, heartbeatMissed = 0,
      isDocumentVisible = True, wasConnectedBeforeHidden = False, mobileToolbarCollapsed = False,
      terminalModifier = None, resizeObserver = False, observing = False, watchedActive = False,
      terminalSessionStartedAt = None, terminalSessionRemainingSeconds = None, ticks = []\<rparr>"

definition client_init :: "env \<Rightarrow> bool \<Rightarrow> bool \<Rightarrow> bool \<Rightarrow> client \<Rightarrow> client" where
  "client_init v autoStart elementExists observers s0 =
     (let s1 = s0\<lparr>starting := autoStart\<rparr>;
          s2 = (if starting s1 then armTerminalSessionStartTimeout s1 else s1);
          s3 = later TickSalvage (updateInset v s2);
          s4 = once TInitialConnect (setupTerminal elementExists s3)
      in s4\<lparr>resizeObserver := observers\<rparr>)"

definition destroy :: "client \<Rightarrow> client" where
  "destroy s = (let s' = clearSessionStartTimeout s in disarm (keyboardInsetSettleTimeout s') s')"

definition cleanup :: "env \<Rightarrow> client \<Rightarrow> client" where
  "cleanup v s0 =
     (let s1 = checkIfProcessIsRunningAndKillIt (disarm (keyboardInsetSettleTimeout s0) s0);
          s2 = clearSessionStartTimeout (clearAllTimers s1);
          s3 = resetTerminalSessionCountdown (s2\<lparr>connectionState := CsDisconnected, pendingCommand := None\<rparr>);
          s4 = client_exitFullscreen v s3;
          s5 = closeSocket (Some (1000, ''Client cleanup'')) (s4\<lparr>fs := unlockPageScroll (fs s4)\<rparr>);
          s6 = s5\<lparr>observing := False, resizeObserver := False\<rparr>
      in disarm (resizeTimeout s6) s6)"

text \<open>The watcher of \<open>terminalActive\<close> runs when it sees a new value.\<close>

definition watchTerminalActive :: "client \<Rightarrow> client" where
  "watchTerminalActive s0 =
     (if watchedActive s0 = terminalActive s0 then s0
      else
        (let active = terminalActive s0; s = s0\<lparr>watchedActive := active\<rparr> in
         later (TickWatch active) (if \<not> active then disarm (keepAliveInterval s) s else s)))"

definition focusWhenReady :: "client \<Rightarrow> client" where
  "focusWhenReady s =
     (if terminalActive s \<and> term s \<noteq> None then effect [TermFocus] s else once TFocusWhenReady s)"

definition run_tick :: "env \<Rightarrow> tick \<Rightarrow> client \<Rightarrow> client" where
  "run_tick v k s =
     (case k of
        TickResize \<Rightarrow> resizeTerminal v s
      | TickResizeFocus \<Rightarrow> effect [TermFocus] (resizeTerminal v s)
      | TickScheduleResize \<Rightarrow> once TAnimationResize (resizeTerminal v s)
      | TickSalvage \<Rightarrow> s\<lparr>fs := (fs s)\<lparr>page := salvageStrayFullscreenNodes (page (fs s))\<rparr>\<rparr>
      | TickWatch active \<Rightarrow>
          if active
          then (let s1 = resizeTerminal v (s\<lparr>fs := (fs s)\<lparr>page := on_wrapper (removeProperty ''display'') (page (fs s))\<rparr>\<rparr>)
                in if resizeObserver s1 then s1\<lparr>observing := True\<rparr> else s1)
          else (let style' = (if applicationStyle v then removeProperty ''display''
                              else setProperty ''display'' (Kw ''none'') False)
                in (s\<lparr>fs := (fs s)\<lparr>page := on_wrapper style' (page (fs s))\<rparr>\<rparr>)
                   \<lparr>observing := (if resizeObserver s then False else observing s)\<rparr>))"

fun is_interval :: "client_timer \<Rightarrow> bool" where
  "is_interval TKeepAlive = True"
| "is_interval TCountdown = True"
| "is_interval _ = False"

definition run_timer :: "env \<Rightarrow> client_timer \<Rightarrow> client \<Rightarrow> client" where
  "run_timer v k s =
     (case k of
        TSessionStart \<Rightarrow> sessionStartTimedOut s
      | TInitialConnect \<Rightarrow> initializeWebSocket v s
      | TConnect ms \<Rightarrow> connectTimedOut s
      | TReconnect d \<Rightarrow> reconnectFires v s
      | TPing \<Rightarrow> pingTimedOut s
      | TResumeProbe \<Rightarrow> closeSocket (Some (4000, ''Visibility-resume timeout'')) s
      | TKeepAlive \<Rightarrow> keepAlive v s
      | TCountdown \<Rightarrow> updateTerminalSessionCountdown v s
      | TResizeDebounce \<Rightarrow> resizeTerminal v s
      | TResizeOnce \<Rightarrow> resizeTerminal v s
      | TFocusOnce \<Rightarrow> effect [TermFocus] s
      | TFocusWhenReady \<Rightarrow> focusWhenReady s
      | TKeyboardSettle \<Rightarrow> updateInset v s
      | TAnimationResize \<Rightarrow> once TResizeOnce (once TResizeOnce (resizeTerminal v s)))"

text \<open>The observer of the wrapper's size debounces through \<open>resizeTimeout\<close>.\<close>

definition onWrapperResized :: "client \<Rightarrow> client" where
  "onWrapperResized s =
     (if observing s
      then arm TResizeDebounce (\<lambda>i s. s\<lparr>resizeTimeout := i\<rparr>) (disarm (resizeTimeout s) s) else s)"

definition onTerminalToken :: "env \<Rightarrow> json \<Rightarrow> client \<Rightarrow> client" where
  "onTerminalToken v token s =
     (if authRejected s then s
      else sendCommandWhenReady (obj ''terminalToken'' token)
             (beginTerminalSessionStart (ensureWebSocketConnection v) s))"

section \<open>The machine\<close>

datatype client_event =
    TimerFires env nat
  | NextTick env
  | SocketOpened env nat
  | SocketMessage env nat ws_data
  | SocketClosed env nat bool nat
  | TokenIssued env json
  | StartRequested env
  | SessionFailed "string option"
  | AutoStartCancelled
  | FocusRequested
  | WatcherRuns
  | VisibilityChange env
  | WindowResized env
  | ViewportChanged env
  | WrapperResized
  | WriteDone
  | TermData string
  | CustomKey bool string string string
  | ControlButton string
  | ModifierButton string
  | KeyButton string
  | PasteButton clipboard
  | CopyButton string bool
  | FullscreenButton env
  | ThemeChanged theme_event
  | CleanedUp env
  | Destroyed

text \<open>A socket's events arrive while it is connecting or open; when it closes, its state is closed
  before the error event, if any, and the close event.\<close>

fun client_step :: "client \<Rightarrow> client_event \<Rightarrow> client" where
  "client_step s (TimerFires v i) =
     (case map_of (armed (timers s)) i of
        None \<Rightarrow> s
      | Some k \<Rightarrow> run_timer v k (if is_interval k then s else s\<lparr>timers := clear_timer i (timers s)\<rparr>))"
| "client_step s (NextTick v) =
     (case ticks s of [] \<Rightarrow> s | k # ks \<Rightarrow> run_tick v k (s\<lparr>ticks := ks\<rparr>))"
| "client_step s (SocketOpened v i) =
     (if i < nextSocket s \<and> readyState s i = WsConnecting
      then handleSocketOpen v (s\<lparr>readyState := (readyState s)(i := WsOpen)\<rparr>) else s)"
| "client_step s (SocketMessage v i d) =
     (if i < nextSocket s \<and> readyState s i = WsOpen then handleSocketMessage v d s else s)"
| "client_step s (SocketClosed v i failed c) =
     (if i < nextSocket s \<and> readyState s i \<noteq> WsClosed
      then (let s1 = s\<lparr>readyState := (readyState s)(i := WsClosed)\<rparr>
            in handleSocketClose v c (if failed then handleSocketError s1 else s1))
      else s)"
| "client_step s (TokenIssued v token) = onTerminalToken v token s"
| "client_step s (StartRequested v) = beginTerminalSessionStart (ensureWebSocketConnection v) s"
| "client_step s (SessionFailed m) = failTerminalSessionStart m s"
| "client_step s AutoStartCancelled = cancelTerminalAutoStart s"
| "client_step s FocusRequested = focusWhenReady s"
| "client_step s WatcherRuns = watchTerminalActive s"
| "client_step s (VisibilityChange v) = handleVisibilityChange v s"
| "client_step s (WindowResized v) = resizeTerminal v s"
| "client_step s (ViewportChanged v) = syncKeyboardInset v s"
| "client_step s WrapperResized = onWrapperResized s"
| "client_step s WriteDone = flowControlCallback s"
| "client_step s (TermData d) = (if term s = None then s else on_term_data d s)"
| "client_step s (CustomKey c k t sel) = snd (on_custom_key c k t sel s)"
| "client_step s (ControlButton q) = sendTerminalControl q s"
| "client_step s (ModifierButton m) = toggleTerminalModifier m s"
| "client_step s (KeyButton k) = sendTerminalKey k s"
| "client_step s (PasteButton c) = pasteFromClipboard c s"
| "client_step s (CopyButton sel ok) = copyTerminalSelection sel ok s"
| "client_step s (FullscreenButton v) = client_makeFullscreen v s"
| "client_step s (ThemeChanged e) = s\<lparr>look := theme_step (look s) e\<rparr>"
| "client_step s (CleanedUp v) = cleanup v s"
| "client_step s Destroyed = destroy s"

end
