(* ===== verification/ClientSafety.thy ===== *)
theory ClientSafety
  imports TerminalClient
begin

text \<open>
  Invariants of the terminal component over all histories of events: every timer that a field
  remembers is the only one of its kind, at most one socket is alive and it is the current one,
  reconnects are bounded and delayed, no automatic reconnect follows a rejection, and at most one
  heartbeat is missed at a time.
\<close>

section \<open>Kinds of timers\<close>

definition is_start :: "client_timer \<Rightarrow> bool" where "is_start k \<longleftrightarrow> k = TSessionStart"
definition is_connect :: "client_timer \<Rightarrow> bool" where "is_connect k \<longleftrightarrow> (case k of TConnect ms \<Rightarrow> True | _ \<Rightarrow> False)"
definition is_reconnect :: "client_timer \<Rightarrow> bool" where "is_reconnect k \<longleftrightarrow> (case k of TReconnect d \<Rightarrow> True | _ \<Rightarrow> False)"
definition is_ping :: "client_timer \<Rightarrow> bool" where "is_ping k \<longleftrightarrow> k = TPing"
definition is_heartbeat :: "client_timer \<Rightarrow> bool" where "is_heartbeat k \<longleftrightarrow> k = TPing \<or> k = TResumeProbe"
definition is_keepalive :: "client_timer \<Rightarrow> bool" where "is_keepalive k \<longleftrightarrow> k = TKeepAlive"
definition is_countdown :: "client_timer \<Rightarrow> bool" where "is_countdown k \<longleftrightarrow> k = TCountdown"
definition is_debounce :: "client_timer \<Rightarrow> bool" where "is_debounce k \<longleftrightarrow> k = TResizeDebounce"
definition is_settle :: "client_timer \<Rightarrow> bool" where "is_settle k \<longleftrightarrow> k = TKeyboardSettle"

lemmas kinds [simp] = is_start_def is_connect_def is_reconnect_def is_ping_def is_heartbeat_def is_keepalive_def
  is_countdown_def is_debounce_def is_settle_def

text \<open>All armed timers of a kind carry the id that the field holds.\<close>

definition slot :: "(client_timer \<Rightarrow> bool) \<Rightarrow> nat option \<Rightarrow> client_timer timers \<Rightarrow> bool" where
  "slot P h t \<longleftrightarrow> ids_of P t \<subseteq> set_option h"

lemma slot_set_new [simp]: "slot P (Some (nextId t)) (snd (set_timer k t)) \<longleftrightarrow> ids_of P t \<subseteq> {nextId t}"
  by (auto simp: slot_def)

lemma slot_set_other: "\<not> P k \<Longrightarrow> slot P h (snd (set_timer k t)) = slot P h t"
  by (simp add: slot_def)

lemma slot_clear [intro]: "slot P h t \<Longrightarrow> slot P h (clear_timer i t)"
  by (auto simp: slot_def)

lemma slot_clear_opt [intro]: "slot P h t \<Longrightarrow> slot P h (clear_opt h' t)"
  by (auto simp: slot_def)

lemma slot_clear_own [intro]: "slot P h t \<Longrightarrow> slot P h' (clear_opt h t)"
  by (auto simp: slot_def)

lemma slot_card: "slot P h t \<Longrightarrow> card (ids_of P t) \<le> 1"
  unfolding slot_def by (cases h) (use card_mono [of "{a}" for a] in fastforce)+

section \<open>The invariant\<close>

definition slots_ok :: "client \<Rightarrow> bool" where
  "slots_ok s \<longleftrightarrow>
     slot is_start (sessionStartTimeoutId s) (timers s) \<and> slot is_connect (connectionTimeoutId s) (timers s)
     \<and> slot is_reconnect (reconnectInterval s) (timers s) \<and> slot is_heartbeat (pingTimeoutId s) (timers s)
     \<and> slot is_keepalive (keepAliveInterval s) (timers s)
     \<and> slot is_countdown (terminalSessionCountdownInterval s) (timers s)
     \<and> slot is_debounce (resizeTimeout s) (timers s) \<and> slot is_settle (keyboardInsetSettleTimeout s) (timers s)"

definition heart_ok :: "client \<Rightarrow> bool" where
  "heart_ok s \<longleftrightarrow> heartbeatMissed s \<le> 1 \<and> (ids_of is_ping (timers s) \<noteq> {} \<longrightarrow> heartbeatMissed s = 0)"

definition socket_ok :: "client \<Rightarrow> bool" where
  "socket_ok s \<longleftrightarrow> (\<forall>i. readyState s i \<noteq> WsClosed \<longrightarrow> socket s = Some i) \<and> (\<forall>i. socket s = Some i \<longrightarrow> i < nextSocket s)"

definition retry_ok :: "client \<Rightarrow> bool" where
  "retry_ok s \<longleftrightarrow> reconnectAttempts s \<le> maxReconnectAttempts
     \<and> (ids_of is_reconnect (timers s) \<noteq> {} \<longrightarrow>
          reconnectAttempts s < maxReconnectAttempts \<and> \<not> authRejected s \<and> \<not> socketLive s)
     \<and> (\<forall>i d. (i, TReconnect d) \<in> set (armed (timers s)) \<longrightarrow> 1000 \<le> d \<and> d \<le> 30000)"

definition conn_ok :: "client \<Rightarrow> bool" where
  "conn_ok s \<longleftrightarrow> (connectionState s = CsConnected \<or> connectionState s = CsConnecting \<longrightarrow> socketLive s)
     \<and> (ids_of is_keepalive (timers s) \<noteq> {} \<longrightarrow> connectionState s = CsConnected)"

text \<open>The connection clause is suspended while a close event is handled.\<close>

definition inv_of :: "bool \<Rightarrow> client \<Rightarrow> bool" where
  "inv_of conn s \<longleftrightarrow> slots_ok s \<and> heart_ok s \<and> socket_ok s \<and> retry_ok s \<and> (conn \<longrightarrow> conn_ok s)"

abbreviation client_inv :: "client \<Rightarrow> bool" where
  "client_inv \<equiv> inv_of True"

lemma socketLive_iff: "socketLive s \<longleftrightarrow> (\<exists>i. socket s = Some i \<and> readyState s i \<noteq> WsClosed)"
  by (simp add: socketLive_def split: option.split)

lemmas inv_defs = inv_of_def slots_ok_def heart_ok_def socket_ok_def retry_ok_def conn_ok_def socketLive_iff

lemma live_irrelevant [simp]:
  "socketLive (s\<lparr>timers := t\<rparr>) = socketLive s" "socketLive (s\<lparr>sessionStartTimeoutId := h\<rparr>) = socketLive s"
  "socketLive (s\<lparr>keepAliveInterval := h\<rparr>) = socketLive s" "socketLive (s\<lparr>reconnectInterval := h\<rparr>) = socketLive s"
  "socketLive (s\<lparr>connectionTimeoutId := h\<rparr>) = socketLive s" "socketLive (s\<lparr>pingTimeoutId := h\<rparr>) = socketLive s"
  "socketLive (s\<lparr>resizeTimeout := h\<rparr>) = socketLive s" "socketLive (s\<lparr>keyboardInsetSettleTimeout := h\<rparr>) = socketLive s"
  "socketLive (s\<lparr>terminalSessionCountdownInterval := h\<rparr>) = socketLive s"
  "socketLive (s\<lparr>connectionState := c\<rparr>) = socketLive s" "socketLive (s\<lparr>reconnectAttempts := n\<rparr>) = socketLive s"
  "socketLive (s\<lparr>heartbeatMissed := n\<rparr>) = socketLive s" "socketLive (s\<lparr>authRejected := b\<rparr>) = socketLive s"
  "socketLive (s\<lparr>starting := b\<rparr>) = socketLive s"
  "socketLive (s\<lparr>terminalActive := b\<rparr>) = socketLive s"
  "socketLive (s\<lparr>connectionError := x\<rparr>) = socketLive s"
  "socketLive (s\<lparr>pendingCommand := q\<rparr>) = socketLive s"
  "socketLive (s\<lparr>fx := es\<rparr>) = socketLive s"
  "socketLive (s\<lparr>fs := f\<rparr>) = socketLive s"
  "socketLive (s\<lparr>look := l\<rparr>) = socketLive s"
  "socketLive (s\<lparr>message := m\<rparr>) = socketLive s"
  "socketLive (s\<lparr>term := tm\<rparr>) = socketLive s"
  "socketLive (s\<lparr>commandBuffer := m\<rparr>) = socketLive s"
  "socketLive (s\<lparr>pendingWrites := n\<rparr>) = socketLive s"
  "socketLive (s\<lparr>paused := b\<rparr>) = socketLive s"
  "socketLive (s\<lparr>lastPingTime := h\<rparr>) = socketLive s"
  "socketLive (s\<lparr>isDocumentVisible := b\<rparr>) = socketLive s"
  "socketLive (s\<lparr>wasConnectedBeforeHidden := b\<rparr>) = socketLive s"
  "socketLive (s\<lparr>mobileToolbarCollapsed := b\<rparr>) = socketLive s"
  "socketLive (s\<lparr>terminalSessionStartedAt := h\<rparr>) = socketLive s"
  "socketLive (s\<lparr>terminalSessionRemainingSeconds := r\<rparr>) = socketLive s"
  "socketLive (s\<lparr>ticks := ts\<rparr>) = socketLive s"
  "socketLive (effect es s) = socketLive s" "socketLive (later k s) = socketLive s"
  by (simp_all add: socketLive_iff effect_def later_def)

lemmas inv_parts = inv_of_def slots_ok_def slot_def heart_ok_def socket_ok_def retry_ok_def conn_ok_def

lemma inv_weaken: "inv_of True s \<Longrightarrow> inv_of c s"
  by (simp add: inv_of_def)

text \<open>Fields and effects the invariant does not read.\<close>

lemma inv_irrelevant [simp]:
  "inv_of cc (s\<lparr>starting := a\<rparr>) = inv_of cc s" "inv_of cc (s\<lparr>terminalActive := a\<rparr>) = inv_of cc s"
  "inv_of cc (s\<lparr>connectionError := b\<rparr>) = inv_of cc s" "inv_of cc (s\<lparr>pendingCommand := c\<rparr>) = inv_of cc s"
  "inv_of cc (s\<lparr>fx := d\<rparr>) = inv_of cc s" "inv_of cc (s\<lparr>fs := e\<rparr>) = inv_of cc s"
  "inv_of cc (s\<lparr>look := f\<rparr>) = inv_of cc s" "inv_of cc (s\<lparr>message := g\<rparr>) = inv_of cc s"
  "inv_of cc (s\<lparr>term := h\<rparr>) = inv_of cc s" "inv_of cc (s\<lparr>commandBuffer := g\<rparr>) = inv_of cc s"
  "inv_of cc (s\<lparr>pendingWrites := n\<rparr>) = inv_of cc s" "inv_of cc (s\<lparr>paused := a\<rparr>) = inv_of cc s"
  "inv_of cc (s\<lparr>lastPingTime := m\<rparr>) = inv_of cc s" "inv_of cc (s\<lparr>isDocumentVisible := a\<rparr>) = inv_of cc s"
  "inv_of cc (s\<lparr>wasConnectedBeforeHidden := a\<rparr>) = inv_of cc s" "inv_of cc (s\<lparr>mobileToolbarCollapsed := a\<rparr>) = inv_of cc s"
  "inv_of cc (s\<lparr>terminalModifier := b\<rparr>) = inv_of cc s" "inv_of cc (s\<lparr>resizeObserver := a\<rparr>) = inv_of cc s"
  "inv_of cc (s\<lparr>observing := a\<rparr>) = inv_of cc s" "inv_of cc (s\<lparr>watchedActive := a\<rparr>) = inv_of cc s"
  "inv_of cc (s\<lparr>terminalSessionStartedAt := m\<rparr>) = inv_of cc s"
  "inv_of cc (s\<lparr>terminalSessionRemainingSeconds := q\<rparr>) = inv_of cc s" "inv_of cc (s\<lparr>ticks := t\<rparr>) = inv_of cc s"
  "inv_of cc (effect es s) = inv_of cc s" "inv_of cc (later k s) = inv_of cc s"
  by (simp_all add: inv_defs effect_def later_def)

lemma inv_sendMessage [simp]: "inv_of cc (sendMessage m s) = inv_of cc s"
  by (simp add: sendMessage_def split: option.split)

section \<open>Timers\<close>

lemma armed_set [simp]: "armed (snd (set_timer k t)) = (nextId t, k) # armed t"
  by (simp add: set_timer_def)

lemma armed_clear: "p \<in> set (armed (clear_opt h t)) \<Longrightarrow> p \<in> set (armed t)"
  by (auto simp: clear_opt_def clear_timer_def split: option.splits)

lemma arm_eq: "arm k store s = store (Some (nextId (timers s))) (s\<lparr>timers := snd (set_timer k (timers s))\<rparr>)"
  by (simp add: arm_def Let_def split_beta)

text \<open>Cancelling a timer only removes from the table.\<close>

definition fewer :: "client_timer timers \<Rightarrow> client_timer timers \<Rightarrow> bool" where
  "fewer t u \<longleftrightarrow> (\<forall>P. ids_of P t \<subseteq> ids_of P u) \<and> set (armed t) \<subseteq> set (armed u)"

lemma fewer_clear_opt: "fewer (clear_opt h t) t"
  by (auto simp: fewer_def dest: armed_clear)

lemma fewer_clear: "fewer (clear_timer i t) t"
  using fewer_clear_opt [of "Some i" t] by (simp add: clear_opt_def)

lemma fewer_refl [simp]: "fewer t t"
  by (simp add: fewer_def)

lemma fewer_trans: "fewer t u \<Longrightarrow> fewer u w \<Longrightarrow> fewer t w"
  unfolding fewer_def by blast

lemma slot_fewer: "slot P h u \<Longrightarrow> fewer t u \<Longrightarrow> slot P h t"
  unfolding slot_def fewer_def by blast

lemma inv_fewer: "inv_of cc s \<Longrightarrow> fewer t (timers s) \<Longrightarrow> inv_of cc (s\<lparr>timers := t\<rparr>)"
proof -
  assume inv: "inv_of cc s" and f: "fewer t (timers s)"
  then have sl: "slot P h (timers s) \<Longrightarrow> slot P h t" for P h using slot_fewer by blast
  have e: "ids_of P (timers s) = {} \<Longrightarrow> ids_of P t = {}" for P using f unfolding fewer_def by blast
  have a: "p \<in> set (armed t) \<Longrightarrow> p \<in> set (armed (timers s))" for p using f unfolding fewer_def by blast
  from inv have i: "slots_ok s" "heart_ok s" "socket_ok s" "retry_ok s" "cc \<Longrightarrow> conn_ok s"
    by (simp_all add: inv_of_def)
  have "slots_ok (s\<lparr>timers := t\<rparr>)" using i(1) by (simp add: slots_ok_def sl)
  moreover have "heart_ok (s\<lparr>timers := t\<rparr>)" using i(2) e [of is_ping] by (auto simp: heart_ok_def)
  moreover have "socket_ok (s\<lparr>timers := t\<rparr>)" using i(3) by (simp add: socket_ok_def)
  moreover have "retry_ok (s\<lparr>timers := t\<rparr>)"
    using i(4) e [of is_reconnect] a unfolding retry_ok_def by simp blast
  moreover have "conn_ok (s\<lparr>timers := t\<rparr>)" if cc
    using i(5) [OF that] e [of is_keepalive] unfolding conn_ok_def by auto
  ultimately show ?thesis by (simp add: inv_of_def)
qed

lemma inv_disarm: "inv_of cc s \<Longrightarrow> inv_of cc (disarm h s)"
  by (simp add: disarm_def inv_fewer fewer_clear_opt)

text \<open>Forgetting a field whose timers are gone.\<close>

lemma inv_clearSessionStart: "inv_of cc s \<Longrightarrow> inv_of cc (clearSessionStartTimeout s)"
proof (cases "sessionStartTimeoutId s")
  case (Some i)
  assume inv: "inv_of cc s"
  then have "inv_of cc (s\<lparr>timers := clear_timer i (timers s)\<rparr>)" by (simp add: inv_fewer fewer_clear)
  moreover have "slot is_start (Some i) (timers s)" using inv Some by (simp add: inv_of_def slots_ok_def)
  ultimately show ?thesis using Some
    by (simp add: clearSessionStartTimeout_def inv_parts)
qed (simp add: clearSessionStartTimeout_def)

text \<open>The invariant is one that the session-start methods keep.\<close>

interpretation start_fields: session_fields "inv_of cc" for cc
  by unfold_locales (simp_all add: inv_clearSessionStart)

lemmas inv_fail = start_fields.keeps_fail

lemma inv_once: "inv_of cc s \<Longrightarrow> k \<in> {TInitialConnect, TResizeOnce, TFocusOnce, TFocusWhenReady, TAnimationResize}
    \<Longrightarrow> inv_of cc (once k s)"
  by (elim insertE emptyE) (simp_all add: once_def arm_eq inv_parts)

lemma inv_armStart: "inv_of cc s \<Longrightarrow> inv_of cc (armTerminalSessionStartTimeout s)"
proof -
  assume "inv_of cc s"
  then have inv: "inv_of cc (clearSessionStartTimeout s)" by (rule inv_clearSessionStart)
  let ?s = "clearSessionStartTimeout s"
  have "sessionStartTimeoutId ?s = None" by (simp add: clearSessionStartTimeout_def split: option.split)
  with inv have "ids_of is_start (timers ?s) = {}" by (simp add: inv_of_def slots_ok_def slot_def)
  with inv show ?thesis
    by (simp add: armTerminalSessionStartTimeout_def Let_def split_beta inv_parts)
qed

text \<open>Arming a timer of a kind that has none, into its field.\<close>

lemma inv_arm_ping:
  "inv_of cc s \<Longrightarrow> ids_of is_heartbeat (timers s) = {} \<Longrightarrow> heartbeatMissed s = 0 \<Longrightarrow>
   inv_of cc (arm TPing (\<lambda>i s. s\<lparr>pingTimeoutId := i\<rparr>) s)"
  by (simp add: arm_eq inv_parts)

lemma inv_arm_probe:
  "inv_of cc s \<Longrightarrow> ids_of is_heartbeat (timers s) = {} \<Longrightarrow>
   inv_of cc (arm TResumeProbe (\<lambda>i s. s\<lparr>pingTimeoutId := i\<rparr>) s)"
  by (simp add: arm_eq inv_parts)

lemma inv_arm_keepalive:
  "inv_of cc s \<Longrightarrow> ids_of is_keepalive (timers s) = {} \<Longrightarrow> connectionState s = CsConnected \<Longrightarrow>
   inv_of cc (arm TKeepAlive (\<lambda>i s. s\<lparr>keepAliveInterval := i\<rparr>) s)"
  by (simp add: arm_eq inv_parts)

lemma inv_arm_countdown:
  "inv_of cc s \<Longrightarrow> ids_of is_countdown (timers s) = {} \<Longrightarrow>
   inv_of cc (arm TCountdown (\<lambda>i s. s\<lparr>terminalSessionCountdownInterval := i\<rparr>) s)"
  by (simp add: arm_eq inv_parts)

lemma inv_arm_connect:
  "inv_of cc s \<Longrightarrow> ids_of is_connect (timers s) = {} \<Longrightarrow>
   inv_of cc (arm (TConnect ms) (\<lambda>i s. s\<lparr>connectionTimeoutId := i\<rparr>) s)"
  by (simp add: arm_eq inv_parts)

lemma inv_arm_debounce:
  "inv_of cc s \<Longrightarrow> ids_of is_debounce (timers s) = {} \<Longrightarrow>
   inv_of cc (arm TResizeDebounce (\<lambda>i s. s\<lparr>resizeTimeout := i\<rparr>) s)"
  by (simp add: arm_eq inv_parts)

lemma inv_arm_settle:
  "inv_of cc s \<Longrightarrow> ids_of is_settle (timers s) = {} \<Longrightarrow>
   inv_of cc (arm TKeyboardSettle (\<lambda>i s. s\<lparr>keyboardInsetSettleTimeout := i\<rparr>) s)"
  by (simp add: arm_eq inv_parts)

lemma inv_arm_reconnect:
  "inv_of cc s \<Longrightarrow> ids_of is_reconnect (timers s) = {} \<Longrightarrow> reconnectAttempts s < maxReconnectAttempts \<Longrightarrow>
   \<not> authRejected s \<Longrightarrow> \<not> socketLive s \<Longrightarrow> 1000 \<le> d \<Longrightarrow> d \<le> 30000 \<Longrightarrow>
   inv_of cc (arm (TReconnect d) (\<lambda>i s. s\<lparr>reconnectInterval := i\<rparr>) s)"
  by (simp add: arm_eq inv_parts)

section \<open>Operations\<close>

lemma disarm_sel [simp]:
  "timers (disarm h s) = clear_opt h (timers s)" "sessionStartTimeoutId (disarm h s) = sessionStartTimeoutId s"
  "keepAliveInterval (disarm h s) = keepAliveInterval s" "reconnectInterval (disarm h s) = reconnectInterval s"
  "connectionTimeoutId (disarm h s) = connectionTimeoutId s" "pingTimeoutId (disarm h s) = pingTimeoutId s"
  "resizeTimeout (disarm h s) = resizeTimeout s" "keyboardInsetSettleTimeout (disarm h s) = keyboardInsetSettleTimeout s"
  "terminalSessionCountdownInterval (disarm h s) = terminalSessionCountdownInterval s"
  "connectionState (disarm h s) = connectionState s" "reconnectAttempts (disarm h s) = reconnectAttempts s"
  "heartbeatMissed (disarm h s) = heartbeatMissed s" "authRejected (disarm h s) = authRejected s"
  "socket (disarm h s) = socket s" "readyState (disarm h s) = readyState s" "nextSocket (disarm h s) = nextSocket s"
  "pendingCommand (disarm h s) = pendingCommand s" "fx (disarm h s) = fx s" "starting (disarm h s) = starting s"
  "terminalActive (disarm h s) = terminalActive s" "socketLive (disarm h s) = socketLive s"
  "term (disarm h s) = term s" "fs (disarm h s) = fs s" "ticks (disarm h s) = ticks s"
  by (simp_all add: disarm_def)

lemma clearAll_sel [simp]:
  "sessionStartTimeoutId (clearAllTimers s) = sessionStartTimeoutId s"
  "connectionState (clearAllTimers s) = connectionState s" "reconnectAttempts (clearAllTimers s) = reconnectAttempts s"
  "heartbeatMissed (clearAllTimers s) = heartbeatMissed s" "authRejected (clearAllTimers s) = authRejected s"
  "socket (clearAllTimers s) = socket s" "readyState (clearAllTimers s) = readyState s"
  "nextSocket (clearAllTimers s) = nextSocket s" "pendingCommand (clearAllTimers s) = pendingCommand s"
  "fx (clearAllTimers s) = fx s" "starting (clearAllTimers s) = starting s"
  "terminalActive (clearAllTimers s) = terminalActive s" "socketLive (clearAllTimers s) = socketLive s"
  "reconnectInterval (clearAllTimers s) = None" "keyboardInsetSettleTimeout (clearAllTimers s) = keyboardInsetSettleTimeout s"
  by (simp_all add: clearAllTimers_def)

lemma clearAll_timers:
  "timers (clearAllTimers s) = clear_opt (terminalSessionCountdownInterval s) (clear_opt (resizeTimeout s)
     (clear_opt (pingTimeoutId s) (clear_opt (connectionTimeoutId s) (clear_opt (reconnectInterval s)
       (clear_opt (keepAliveInterval s) (timers s))))))"
  by (simp add: clearAllTimers_def)

lemma clearAll_fewer: "fewer (timers (clearAllTimers s)) (timers s)"
proof -
  have "fewer (clear_opt h t) u" if "fewer t u" for h t u
    using fewer_trans [OF fewer_clear_opt that] .
  then show ?thesis by (simp add: clearAll_timers)
qed

lemma clearAll_empty:
  assumes "slots_ok s"
  shows "ids_of is_connect (timers (clearAllTimers s)) = {}" "ids_of is_reconnect (timers (clearAllTimers s)) = {}"
    "ids_of is_heartbeat (timers (clearAllTimers s)) = {}" "ids_of is_keepalive (timers (clearAllTimers s)) = {}"
    "ids_of is_countdown (timers (clearAllTimers s)) = {}" "ids_of is_debounce (timers (clearAllTimers s)) = {}"
proof -
  note sl = assms [unfolded slots_ok_def slot_def]
  show "ids_of is_connect (timers (clearAllTimers s)) = {}" "ids_of is_reconnect (timers (clearAllTimers s)) = {}"
    "ids_of is_heartbeat (timers (clearAllTimers s)) = {}" "ids_of is_keepalive (timers (clearAllTimers s)) = {}"
    "ids_of is_countdown (timers (clearAllTimers s)) = {}" "ids_of is_debounce (timers (clearAllTimers s)) = {}"
    unfolding clearAll_timers ids_of_clear_opt using sl by blast+
qed

lemma inv_clearAll:
  assumes "inv_of cc s" shows "inv_of cc (clearAllTimers s)"
proof -
  have sl: "slots_ok s" using assms by (simp add: inv_of_def)
  note e = clearAll_empty [OF sl]
  have i: "inv_of cc (s\<lparr>timers := timers (clearAllTimers s)\<rparr>)" by (rule inv_fewer [OF assms clearAll_fewer])
  have c: "clearAllTimers s = s\<lparr>timers := timers (clearAllTimers s), keepAliveInterval := None, reconnectInterval := None,
      connectionTimeoutId := None, pingTimeoutId := None, resizeTimeout := None, terminalSessionCountdownInterval := None\<rparr>"
    by (simp add: clearAllTimers_def disarm_def)
  show ?thesis by (subst c) (use i e in \<open>simp add: inv_parts\<close>)
qed

lemma inv_resetCountdown: "inv_of cc s \<Longrightarrow> inv_of cc (resetTerminalSessionCountdown s)"
proof -
  assume inv: "inv_of cc s"
  let ?h = "terminalSessionCountdownInterval s"
  have "inv_of cc (disarm ?h s)" by (rule inv_disarm [OF inv])
  moreover have "ids_of is_countdown (timers (disarm ?h s)) = {}"
    using inv by (simp add: inv_of_def slots_ok_def slot_def)
  ultimately show ?thesis by (simp add: resetTerminalSessionCountdown_def inv_parts)
qed

lemma resetCountdown_sel [simp]:
  "sessionStartTimeoutId (resetTerminalSessionCountdown s) = sessionStartTimeoutId s"
  "connectionState (resetTerminalSessionCountdown s) = connectionState s"
  "reconnectAttempts (resetTerminalSessionCountdown s) = reconnectAttempts s"
  "authRejected (resetTerminalSessionCountdown s) = authRejected s"
  "pendingCommand (resetTerminalSessionCountdown s) = pendingCommand s"
  "fx (resetTerminalSessionCountdown s) = fx s" "starting (resetTerminalSessionCountdown s) = starting s"
  "terminalActive (resetTerminalSessionCountdown s) = terminalActive s"
  "socketLive (resetTerminalSessionCountdown s) = socketLive s"
  "socket (resetTerminalSessionCountdown s) = socket s" "readyState (resetTerminalSessionCountdown s) = readyState s"
  "reconnectInterval (resetTerminalSessionCountdown s) = reconnectInterval s"
  "timers (resetTerminalSessionCountdown s) = clear_opt (terminalSessionCountdownInterval s) (timers s)"
  "term (resetTerminalSessionCountdown s) = term s"
  by (simp_all add: resetTerminalSessionCountdown_def socketLive_iff)

lemma clearStart_sel [simp]:
  "connectionState (clearSessionStartTimeout s) = connectionState s" "reconnectAttempts (clearSessionStartTimeout s) = reconnectAttempts s"
  "authRejected (clearSessionStartTimeout s) = authRejected s" "socketLive (clearSessionStartTimeout s) = socketLive s"
  "socket (clearSessionStartTimeout s) = socket s" "readyState (clearSessionStartTimeout s) = readyState s"
  "nextSocket (clearSessionStartTimeout s) = nextSocket s" "reconnectInterval (clearSessionStartTimeout s) = reconnectInterval s"
  "pendingCommand (clearSessionStartTimeout s) = pendingCommand s" "fx (clearSessionStartTimeout s) = fx s"
  "heartbeatMissed (clearSessionStartTimeout s) = heartbeatMissed s" "starting (clearSessionStartTimeout s) = starting s"
  "terminalActive (clearSessionStartTimeout s) = terminalActive s" "term (clearSessionStartTimeout s) = term s"
  "timers (clearSessionStartTimeout s) = clear_opt (sessionStartTimeoutId s) (timers s)"
  by (simp_all add: clearSessionStartTimeout_def clear_opt_def split: option.split)

lemma effect_sel [simp]:
  "connectionState (effect es s) = connectionState s" "reconnectAttempts (effect es s) = reconnectAttempts s"
  "authRejected (effect es s) = authRejected s" "socket (effect es s) = socket s" "readyState (effect es s) = readyState s"
  "nextSocket (effect es s) = nextSocket s" "reconnectInterval (effect es s) = reconnectInterval s"
  "pendingCommand (effect es s) = pendingCommand s" "fx (effect es s) = fx s @ es" "timers (effect es s) = timers s"
  "heartbeatMissed (effect es s) = heartbeatMissed s" "starting (effect es s) = starting s"
  "terminalActive (effect es s) = terminalActive s" "term (effect es s) = term s"
  "sessionStartTimeoutId (effect es s) = sessionStartTimeoutId s" "connectionError (effect es s) = connectionError s"
  "pingTimeoutId (effect es s) = pingTimeoutId s" "keepAliveInterval (effect es s) = keepAliveInterval s"
  "paused (effect es s) = paused s" "pendingWrites (effect es s) = pendingWrites s"
  by (simp_all add: effect_def)

lemma fail_sel [simp]:
  "connectionState (failTerminalConnection m o' s) = connectionState s" "reconnectAttempts (failTerminalConnection m o' s) = reconnectAttempts s"
  "authRejected (failTerminalConnection m o' s) = authRejected s" "socketLive (failTerminalConnection m o' s) = socketLive s"
  "socket (failTerminalConnection m o' s) = socket s" "readyState (failTerminalConnection m o' s) = readyState s"
  "nextSocket (failTerminalConnection m o' s) = nextSocket s" "reconnectInterval (failTerminalConnection m o' s) = reconnectInterval s"
  "pendingCommand (failTerminalConnection m o' s) = pendingCommand s" "\<not> starting (failTerminalConnection m o' s)"
  "terminalActive (failTerminalConnection m o' s) = terminalActive s" "term (failTerminalConnection m o' s) = term s"
  "heartbeatMissed (failTerminalConnection m o' s) = heartbeatMissed s"
  "timers (failTerminalConnection m o' s) = clear_opt (sessionStartTimeoutId s) (timers s)"
  by (simp_all add: failTerminalConnection_def Let_def clearSessionStartTimeout_def clear_opt_def split: option.split)

definition env_ok :: "env \<Rightarrow> bool" where
  "env_ok v \<longleftrightarrow> 0 \<le> random1000 v \<and> random1000 v < 1000"

lemma delay_bounds:
  "env_ok v \<Longrightarrow> 1000 \<le> min (real baseReconnectDelay * 2 ^ n + random1000 v) (real maxReconnectDelay)
    \<and> min (real baseReconnectDelay * 2 ^ n + random1000 v) (real maxReconnectDelay) \<le> 30000"
proof -
  assume v: "env_ok v"
  have "(1 :: real) \<le> 2 ^ n" by simp
  then have "1000 \<le> 1000 * (2 :: real) ^ n" by linarith
  moreover have "0 \<le> random1000 v" using v by (simp add: env_ok_def)
  ultimately have "1000 \<le> 1000 * (2 :: real) ^ n + random1000 v" by linarith
  then show ?thesis by (simp add: baseReconnectDelay_def maxReconnectDelay_def)
qed

lemma inv_scheduleReconnect:
  assumes inv: "inv_of True s" and v: "env_ok v" and nl: "\<not> socketLive s" and ka: "ids_of is_keepalive (timers s) = {}"
  shows "inv_of True (scheduleReconnect v s)"
proof -
  have c: "inv_of True (s\<lparr>connectionState := CsReconnecting\<rparr>)"
    using inv ka by (simp add: inv_parts)
  have r: "reconnectInterval s = None \<Longrightarrow> ids_of is_reconnect (timers s) = {}"
    using inv by (simp add: inv_of_def slots_ok_def slot_def)
  show ?thesis
    unfolding scheduleReconnect_def
    using inv c r nl v delay_bounds [OF v, of "reconnectAttempts s"]
    by (simp add: inv_fail inv_arm_reconnect del: kinds)
qed

lemma inv_handleConnectionError:
  assumes "inv_of False s" "env_ok v" "\<not> socketLive s" "ids_of is_keepalive (timers s) = {}"
  shows "inv_of True (handleConnectionError v s)"
proof -
  have i: "inv_of True (s\<lparr>connectionState := CsDisconnected\<rparr>)"
    using assms(1,4) by (simp add: inv_parts)
  show ?thesis
    unfolding handleConnectionError_def Let_def
    by (rule inv_scheduleReconnect) (use i assms in \<open>simp_all add: inv_fail\<close>)
qed

lemma inv_new_socket:
  assumes "inv_of False s" "\<not> socketLive s" "ids_of is_reconnect (timers s) = {}" "ids_of is_keepalive (timers s) = {}"
  shows "inv_of True (s\<lparr>socket := Some (nextSocket s), readyState := (readyState s)(nextSocket s := WsConnecting),
     nextSocket := Suc (nextSocket s)\<rparr>)"
proof -
  have "readyState s i = WsClosed" for i
    using assms(1,2) unfolding inv_of_def socket_ok_def socketLive_iff by blast
  moreover have "socketLive (s\<lparr>socket := Some (nextSocket s), readyState := (readyState s)(nextSocket s := WsConnecting),
     nextSocket := Suc (nextSocket s)\<rparr>)" by (simp add: socketLive_iff)
  ultimately show ?thesis using assms by (simp add: inv_parts)
qed

lemma inv_initialize:
  assumes inv: "inv_of True s" and v: "env_ok v"
  shows "inv_of True (initializeWebSocket v s)"
proof (cases "socketLive s")
  case False
  let ?s = "clearAllTimers (s\<lparr>connectionState := CsConnecting\<rparr>)"
  have i: "inv_of False (s\<lparr>connectionState := CsConnecting\<rparr>)" using inv by (simp add: inv_parts)
  note b = inv_clearAll [OF i]
  have sl: "slots_ok (s\<lparr>connectionState := CsConnecting\<rparr>)" using i by (simp add: inv_of_def)
  note e = clearAll_empty [OF sl]
  have nl: "\<not> socketLive ?s" using False by simp
  show ?thesis
  proof (cases "socketThrows v")
    case True
    with False inv_handleConnectionError [OF b v nl e(4)] show ?thesis
      by (simp add: initializeWebSocket_def Let_def)
  next
    case f: False
    have n: "inv_of True (effect es (?s\<lparr>socket := Some (nextSocket ?s), readyState := (readyState ?s)(nextSocket ?s := WsConnecting),
        nextSocket := Suc (nextSocket ?s)\<rparr>))" for es
      using inv_new_socket [OF b nl e(2) e(4)] by simp
    show ?thesis
      using False f inv_arm_connect [OF n] e(1) by (simp add: initializeWebSocket_def Let_def)
  qed
qed (use inv in \<open>simp add: initializeWebSocket_def\<close>)

lemma inv_closeSocket: "inv_of cc s \<Longrightarrow> inv_of cc (closeSocket why s)"
proof -
  assume inv: "inv_of cc s"
  show ?thesis
  proof (cases "\<exists>i. socket s = Some i \<and> readyState s i \<noteq> WsClosing \<and> readyState s i \<noteq> WsClosed")
    case True
    then obtain i where i: "socket s = Some i" "readyState s i \<noteq> WsClosing" "readyState s i \<noteq> WsClosed" by blast
    let ?t = "s\<lparr>readyState := (readyState s)(i := WsClosing)\<rparr>"
    have l: "socketLive ?t = socketLive s" using i by (simp add: socketLive_iff)
    have "slots_ok ?t = slots_ok s" "heart_ok ?t = heart_ok s" by (simp_all add: slots_ok_def heart_ok_def)
    moreover have "retry_ok ?t = retry_ok s" "conn_ok ?t = conn_ok s" by (simp_all add: retry_ok_def conn_ok_def l)
    moreover have "socket_ok ?t"
    proof -
      have S: "\<And>j. readyState s j \<noteq> WsClosed \<Longrightarrow> socket s = Some j" "\<And>j. socket s = Some j \<Longrightarrow> j < nextSocket s"
        using inv unfolding inv_of_def socket_ok_def by blast+
      have "socket ?t = Some j" if "readyState ?t j \<noteq> WsClosed" for j
        using that S(1) [of j] i(1) by (cases "j = i") simp_all
      then show ?thesis unfolding socket_ok_def using S(2) by simp
    qed
    ultimately have "inv_of cc ?t" using inv by (simp add: inv_of_def)
    then show ?thesis using i by (simp add: closeSocket_def)
  next
    case False
    then have "closeSocket why s = s" by (auto simp: closeSocket_def split: option.split)
    with inv show ?thesis by simp
  qed
qed

lemma inv_connectTimedOut: "inv_of cc s \<Longrightarrow> inv_of cc (connectTimedOut s)"
  by (simp add: connectTimedOut_def inv_closeSocket inv_fail)

lemma inv_ensure:
  assumes inv: "inv_of True s" and v: "env_ok v" shows "inv_of True (ensureWebSocketConnection v s)"
proof -
  have "inv_of True (disarm (reconnectInterval s) s)" by (rule inv_disarm [OF inv])
  moreover have "ids_of is_reconnect (timers (disarm (reconnectInterval s) s)) = {}"
    using inv by (simp add: inv_of_def slots_ok_def slot_def)
  ultimately have "inv_of True ((disarm (reconnectInterval s) s)\<lparr>reconnectInterval := None, reconnectAttempts := 0\<rparr>)"
    by (simp add: inv_parts)
  then show ?thesis by (simp add: ensureWebSocketConnection_def inv inv_initialize [OF _ v])
qed

lemma inv_reconnectFires:
  assumes "inv_of True s" "env_ok v" "ids_of is_reconnect (timers s) = {}" "reconnectAttempts s < maxReconnectAttempts"
  shows "inv_of True (reconnectFires v s)"
  unfolding reconnectFires_def by (rule inv_initialize) (use assms in \<open>simp_all add: inv_parts\<close>)

lemma inv_resetPing:
  assumes inv: "inv_of cc s" and "heartbeatMissed s = 0" shows "inv_of cc (resetPingTimeout s)"
proof -
  have "ids_of is_heartbeat (timers (disarm (pingTimeoutId s) s)) = {}"
    using inv by (simp add: inv_of_def slots_ok_def slot_def)
  with inv_arm_ping [OF inv_disarm [OF inv]] assms(2) show ?thesis
    by (simp add: resetPingTimeout_def)
qed

lemma inv_heart_zero: "inv_of cc s \<Longrightarrow> inv_of cc (s\<lparr>heartbeatMissed := 0\<rparr>)"
  by (simp add: inv_parts)

lemma inv_pingTimedOut:
  assumes inv: "inv_of cc s" and p: "ids_of is_ping (timers s) = {}" and h: "heartbeatMissed s = 0"
  shows "inv_of cc (pingTimedOut s)"
proof -
  have "inv_of cc (s\<lparr>heartbeatMissed := Suc (heartbeatMissed s)\<rparr>)"
    using inv p h by (simp add: inv_parts)
  then show ?thesis unfolding pingTimedOut_def Let_def by (simp add: inv_closeSocket)
qed

lemma inv_keepAlive: "inv_of True s \<Longrightarrow> env_ok v \<Longrightarrow> inv_of True (keepAlive v s)"
  by (simp add: keepAlive_def inv_initialize)

lemma inv_attempts_zero: "inv_of cc s \<Longrightarrow> inv_of cc (s\<lparr>reconnectAttempts := 0\<rparr>)"
  by (simp add: inv_parts maxReconnectAttempts_def)

lemma sendMessage_sel [simp]:
  "connectionState (sendMessage m s) = connectionState s" "reconnectAttempts (sendMessage m s) = reconnectAttempts s"
  "authRejected (sendMessage m s) = authRejected s" "socket (sendMessage m s) = socket s"
  "readyState (sendMessage m s) = readyState s" "nextSocket (sendMessage m s) = nextSocket s"
  "reconnectInterval (sendMessage m s) = reconnectInterval s" "pendingCommand (sendMessage m s) = pendingCommand s"
  "timers (sendMessage m s) = timers s" "heartbeatMissed (sendMessage m s) = heartbeatMissed s"
  "starting (sendMessage m s) = starting s" "terminalActive (sendMessage m s) = terminalActive s"
  "term (sendMessage m s) = term s" "sessionStartTimeoutId (sendMessage m s) = sessionStartTimeoutId s"
  "pingTimeoutId (sendMessage m s) = pingTimeoutId s" "keepAliveInterval (sendMessage m s) = keepAliveInterval s"
  "connectionTimeoutId (sendMessage m s) = connectionTimeoutId s" "socketLive (sendMessage m s) = socketLive s"
  "paused (sendMessage m s) = paused s" "pendingWrites (sendMessage m s) = pendingWrites s"
  by (simp_all add: sendMessage_def effect_def split: option.split)

lemma inv_clear_ping:
  assumes inv: "inv_of cc s" and "pingTimeoutId s = Some i"
  shows "inv_of cc ((disarm (Some i) s)\<lparr>pingTimeoutId := None\<rparr>)"
proof -
  have "ids_of is_heartbeat (timers (disarm (Some i) s)) = {}"
    using assms by (simp add: inv_of_def slots_ok_def slot_def)
  with inv_disarm [OF inv, of "Some i"] show ?thesis by (simp add: inv_parts)
qed

lemma inv_visibility:
  assumes inv: "inv_of True s" and v: "env_ok v" shows "inv_of True (handleVisibilityChange v s)"
proof -
  let ?s = "s\<lparr>isDocumentVisible := \<not> hidden v\<rparr>"
  have i: "inv_of True ?s" using inv by simp
  let ?p = "sendMessage (obj ''ping'' (JBool True)) (?s\<lparr>heartbeatMissed := 0\<rparr>)"
  have p: "inv_of True ?p" using inv_heart_zero [OF i] by simp
  have e: "ids_of is_heartbeat (timers (disarm (pingTimeoutId ?p) ?p)) = {}"
    using inv by (simp add: inv_of_def slots_ok_def slot_def)
  show ?thesis
    unfolding handleVisibilityChange_def Let_def
    using i inv_arm_probe [OF inv_disarm [OF p] e] inv_initialize [OF inv_attempts_zero [OF i] v]
    by (cases "hidden v"; cases "pingTimeoutId s") (simp_all add: inv inv_clear_ping)
qed

section \<open>Socket events\<close>

lemma inv_opened:
  assumes inv: "inv_of True s" and r: "readyState s i = WsConnecting"
  shows "inv_of True (s\<lparr>readyState := (readyState s)(i := WsOpen)\<rparr>) \<and> socketLive (s\<lparr>readyState := (readyState s)(i := WsOpen)\<rparr>)
    \<and> socket s = Some i"
proof -
  let ?t = "s\<lparr>readyState := (readyState s)(i := WsOpen)\<rparr>"
  have S: "\<And>j. readyState s j \<noteq> WsClosed \<Longrightarrow> socket s = Some j" "\<And>j. socket s = Some j \<Longrightarrow> j < nextSocket s"
    using inv unfolding inv_of_def socket_ok_def by blast+
  have si: "socket s = Some i" using S(1) [of i] r by simp
  have l: "socketLive ?t" "socketLive s" using si r by (simp_all add: socketLive_iff)
  have "slots_ok ?t = slots_ok s" "heart_ok ?t = heart_ok s" by (simp_all add: slots_ok_def heart_ok_def)
  moreover have "retry_ok ?t = retry_ok s" "conn_ok ?t = conn_ok s" using l by (simp_all add: retry_ok_def conn_ok_def)
  moreover have "socket_ok ?t"
  proof -
    have "socket ?t = Some j" if "readyState ?t j \<noteq> WsClosed" for j
      using that S(1) [of j] si by (cases "j = i") simp_all
    then show ?thesis unfolding socket_ok_def using S(2) by simp
  qed
  ultimately show ?thesis using inv l(1) si by (simp add: inv_of_def)
qed

lemma inv_clear_connect:
  assumes inv: "inv_of cc s" and "connectionTimeoutId s = Some i"
  shows "inv_of cc ((disarm (Some i) s)\<lparr>connectionTimeoutId := None\<rparr>)"
proof -
  have "ids_of is_connect (timers (disarm (Some i) s)) = {}"
    using assms by (simp add: inv_of_def slots_ok_def slot_def)
  with inv_disarm [OF inv, of "Some i"] show ?thesis by (simp add: inv_parts)
qed

lemma inv_handleOpen:
  assumes inv: "inv_of True s" and live: "socketLive s"
  shows "inv_of True (handleSocketOpen v s)"
proof -
  let ?s1 = "s\<lparr>connectionState := CsConnected, reconnectAttempts := 0, heartbeatMissed := 0, lastPingTime := Some (now v)\<rparr>"
  have i1: "inv_of True ?s1"
    using inv live by (simp add: inv_parts maxReconnectAttempts_def)
  define s2 where "s2 = (case connectionTimeoutId ?s1 of None \<Rightarrow> ?s1 | Some i \<Rightarrow> (disarm (Some i) ?s1)\<lparr>connectionTimeoutId := None\<rparr>)"
  have i2: "inv_of True s2" "connectionState s2 = CsConnected" "heartbeatMissed s2 = 0"
    unfolding s2_def using i1 inv_clear_connect [OF i1] by (cases "connectionTimeoutId ?s1"; simp)+
  define s3 where "s3 = (case pendingCommand s2 of None \<Rightarrow> s2
      | Some c \<Rightarrow> (sendMessage c s2)\<lparr>pendingCommand := None, connectionError := None, starting := True\<rparr>)"
  have i3: "inv_of True s3" "connectionState s3 = CsConnected" "heartbeatMissed s3 = 0"
    unfolding s3_def using i2 by (cases "pendingCommand s2"; simp)+
  define s4 where "s4 = (if keepAliveInterval s3 = None then arm TKeepAlive (\<lambda>i s. s\<lparr>keepAliveInterval := i\<rparr>) s3 else s3)"
  have "keepAliveInterval s3 = None \<Longrightarrow> ids_of is_keepalive (timers s3) = {}"
    using i3(1) by (simp add: inv_of_def slots_ok_def slot_def)
  then have i4: "inv_of True s4" "heartbeatMissed s4 = 0"
    unfolding s4_def using i3 inv_arm_keepalive [OF i3(1)] by (simp_all add: arm_eq del: kinds)
  have "handleSocketOpen v s = effect [DomEvent ''terminal-websocket-ready''] (resetPingTimeout s4)"
    by (simp only: handleSocketOpen_def Let_def s2_def s3_def s4_def)
  then show ?thesis using inv_resetPing [OF i4] by simp
qed

lemma inv_closed:
  assumes inv: "inv_of True s" and r: "readyState s i \<noteq> WsClosed"
  shows "inv_of False (s\<lparr>readyState := (readyState s)(i := WsClosed)\<rparr>)
    \<and> \<not> socketLive (s\<lparr>readyState := (readyState s)(i := WsClosed)\<rparr>)"
proof -
  let ?t = "s\<lparr>readyState := (readyState s)(i := WsClosed)\<rparr>"
  have S: "\<And>j. readyState s j \<noteq> WsClosed \<Longrightarrow> socket s = Some j" "\<And>j. socket s = Some j \<Longrightarrow> j < nextSocket s"
    using inv unfolding inv_of_def socket_ok_def by blast+
  have si: "socket s = Some i" by (rule S(1) [OF r])
  have nl: "\<not> socketLive ?t" using si by (simp add: socketLive_iff)
  have l: "socketLive s" using si r by (simp add: socketLive_iff)
  have "slots_ok ?t = slots_ok s" "heart_ok ?t = heart_ok s" by (simp_all add: slots_ok_def heart_ok_def)
  moreover have "retry_ok ?t" using inv l nl by (simp add: inv_of_def retry_ok_def)
  moreover have "socket_ok ?t"
  proof -
    have "socket ?t = Some j" if "readyState ?t j \<noteq> WsClosed" for j
      using that S(1) [of j] by (cases "j = i") simp_all
    then show ?thesis unfolding socket_ok_def using S(2) by simp
  qed
  ultimately show ?thesis using inv nl by (simp add: inv_of_def)
qed

lemma inv_resetTerminal: "inv_of cc s \<Longrightarrow> inv_of cc (resetTerminal s)"
  by (simp add: resetTerminal_def inv_resetCountdown split: option.split)

lemma resetTerminal_sel [simp]:
  "socketLive (resetTerminal s) = socketLive s" "authRejected (resetTerminal s) = authRejected s"
  "reconnectAttempts (resetTerminal s) = reconnectAttempts s"
  "ids_of P (timers s) = {} \<Longrightarrow> ids_of P (timers (resetTerminal s)) = {}"
  by (simp_all add: resetTerminal_def later_def split: option.split)

lemma later_sel [simp]:
  "timers (later k s) = timers s" "connectionState (later k s) = connectionState s"
  "terminalActive (later k s) = terminalActive s" "authRejected (later k s) = authRejected s"
  "pendingCommand (later k s) = pendingCommand s" "fx (later k s) = fx s" "starting (later k s) = starting s"
  "heartbeatMissed (later k s) = heartbeatMissed s" "socket (later k s) = socket s" "term (later k s) = term s"
  "readyState (later k s) = readyState s" "nextSocket (later k s) = nextSocket s"
  by (simp_all add: later_def)

lemma inv_handleClose:
  assumes inv: "inv_of False s" and nl: "\<not> socketLive s" and v: "env_ok v"
  shows "inv_of True (handleSocketClose v c s)"
proof -
  let ?d = "s\<lparr>connectionState := CsDisconnected\<rparr>"
  have i: "inv_of False ?d" using inv by (simp add: inv_parts)
  have sl: "slots_ok ?d" using i by (simp add: inv_of_def)
  note e = clearAll_empty [OF sl]
  let ?s = "resetTerminalSessionCountdown (clearAllTimers ?d)"
  have k: "ids_of is_keepalive (timers ?s) = {}" "ids_of is_reconnect (timers ?s) = {}" using e by simp_all
  have l: "\<not> socketLive ?s" using nl by simp
  have "inv_of False ?s" by (rule inv_resetCountdown [OF inv_clearAll [OF i]])
  then have t: "inv_of True ?s" using k l by (simp add: inv_parts)
  have rej: "inv_of True (?s\<lparr>authRejected := True\<rparr>)" using t k by (simp add: inv_parts)
  have ex: "inv_of cc (client_exitFullscreen v x) = inv_of cc x" for cc x by (simp add: client_exitFullscreen_def)
  show ?thesis
    unfolding handleSocketClose_def Let_def
    using t rej k l v
    by (auto simp: inv_fail ex inv_resetTerminal intro!: inv_scheduleReconnect split: option.split)
qed

section \<open>Every callback keeps the invariant\<close>

lemma inv_resize: "inv_of cc s \<Longrightarrow> inv_of cc (resizeTerminal v s)"
  by (simp add: resizeTerminal_def Let_def inv_once split: option.split prod.split)

lemma inv_updateInset: "inv_of cc s \<Longrightarrow> inv_of cc (updateInset v s)"
  by (simp add: updateInset_def Let_def)

lemma inv_settle: "inv_of cc s \<Longrightarrow> inv_of cc (syncKeyboardInset v s)"
proof -
  assume inv: "inv_of cc s"
  have i: "inv_of cc (updateInset v s)" by (rule inv_updateInset [OF inv])
  then have "ids_of is_settle (timers (disarm (keyboardInsetSettleTimeout (updateInset v s)) (updateInset v s))) = {}"
    by (simp add: inv_of_def slots_ok_def slot_def)
  with inv_arm_settle [OF inv_disarm [OF i]] show ?thesis by (simp add: syncKeyboardInset_def Let_def)
qed

lemma inv_exitFs: "inv_of cc s \<Longrightarrow> inv_of cc (client_exitFullscreen v s)"
  by (simp add: client_exitFullscreen_def)

lemma inv_debounce: "inv_of cc s \<Longrightarrow> inv_of cc (onWrapperResized s)"
proof -
  assume inv: "inv_of cc s"
  have "ids_of is_debounce (timers (disarm (resizeTimeout s) s)) = {}"
    using inv by (simp add: inv_of_def slots_ok_def slot_def)
  with inv_arm_debounce [OF inv_disarm [OF inv]] inv show ?thesis by (simp add: onWrapperResized_def)
qed

lemma inv_startCountdown: "inv_of cc s \<Longrightarrow> inv_of cc (startTerminalSessionCountdown v s)"
proof -
  assume inv: "inv_of cc s"
  let ?r = "(resetTerminalSessionCountdown s)\<lparr>terminalSessionStartedAt := Some (now v)\<rparr>"
  have i: "inv_of cc (updateTerminalSessionCountdown v ?r)"
    using inv_resetCountdown [OF inv] by (simp add: updateTerminalSessionCountdown_def split: option.split)
  have "ids_of is_countdown (timers (updateTerminalSessionCountdown v ?r)) = {}"
    using inv by (simp add: updateTerminalSessionCountdown_def inv_of_def slots_ok_def slot_def split: option.split)
  with inv_arm_countdown [OF i] show ?thesis by (simp add: startTerminalSessionCountdown_def)
qed

lemma inv_ptyReady: "inv_of cc s \<Longrightarrow> inv_of cc (on_pty_ready v s)"
proof -
  assume "inv_of cc s"
  then have i: "inv_of cc (completeTerminalSessionStart s)" by (rule start_fields.keeps_complete)
  then show ?thesis
    unfolding on_pty_ready_def Let_def
    by (cases "term (completeTerminalSessionStart s)") (simp_all add: inv_once inv_resize inv_startCountdown)
qed

lemma inv_message: "inv_of cc s \<Longrightarrow> inv_of cc (handleSocketMessage v d s)"
proof -
  assume inv: "inv_of cc s"
  have p: "inv_of cc (resetPingTimeout (s\<lparr>heartbeatMissed := 0, lastPingTime := Some (now v)\<rparr>))"
    by (rule inv_resetPing) (use inv_heart_zero [OF inv] in simp_all)
  have u: "inv_of cc (on_unprocessable s)"
    using inv_clearSessionStart [of cc "s\<lparr>starting := False\<rparr>"] inv
    by (simp add: on_unprocessable_def Let_def inv_resetCountdown split: option.split)
  have x: "inv_of cc (on_pty_exited v s)"
    using inv by (simp add: on_pty_exited_def Let_def inv_resetCountdown inv_exitFs split: option.split)
  have r: "inv_of cc (on_rejection k t s)" for k t
    using inv by (simp add: on_rejection_def inv_fail inv_resetCountdown)
  have w: "inv_of cc (write_output v d s)" using inv by (simp add: write_output_def)
  show ?thesis
    unfolding handleSocketMessage_def using inv p u x r w inv_ptyReady [OF inv]
    by (cases d; cases "classifyTerminalServerMessage d") simp_all
qed

lemma inv_flow: "inv_of cc s \<Longrightarrow> inv_of cc (flowControlCallback s)"
  by (simp add: flowControlCallback_def Let_def)

lemma inv_input: "inv_of cc s \<Longrightarrow> inv_of cc (sendTerminalInput t s)"
  by (simp add: sendTerminalInput_def)

interpretation start_host: session_host "inv_of True" env_ok ensureWebSocketConnection
proof unfold_locales
  show "inv_of True (s\<lparr>starting := True, connectionError := None, authRejected := False\<rparr>)" if "inv_of True s" for s
    using that by (simp add: inv_parts)
qed (simp_all add: inv_armStart inv_ensure)

lemma inv_command: "inv_of cc s \<Longrightarrow> inv_of cc (sendCommandWhenReady m s)"
  by (simp add: sendCommandWhenReady_def)

lemma inv_tick: "inv_of cc s \<Longrightarrow> inv_of cc (run_tick v k s)"
  by (simp add: run_tick_def Let_def inv_resize inv_once split: tick.split)

lemma inv_cleanup:
  assumes inv: "inv_of True s" shows "inv_of True (cleanup v s)"
proof -
  let ?s1 = "checkIfProcessIsRunningAndKillIt (disarm (keyboardInsetSettleTimeout s) s)"
  have i1: "inv_of True ?s1" using inv_disarm [OF inv] by (simp add: checkIfProcessIsRunningAndKillIt_def)
  have i2: "inv_of True (clearSessionStartTimeout (clearAllTimers ?s1))"
    by (rule inv_clearSessionStart [OF inv_clearAll [OF i1]])
  have sl: "slots_ok ?s1" using i1 by (simp add: inv_of_def)
  have "ids_of is_keepalive (timers (clearSessionStartTimeout (clearAllTimers ?s1))) = {}"
    using clearAll_empty(4) [OF sl] by simp
  with i2 have i3: "inv_of True ((clearSessionStartTimeout (clearAllTimers ?s1))\<lparr>connectionState := CsDisconnected\<rparr>)"
    by (simp add: inv_parts)
  show ?thesis
    unfolding cleanup_def Let_def
    using i3 by (simp add: inv_disarm inv_closeSocket inv_exitFs inv_resetCountdown)
qed

definition event_ok :: "client_event \<Rightarrow> bool" where
  "event_ok e = (case e of
     TimerFires v i \<Rightarrow> env_ok v | SocketClosed v i f c \<Rightarrow> env_ok v | TokenIssued v t \<Rightarrow> env_ok v
   | StartRequested v \<Rightarrow> env_ok v | VisibilityChange v \<Rightarrow> env_ok v | _ \<Rightarrow> True)"

lemma fired_alone:
  assumes "slot P h (timers s)" "map_of (armed (timers s)) i = Some k" "P k"
  shows "ids_of P (clear_timer i (timers s)) = {}" "h = Some i"
proof -
  have "i \<in> ids_of P (timers s)" using assms(2,3) by (force simp: ids_of_def dest: map_of_SomeD)
  with assms(1) show "ids_of P (clear_timer i (timers s)) = {}" "h = Some i"
    unfolding slot_def by (cases h; auto)+
qed

lemma inv_timer:
  assumes inv: "inv_of True s" and m: "map_of (armed (timers s)) i = Some k" and v: "env_ok v"
  shows "inv_of True (run_timer v k (if is_interval k then s else s\<lparr>timers := clear_timer i (timers s)\<rparr>))"
proof -
  let ?t = "s\<lparr>timers := clear_timer i (timers s)\<rparr>"
  have t: "inv_of True ?t" by (rule inv_fewer [OF inv fewer_clear])
  from inv have slots: "slots_ok s" and heart: "heart_ok s" and retry: "retry_ok s" by (simp_all add: inv_of_def)
  have mem: "i \<in> ids_of P (timers s)" if "P k" for P
    using m that by (force simp: ids_of_def dest: map_of_SomeD)
  show ?thesis
  proof (cases k)
    case TSessionStart
    have "ids_of is_start (timers ?t) = {}"
      using fired_alone(1) [OF _ m, of is_start "sessionStartTimeoutId s"] slots TSessionStart
      by (simp add: slots_ok_def)
    then have "inv_of True (?t\<lparr>sessionStartTimeoutId := None\<rparr>)" using t by (simp add: inv_parts)
    with TSessionStart show ?thesis
      by (simp add: run_timer_def start_fields.keeps_timedOut)
  next
    case (TReconnect d)
    have e: "ids_of is_reconnect (timers ?t) = {}"
      using fired_alone(1) [OF _ m, of is_reconnect "reconnectInterval s"] slots TReconnect
      by (simp add: slots_ok_def)
    have "reconnectAttempts s < maxReconnectAttempts"
      using retry mem [of is_reconnect] TReconnect by (auto simp: retry_ok_def)
    with TReconnect inv_reconnectFires [OF t v e] show ?thesis by (simp add: run_timer_def)
  next
    case TPing
    have "ids_of is_heartbeat (timers ?t) = {}"
      using fired_alone(1) [OF _ m, of is_heartbeat "pingTimeoutId s"] slots TPing by (simp add: slots_ok_def)
    then have e: "ids_of is_ping (timers ?t) = {}" by (auto simp: ids_of_def)
    have "heartbeatMissed ?t = 0" using heart mem [of is_ping] TPing by (auto simp: heart_ok_def)
    with TPing inv_pingTimedOut [OF t e] show ?thesis by (simp add: run_timer_def)
  next
    case TCountdown
    with inv show ?thesis by (simp add: run_timer_def updateTerminalSessionCountdown_def split: option.split)
  qed (use t inv v in \<open>simp_all add: run_timer_def inv_initialize inv_connectTimedOut inv_closeSocket inv_keepAlive
      inv_resize inv_once inv_updateInset focusWhenReady_def\<close>)
qed

lemma inv_step:
  assumes inv: "inv_of True s" and e: "event_ok e" shows "inv_of True (client_step s e)"
proof (cases e)
  case (TimerFires v i)
  with e inv_timer [OF inv] inv show ?thesis by (simp add: event_ok_def split: option.split)
next
  case (SocketOpened v i)
  with inv inv_opened [OF inv, of i] inv_handleOpen show ?thesis by simp
next
  case (SocketClosed v i f c)
  show ?thesis
  proof (cases "i < nextSocket s \<and> readyState s i \<noteq> WsClosed")
    case True
    let ?s = "s\<lparr>readyState := (readyState s)(i := WsClosed)\<rparr>"
    have s1: "inv_of False ?s" "\<not> socketLive ?s" using inv_closed [OF inv] True by blast+
    have "inv_of False (if f then handleSocketError ?s else ?s)"
      "\<not> socketLive (if f then handleSocketError ?s else ?s)"
      using s1 by (simp_all add: handleSocketError_def inv_fail)
    from inv_handleClose [OF this] True SocketClosed e show ?thesis by (simp add: event_ok_def Let_def)
  qed (use inv SocketClosed in auto)
next
  case (SessionFailed m)
  with start_fields.keeps_failStart [OF inv] show ?thesis by simp
next
  case AutoStartCancelled
  with start_fields.keeps_cancel [OF inv] show ?thesis by simp
next
  case (TokenIssued v t)
  with inv e show ?thesis by (simp add: onTerminalToken_def event_ok_def inv_command start_host.keeps_begin)
next
  case (NextTick v)
  with inv show ?thesis by (simp add: inv_tick split: list.split)
qed (use inv e in \<open>simp_all add: event_ok_def inv_message start_host.keeps_begin inv_visibility inv_resize inv_settle inv_debounce
    inv_flow inv_once focusWhenReady_def watchTerminalActive_def Let_def inv_disarm on_term_data_def on_custom_key_def
    sendTerminalControl_def toggleTerminalModifier_def sendTerminalKey_def inv_input pasteFromClipboard_def
    copyTerminalSelection_def client_makeFullscreen_def client_enterFullscreen_def inv_exitFs inv_cleanup destroy_def
    inv_clearSessionStart split: option.split clipboard.split\<close>)

section \<open>Start states\<close>

definition client_start :: "client \<Rightarrow> bool" where
  "client_start s \<longleftrightarrow> (\<exists>v a el ob pg th. s = client_init v a el ob (terminalData pg th))"

lemma inv_terminalData: "inv_of True (terminalData pg th)"
  by (simp add: terminalData_def inv_parts socketLive_iff no_timers_def ids_of_def maxReconnectAttempts_def)

lemma inv_client_start: "client_start s \<Longrightarrow> inv_of True s"
proof -
  assume "client_start s"
  then obtain v a el ob pg th where s: "s = client_init v a el ob (terminalData pg th)"
    unfolding client_start_def by blast
  have "inv_of True ((terminalData pg th)\<lparr>starting := a\<rparr>)" using inv_terminalData by simp
  then show ?thesis
    unfolding s client_init_def Let_def
    by (simp add: setupTerminal_def inv_once inv_updateInset inv_armStart)
qed

interpretation terminal: event_machine client_start "\<lambda>_ e. event_ok e" client_step "inv_of True"
  by unfold_locales (simp_all add: inv_client_start inv_step)

lemma client_run_inv: "client_start s \<Longrightarrow> list_all event_ok es \<Longrightarrow> inv_of True (run client_step s es)"
  by (rule terminal.inv_run_enabled) (simp_all add: inv_client_start)

end
