(* ===== verification/ClientTraffic.thy ===== *)
theory ClientTraffic
  imports ClientSafety
begin

text \<open>
  What the terminal component sends: which frames, how often a single-use token, and when a
  socket may be opened.
\<close>

section \<open>Quiet operations\<close>

text \<open>The frames of the component that carry no token.\<close>

definition plain_frame :: "json \<Rightarrow> bool" where
  "plain_frame m \<longleftrightarrow>
     (\<exists>d. m = obj ''message'' (JStr d)) \<or> m = obj ''ping'' (JBool True) \<or> m = obj ''pause'' (JBool True)
     \<or> m = obj ''resume'' (JBool True) \<or> m = obj ''checkActive'' (JStr ''force'')
     \<or> (\<exists>c r. m = obj ''resize'' (JObj [(''cols'', JNum c), (''rows'', JNum r)]))"

definition quiet_effect :: "string set \<Rightarrow> client_effect \<Rightarrow> bool" where
  "quiet_effect W e \<longleftrightarrow> (case e of Send i m \<Rightarrow> plain_frame m | TermWrite t \<Rightarrow> t \<in> W | _ \<Rightarrow> True)"

text \<open>The text a frame writes to the terminal: every text frame that is no control word and no message of
  the server.\<close>

definition shown_text :: "ws_data \<Rightarrow> string option" where
  "shown_text d =
     (case d of
        OtherFrame \<Rightarrow> None
      | TextFrame t \<Rightarrow>
          if t \<in> {''pong'', ''pty-ready'', ''unprocessable'', ''pty-exited''} \<or> classifyTerminalServerMessage d \<noteq> None
          then None else Some t)"

definition shown_by :: "client_event \<Rightarrow> string set" where
  "shown_by e = (case e of SocketMessage v i d \<Rightarrow> set_option (shown_text d) | _ \<Rightarrow> {})"

definition is_initial :: "client_timer \<Rightarrow> bool" where
  [simp]: "is_initial k \<longleftrightarrow> k = TInitialConnect"

text \<open>\<open>quiet W b s t\<close>: from \<open>s\<close> to \<open>t\<close> no token is sent or stored, nothing but texts of \<open>W\<close> is written
  to the terminal, no rejection is forgotten, the first connection is not scheduled again, no socket's
  state goes back and, if \<open>b\<close>, no socket is opened.\<close>

definition forward :: "client \<Rightarrow> client \<Rightarrow> bool" where
  "forward s t \<longleftrightarrow> nextSocket s \<le> nextSocket t \<and> (\<forall>i < nextSocket s. readyState s i \<le> readyState t i)"

lemma forward_refl [simp]: "readyState t = readyState s \<Longrightarrow> nextSocket t = nextSocket s \<Longrightarrow> forward s t"
  by (simp add: forward_def)

lemma forward_trans: "forward s t \<Longrightarrow> forward t u \<Longrightarrow> forward s u"
  unfolding forward_def by (meson less_le_trans order_trans)

definition quiet :: "string set \<Rightarrow> bool \<Rightarrow> client \<Rightarrow> client \<Rightarrow> bool" where
  "quiet W b s t \<longleftrightarrow>
     (\<exists>es. fx t = fx s @ es \<and> list_all (quiet_effect W) es)
     \<and> (pendingCommand t = pendingCommand s \<or> pendingCommand t = None)
     \<and> (authRejected s \<longrightarrow> authRejected t)
     \<and> ids_of is_initial (timers t) \<subseteq> ids_of is_initial (timers s)
     \<and> forward s t
     \<and> (b \<longrightarrow> nextSocket t = nextSocket s)"

lemma quiet_refl: "fx t = fx s \<Longrightarrow> pendingCommand t = pendingCommand s \<or> pendingCommand t = None \<Longrightarrow>
    authRejected s \<longrightarrow> authRejected t \<Longrightarrow> ids_of is_initial (timers t) \<subseteq> ids_of is_initial (timers s) \<Longrightarrow>
    nextSocket t = nextSocket s \<Longrightarrow> readyState t = readyState s \<Longrightarrow> quiet W b s t"
  by (simp add: quiet_def forward_refl)

lemma fewer_initial [simp]: "A \<subseteq> C \<Longrightarrow> A - B \<subseteq> C"
  by blast

lemma clearAll_initial [simp]:
  "timers u = timers s \<Longrightarrow> ids_of P (timers (clearAllTimers u)) \<subseteq> ids_of P (timers s)"
  using clearAll_fewer [of u] by (simp add: fewer_def)

lemma quiet_trans: "quiet W b s t \<Longrightarrow> quiet W b t u \<Longrightarrow> quiet W b s u"
  unfolding quiet_def by (elim conjE exE) (auto simp: list_all_append intro: forward_trans)

lemma quiet_weaken: "quiet W True s t \<Longrightarrow> quiet W b s t"
  by (simp add: quiet_def)

lemma quiet_effects: "list_all (quiet_effect W) es \<Longrightarrow> quiet W b s (effect es s)"
  by (simp add: quiet_def)

lemma quiet_send: "plain_frame m \<Longrightarrow> quiet W b s (sendMessage m s)"
  by (auto simp: sendMessage_def quiet_def quiet_effect_def split: option.split)

lemma plain_frames [simp]:
  "plain_frame (obj ''message'' (JStr d))" "plain_frame (obj ''ping'' (JBool True))"
  "plain_frame (obj ''pause'' (JBool True))" "plain_frame (obj ''resume'' (JBool True))"
  "plain_frame (obj ''checkActive'' (JStr ''force''))"
  "plain_frame (obj ''resize'' (JObj [(''cols'', JNum c), (''rows'', JNum r)]))"
  by (simp_all add: plain_frame_def obj_def)

text \<open>A composition of quiet steps from a state that agrees with the first on what matters.\<close>

lemma quiet_from:
  "quiet W b t u \<Longrightarrow> fx t = fx s \<Longrightarrow> pendingCommand t = pendingCommand s \<or> pendingCommand t = None \<Longrightarrow>
   authRejected s \<longrightarrow> authRejected t \<Longrightarrow> ids_of is_initial (timers t) \<subseteq> ids_of is_initial (timers s) \<Longrightarrow>
   nextSocket t = nextSocket s \<Longrightarrow> readyState t = readyState s \<Longrightarrow> quiet W b s u"
  by (rule quiet_trans [OF quiet_refl])

lemma quiet_to:
  "quiet W b s t \<Longrightarrow> fx u = fx t \<Longrightarrow> pendingCommand u = pendingCommand t \<or> pendingCommand u = None \<Longrightarrow>
   authRejected t \<longrightarrow> authRejected u \<Longrightarrow> ids_of is_initial (timers u) \<subseteq> ids_of is_initial (timers t) \<Longrightarrow>
   nextSocket u = nextSocket t \<Longrightarrow> readyState u = readyState t \<Longrightarrow> quiet W b s u"
  by (rule quiet_trans [OF _ quiet_refl])

text \<open>The methods of the session start are quiet.\<close>

interpretation quiet_fields: session_fields "quiet W b s" for W b s
proof unfold_locales
  show "quiet W b s (effect [Dispatch ''error'' m] t)" if "quiet W b s t" for t m
    by (rule quiet_trans [OF that quiet_effects]) (simp add: quiet_effect_def)
qed (erule quiet_to; simp)+

lemma quiet_fail: "quiet W b s (failTerminalConnection m o' s)"
  by (rule quiet_fields.keeps_fail) (simp add: quiet_refl)

lemma quiet_resize: "quiet W b s (resizeTerminal v s)"
proof -
  have "quiet W b s (sendMessage (obj ''resize'' (JObj [(''cols'', JNum (int c)), (''rows'', JNum (int r))])) (s\<lparr>term := x\<rparr>))"
    for c r x by (rule quiet_from [OF quiet_send]) simp_all
  moreover have "quiet W b s (once TResizeOnce s)" by (simp add: once_def arm_eq quiet_refl)
  ultimately show ?thesis
    by (auto simp: resizeTerminal_def Let_def intro: quiet_refl split: option.split prod.split)
qed

lemma quiet_schedule: "quiet W b s (scheduleReconnect v s)"
  by (auto simp: scheduleReconnect_def arm_eq intro: quiet_refl quiet_from [OF quiet_fail])

lemma quiet_connError: "quiet W b s (handleConnectionError v s)"
proof -
  have "quiet W b s (if isTerminalSessionPending t \<or> 2 \<le> reconnectAttempts t then failTerminalConnection m o' t else t)"
    if "t = s\<lparr>connectionState := CsDisconnected\<rparr>" for t m o'
    using that by (auto intro: quiet_refl quiet_from [OF quiet_fail])
  from quiet_trans [OF this quiet_schedule] show ?thesis by (simp add: handleConnectionError_def Let_def)
qed

lemma quiet_initialize: "quiet W False s (initializeWebSocket v s)"
proof -
  have "quiet W False s (handleConnectionError v (clearAllTimers (s\<lparr>connectionState := CsConnecting\<rparr>)))"
    by (rule quiet_from [OF quiet_connError]) simp_all
  then show ?thesis
    by (auto simp: initializeWebSocket_def Let_def arm_eq quiet_def quiet_effect_def forward_def)
qed

lemma quiet_close: "quiet W b s (closeSocket why s)"
  by (auto simp: closeSocket_def quiet_def quiet_effect_def forward_def split: option.split)

lemma resetCountdown_next [simp]: "nextSocket (resetTerminalSessionCountdown s) = nextSocket s"
  by (simp add: resetTerminalSessionCountdown_def)

lemma quiet_update [simp]:
  "quiet W b s (clearSessionStartTimeout s)" "quiet W b s (clearAllTimers s)" "quiet W b s (disarm h s)"
  "quiet W b s (resetTerminalSessionCountdown s)" "quiet W b s (later k s)" "quiet W b s s"
  by (simp_all add: quiet_refl)

lemma quiet_once: "\<not> is_initial k \<Longrightarrow> quiet W b s (once k s)"
  by (simp add: once_def arm_eq quiet_refl)

lemma quiet_inset: "quiet W b s (updateInset v s)"
  by (simp add: updateInset_def Let_def quiet_refl)

lemma quiet_exitFs: "quiet W b s (client_exitFullscreen v s)"
  by (simp add: client_exitFullscreen_def quiet_refl)

lemma quiet_settle: "quiet W b s (syncKeyboardInset v s)"
  by (rule quiet_to [OF quiet_inset]) (simp_all add: syncKeyboardInset_def Let_def arm_eq)

lemma quiet_resetPing: "quiet W b s (resetPingTimeout s)"
  by (simp add: resetPingTimeout_def arm_eq quiet_refl)

lemma quiet_pingTimedOut: "quiet W b s (pingTimedOut s)"
  by (auto simp: pingTimedOut_def Let_def intro: quiet_refl quiet_from [OF quiet_close])

lemma quiet_sessionStartTimedOut: "quiet W b s (sessionStartTimedOut s)"
  by (rule quiet_fields.keeps_timedOut) (simp add: quiet_refl)

lemma quiet_connectTimedOut: "quiet W b s (connectTimedOut s)"
  by (auto simp: connectTimedOut_def intro: quiet_close quiet_trans [OF quiet_fail quiet_close])

lemma quiet_keepAlive: "b \<longrightarrow> authRejected s \<Longrightarrow> quiet W b s (keepAlive v s)"
  using quiet_initialize by (cases b) (auto simp: keepAlive_def intro: quiet_send)

lemma quiet_visibility: "b \<longrightarrow> authRejected s \<Longrightarrow> quiet W b s (handleVisibilityChange v s)"
proof -
  assume b: "b \<longrightarrow> authRejected s"
  let ?s = "s\<lparr>isDocumentVisible := \<not> hidden v\<rparr>"
  let ?p = "sendMessage (obj ''ping'' (JBool True)) (?s\<lparr>heartbeatMissed := 0\<rparr>)"
  have p: "quiet W b s (arm TResumeProbe (\<lambda>i s. s\<lparr>pingTimeoutId := i\<rparr>) (disarm (pingTimeoutId ?p) ?p))"
  proof (rule quiet_to)
    show "quiet W b s ?p" by (rule quiet_from [OF quiet_send [OF plain_frames(2)]]) simp_all
  qed (simp_all add: arm_eq)
  have i: "\<not> b \<Longrightarrow> quiet W b s (initializeWebSocket v (?s\<lparr>reconnectAttempts := 0\<rparr>))"
    using quiet_from [OF quiet_initialize, of "?s\<lparr>reconnectAttempts := 0\<rparr>" s] by simp
  show ?thesis
    unfolding handleVisibilityChange_def Let_def
    using p i b by (auto intro: quiet_refl split: option.split)
qed

lemma quiet_resetTerminal: "quiet W b s (resetTerminal s)"
  by (auto simp: resetTerminal_def quiet_def quiet_effect_def resetTerminalSessionCountdown_def disarm_def effect_def later_def
      split: option.split)

lemma quiet_socketError: "quiet W b s (handleSocketError s)"
  by (simp add: handleSocketError_def quiet_fail)

lemma quiet_socketClose: "quiet W b s (handleSocketClose v c s)"
proof -
  let ?s = "resetTerminalSessionCountdown (clearAllTimers (s\<lparr>connectionState := CsDisconnected\<rparr>))"
  have base: "fx ?s = fx s" "pendingCommand ?s = pendingCommand s" "authRejected ?s = authRejected s" "nextSocket ?s = nextSocket s"
    "ids_of is_initial (timers ?s) \<subseteq> ids_of is_initial (timers s)"
    by (simp_all add: resetTerminalSessionCountdown_def)
  have q: "quiet W b s ?s" by (rule quiet_refl) (simp_all add: base)
  have s1: "quiet W b s (if 0 < reconnectAttempts ?s
      then (resetTerminal ?s)\<lparr>message := m, terminalActive := False\<rparr> else ?s)" for m
  proof -
    have "quiet W b s (resetTerminal ?s)" by (rule quiet_from [OF quiet_resetTerminal]) (simp_all add: base)
    then have "quiet W b s ((resetTerminal ?s)\<lparr>message := m, terminalActive := False\<rparr>)" by (rule quiet_to) simp_all
    with q show ?thesis by simp
  qed
  have s2: "quiet W b s (case e of Some m \<Rightarrow> failTerminalConnection m False t | None \<Rightarrow> t)" if "quiet W b s t" for e t
    using that by (auto intro: quiet_trans [OF _ quiet_fail] split: option.split)
  have rej: "quiet W b s (if terminalActive t then effect [Dispatch ''terminalDisconnected'' None]
      ((client_exitFullscreen v t)\<lparr>terminalActive := False\<rparr>) else t)" if t: "t = ?s\<lparr>authRejected := True, pendingCommand := None\<rparr>" for t
  proof -
    have a: "quiet W b s t" unfolding t by (rule quiet_to [OF q]) simp_all
    have "quiet W b s ((client_exitFullscreen v t)\<lparr>terminalActive := False\<rparr>)"
      by (rule quiet_to [OF quiet_trans [OF a quiet_exitFs]]) simp_all
    from quiet_trans [OF this quiet_effects] a show ?thesis by (simp add: quiet_effect_def)
  qed
  show ?thesis
    unfolding handleSocketClose_def Let_def
    using quiet_trans [OF rej [OF refl] quiet_fail] quiet_trans [OF s2 [OF s1] quiet_schedule] q
    by auto
qed

lemma quiet_ptyReady: "quiet W b s (on_pty_ready v s)"
proof -
  let ?s1 = "completeTerminalSessionStart s"
  have s1: "quiet W b s ?s1" by (rule quiet_fields.keeps_complete) simp
  have count: "quiet W b t (startTerminalSessionCountdown v t)" for t
    by (rule quiet_refl)
      (simp_all add: startTerminalSessionCountdown_def arm_eq updateTerminalSessionCountdown_def split: option.split)
  show ?thesis
  proof (cases "term ?s1")
    case (Some t)
    define s2 where "s2 = (if \<not> term_initialized t
        then effect [TermOpen] (?s1\<lparr>term := Some (t\<lparr>term_initialized := True\<rparr>)\<rparr>)
        else effect [TermNotice ''Reconnected''] ?s1)"
    have "quiet W b ?s1 s2" by (simp add: s2_def quiet_def quiet_effect_def)
    then have "quiet W b s (s2\<lparr>terminalActive := True\<rparr>)" by (intro quiet_to [OF quiet_trans [OF s1]]) simp_all
    then have q3: "quiet W b s (effect [TermFocus] (startTerminalSessionCountdown v (s2\<lparr>terminalActive := True\<rparr>)))"
      by (intro quiet_trans [OF quiet_trans [OF _ count] quiet_effects]) (simp_all add: quiet_effect_def)
    have "quiet W b s (effect [Dispatch ''terminalConnected'' None]
        (once TFocusOnce (once TFocusOnce (once TResizeOnce (resizeTerminal v
          (effect [TermFocus] (startTerminalSessionCountdown v (s2\<lparr>terminalActive := True\<rparr>))))))))"
      by (intro quiet_trans [OF _ quiet_effects] quiet_trans [OF _ quiet_once] quiet_trans [OF _ quiet_resize] q3)
        (simp_all add: quiet_effect_def)
    with Some show ?thesis by (simp only: on_pty_ready_def Let_def s2_def option.case)
  qed (use s1 in \<open>simp add: on_pty_ready_def\<close>)
qed

lemma quiet_socketMessage: "set_option (shown_text d) \<subseteq> W \<Longrightarrow> quiet W b s (handleSocketMessage v d s)"
proof -
  assume shown: "set_option (shown_text d) \<subseteq> W"
  have p: "quiet W b s (resetPingTimeout (s\<lparr>heartbeatMissed := 0, lastPingTime := Some (now v)\<rparr>))"
    by (rule quiet_from [OF quiet_resetPing]) simp_all
  have u: "quiet W b s (on_unprocessable s)"
    by (auto simp: on_unprocessable_def Let_def quiet_def quiet_effect_def resetTerminalSessionCountdown_def split: option.split)
  have x: "quiet W b s (on_pty_exited v s)"
    by (auto simp: on_pty_exited_def Let_def quiet_def quiet_effect_def resetTerminalSessionCountdown_def
        client_exitFullscreen_def split: option.split)
  have r: "quiet W b s (on_rejection k t s)" for k t
    unfolding on_rejection_def by (rule quiet_from [OF quiet_fail]) simp_all
  have w: "quiet W b s (write_output v d s)" if "\<And>t. d = TextFrame t \<Longrightarrow> t \<in> W"
    using that by (auto simp: write_output_def quiet_def quiet_effect_def split: ws_data.split)
  show ?thesis
    unfolding handleSocketMessage_def using shown p u x r w quiet_ptyReady
    by (cases d; cases "classifyTerminalServerMessage d") (auto simp: shown_text_def split: if_splits)
qed

lemma quiet_flow: "quiet W b s (flowControlCallback s)"
proof -
  have "quiet W b s (sendMessage (obj ''pause'' (JBool True)) (s\<lparr>pendingWrites := n, paused := p\<rparr>))"
    "quiet W b s (sendMessage (obj ''resume'' (JBool True)) (s\<lparr>pendingWrites := n, paused := p\<rparr>))" for n p
    by (rule quiet_from [OF quiet_send]; simp)+
  then show ?thesis by (simp add: flowControlCallback_def Let_def quiet_refl)
qed

lemma quiet_input: "quiet W b s (sendTerminalInput t s)"
  by (simp add: sendTerminalInput_def quiet_send)

lemma quiet_tick: "quiet W b s (run_tick v k s)"
proof -
  have r: "quiet W b s (resizeTerminal v (s\<lparr>fs := f\<rparr>))" for f
    by (rule quiet_from [OF quiet_resize]) simp_all
  have f: "quiet W b s (effect [TermFocus] (resizeTerminal v s))"
    by (rule quiet_trans [OF quiet_resize quiet_effects]) (simp add: quiet_effect_def)
  have o: "quiet W b s (once TAnimationResize (resizeTerminal v s))" by (rule quiet_trans [OF quiet_resize quiet_once]) simp
  have w: "quiet W b s (let t = resizeTerminal v (s\<lparr>fs := g\<rparr>) in if resizeObserver t then t\<lparr>observing := True\<rparr> else t)" for g
    unfolding Let_def using r [of g] by (auto intro: quiet_to)
  show ?thesis
    unfolding run_tick_def using f o w quiet_resize by (auto simp: Let_def intro: quiet_refl split: tick.split)
qed

lemma quiet_cleanup: "quiet W b s (cleanup v s)"
proof -
  let ?s1 = "checkIfProcessIsRunningAndKillIt (disarm (keyboardInsetSettleTimeout s) s)"
  have s1: "quiet W b s ?s1"
    unfolding checkIfProcessIsRunningAndKillIt_def by (rule quiet_from [OF quiet_send]) simp_all
  let ?s2 = "(clearSessionStartTimeout (clearAllTimers ?s1))\<lparr>connectionState := CsDisconnected, pendingCommand := None\<rparr>"
  have s2: "quiet W b s ?s2" by (rule quiet_to [OF s1]) simp_all
  let ?s4 = "client_exitFullscreen v (resetTerminalSessionCountdown ?s2)"
  have s4: "quiet W b s (?s4\<lparr>fs := unlockPageScroll (fs ?s4)\<rparr>)"
    by (rule quiet_to [OF s2]) (simp_all add: client_exitFullscreen_def)
  show ?thesis
    unfolding cleanup_def Let_def by (rule quiet_to [OF quiet_trans [OF s4 quiet_close]]) simp_all
qed

lemma quiet_timer:
  assumes "b \<longrightarrow> authRejected s \<and> k \<noteq> TInitialConnect \<and> \<not> is_reconnect k"
  shows "quiet W b s (run_timer v k s)"
proof (cases k)
  case (TReconnect d)
  with assms have "\<not> b" by simp
  moreover have "quiet W False s (reconnectFires v s)"
    unfolding reconnectFires_def by (rule quiet_from [OF quiet_initialize]) simp_all
  ultimately show ?thesis using TReconnect by (simp add: run_timer_def)
next
  case TInitialConnect
  with assms have "\<not> b" by simp
  with TInitialConnect quiet_initialize show ?thesis by (simp add: run_timer_def)
next
  case TAnimationResize
  have "quiet W b s (once TResizeOnce (once TResizeOnce (resizeTerminal v s)))"
    by (intro quiet_trans [OF _ quiet_once] quiet_resize) simp_all
  with TAnimationResize show ?thesis by (simp add: run_timer_def)
next
  case TCountdown
  then show ?thesis
    by (auto simp: run_timer_def updateTerminalSessionCountdown_def intro: quiet_refl split: option.split)
qed (use assms in \<open>simp_all add: run_timer_def quiet_sessionStartTimedOut quiet_connectTimedOut quiet_pingTimedOut
    quiet_close quiet_keepAlive quiet_resize quiet_effects quiet_effect_def quiet_once quiet_inset focusWhenReady_def\<close>)

lemma quiet_ensure: "quiet W False s (ensureWebSocketConnection v s)"
proof -
  have "quiet W False s (initializeWebSocket v ((disarm (reconnectInterval s) s)\<lparr>reconnectInterval := None, reconnectAttempts := 0\<rparr>))"
    by (rule quiet_from [OF quiet_initialize]) simp_all
  then show ?thesis by (simp add: ensureWebSocketConnection_def)
qed

definition opens_or_tokens :: "client_event \<Rightarrow> bool" where
  "opens_or_tokens e = (case e of
     SocketOpened v i \<Rightarrow> True | TokenIssued v t \<Rightarrow> True | StartRequested v \<Rightarrow> True | _ \<Rightarrow> False)"

lemma quiet_fires:
  assumes b: "b \<longrightarrow> authRejected s \<and> ids_of is_reconnect (timers s) = {} \<and> map_of (armed (timers s)) i \<noteq> Some TInitialConnect"
  shows "quiet W b s (client_step s (TimerFires v i))"
proof (cases "map_of (armed (timers s)) i")
  case (Some k)
  have "b \<longrightarrow> \<not> is_reconnect k"
    using b Some by (force simp: ids_of_def dest: map_of_SomeD)
  then have fire: "quiet W b t (run_timer v k t)" if "authRejected t = authRejected s" for t
    using b that Some by (intro quiet_timer) auto
  have "quiet W b s (run_timer v k (s\<lparr>timers := clear_timer i (timers s)\<rparr>))"
    by (rule quiet_from [OF fire]) simp_all
  then have "quiet W b s (run_timer v k (if is_interval k then s else s\<lparr>timers := clear_timer i (timers s)\<rparr>))"
    using fire [of s] by simp
  with Some show ?thesis by simp
qed simp

lemma quiet_next: "quiet W b s (client_step s (NextTick v))"
proof (cases "ticks s")
  case (Cons k ks)
  have "quiet W b s (run_tick v k (s\<lparr>ticks := ks\<rparr>))" by (rule quiet_from [OF quiet_tick]) simp_all
  with Cons show ?thesis by simp
qed simp

lemma quiet_closed: "quiet W b s (client_step s (SocketClosed v i f c))"
proof -
  let ?s = "s\<lparr>readyState := (readyState s)(i := WsClosed)\<rparr>"
  have c: "quiet W b s ?s" by (simp add: quiet_def forward_def)
  have "quiet W b s (if f then handleSocketError ?s else ?s)"
    using c quiet_trans [OF c quiet_socketError] by simp
  from quiet_trans [OF this quiet_socketClose] show ?thesis by (simp add: Let_def)
qed

lemma quiet_buttons:
  "quiet W b s (failTerminalSessionStart m s)" "quiet W b s (sendTerminalControl q s)" "quiet W b s (sendTerminalKey k s)"
  "quiet W b s (on_term_data d s)" "quiet W b s (pasteFromClipboard c s)" "quiet W b s (copyTerminalSelection sel ok s)"
  "quiet W b s (toggleTerminalModifier mo s)" "quiet W b s (client_makeFullscreen v s)"
  "quiet W b s (snd (on_custom_key ctrl kc ty sel s))"
proof -
  have i: "quiet W b s (sendTerminalInput x (s\<lparr>terminalModifier := None\<rparr>))" for x by (rule quiet_from [OF quiet_input]) simp_all
  show "quiet W b s (failTerminalSessionStart m s)"
    by (rule quiet_fields.keeps_failStart) simp
  show "quiet W b s (on_term_data d s)"
    unfolding on_term_data_def Let_def by (rule quiet_to [OF quiet_send [OF plain_frames(1)]]) simp_all
  show "quiet W b s (sendTerminalControl q s)" "quiet W b s (sendTerminalKey k s)"
    using i by (simp_all add: sendTerminalControl_def sendTerminalKey_def Let_def split: option.split)
  show "quiet W b s (pasteFromClipboard c s)" "quiet W b s (copyTerminalSelection sel ok s)"
    "quiet W b s (snd (on_custom_key ctrl kc ty sel s))"
    by (simp_all add: pasteFromClipboard_def copyTerminalSelection_def on_custom_key_def quiet_effects quiet_effect_def quiet_input
        split: clipboard.split)
  show "quiet W b s (toggleTerminalModifier mo s)" "quiet W b s (client_makeFullscreen v s)"
    by (simp_all add: toggleTerminalModifier_def client_makeFullscreen_def client_enterFullscreen_def quiet_exitFs quiet_refl)
qed

lemma quiet_others:
  "quiet W b s (cancelTerminalAutoStart s)" "quiet W b s (focusWhenReady s)" "quiet W b s (watchTerminalActive s)"
  "quiet W b s (onWrapperResized s)" "quiet W b s (destroy s)"
  by (simp_all add: cancelTerminalAutoStart_def focusWhenReady_def watchTerminalActive_def onWrapperResized_def arm_eq
      destroy_def Let_def quiet_refl quiet_once quiet_effects quiet_effect_def)

lemma quiet_step:
  assumes "\<not> opens_or_tokens e" and shown: "shown_by e \<subseteq> W"
    and b: "b \<longrightarrow> authRejected s \<and> ids_of is_reconnect (timers s) = {} \<and>
      (\<forall>v i. e = TimerFires v i \<longrightarrow> map_of (armed (timers s)) i \<noteq> Some TInitialConnect)"
  shows "quiet W b s (client_step s e)"
proof (cases e)
  case (TimerFires v i)
  with b quiet_fires show ?thesis by simp
next
  case (NextTick v)
  with quiet_next show ?thesis by simp
next
  case (SocketClosed v i f c)
  with quiet_closed show ?thesis by simp
next
  case (VisibilityChange v)
  with b quiet_visibility show ?thesis by simp
next
  case (ThemeChanged t)
  then show ?thesis by (simp add: quiet_refl)
qed (use assms(1) shown in \<open>simp_all add: opens_or_tokens_def shown_by_def quiet_socketMessage quiet_resize quiet_settle
    quiet_flow quiet_cleanup quiet_buttons quiet_others\<close>)

end
