(* ===== verification/ClientClaims.thy ===== *)
theory ClientClaims
  imports ClientTraffic "HOL-Library.Multiset"
begin

text \<open>
  What holds of the terminal component in every history: its sockets and timers, its reconnects, its
  heartbeat, its behaviour after a rejection and the tokens it sends.
\<close>

section \<open>Tokens\<close>

definition token_in :: "json \<Rightarrow> json option" where
  "token_in m = (case m of JObj [(k, t)] \<Rightarrow> if k = ''terminalToken'' then Some t else None | _ \<Rightarrow> None)"

definition token_of :: "client_effect \<Rightarrow> json option" where
  "token_of e = (case e of Send i m \<Rightarrow> token_in m | _ \<Rightarrow> None)"

definition issued_by :: "client_event \<Rightarrow> json option" where
  "issued_by e = (case e of TokenIssued v t \<Rightarrow> Some t | _ \<Rightarrow> None)"

definition tokens_sent :: "client_effect list \<Rightarrow> json list" where
  "tokens_sent es = List.map_filter token_of es"

definition tokens_issued :: "client_event list \<Rightarrow> json list" where
  "tokens_issued es = List.map_filter issued_by es"

text \<open>A frame of the component: one without a token, or a token.\<close>

definition frame_ok :: "client_effect \<Rightarrow> bool" where
  "frame_ok e \<longleftrightarrow> (case e of Send i m \<Rightarrow> plain_frame m \<or> token_in m \<noteq> None | _ \<Rightarrow> True)"

definition waiting :: "client \<Rightarrow> json list" where
  "waiting s = (case pendingCommand s of None \<Rightarrow> [] | Some m \<Rightarrow> (case token_in m of None \<Rightarrow> [] | Some t \<Rightarrow> [t]))"

text \<open>Sent and waiting tokens are among the given ones, and nothing else is sent or waits.\<close>

definition traffic :: "json multiset \<Rightarrow> client \<Rightarrow> bool" where
  "traffic M s \<longleftrightarrow>
     list_all frame_ok (fx s) \<and> (pendingCommand s = None \<or> (\<exists>t. pendingCommand s = Some (obj ''terminalToken'' t)))
     \<and> mset (tokens_sent (fx s)) + mset (waiting s) \<subseteq># M"

lemma token_in_obj [simp]: "token_in (obj ''terminalToken'' t) = Some t"
  by (simp add: token_in_def obj_def)

lemma tokens_sent_append [simp]: "tokens_sent (es @ es') = tokens_sent es @ tokens_sent es'"
  by (simp add: tokens_sent_def List.map_filter_def)

lemma tokens_sent_Nil [simp]: "tokens_sent [] = []"
  by (simp add: tokens_sent_def List.map_filter_def)

lemma plain_no_token: "plain_frame m \<Longrightarrow> token_in m = None"
  by (auto simp: plain_frame_def token_in_def obj_def)

lemma quiet_effects_no_token: "list_all (quiet_effect W) es \<Longrightarrow> tokens_sent es = [] \<and> list_all frame_ok es"
proof (induction es)
  case (Cons e es)
  then have "token_of e = None" "frame_ok e"
    by (auto simp: token_of_def frame_ok_def quiet_effect_def plain_no_token split: client_effect.splits)
  with Cons show ?case by (simp add: tokens_sent_def List.map_filter_def)
qed simp

lemma traffic_quiet: "quiet W b s t \<Longrightarrow> traffic M s \<Longrightarrow> traffic M t"
proof -
  assume q: "quiet W b s t" and tr: "traffic M s"
  then obtain es where es: "fx t = fx s @ es" "list_all (quiet_effect W) es" unfolding quiet_def by blast
  have p: "pendingCommand t = pendingCommand s \<or> pendingCommand t = None" using q by (simp add: quiet_def)
  have "mset (tokens_sent (fx s)) + mset (waiting t) \<subseteq># mset (tokens_sent (fx s)) + mset (waiting s)"
    using p by (auto simp: waiting_def)
  moreover have "mset (tokens_sent (fx s)) + mset (waiting s) \<subseteq># M" using tr unfolding traffic_def by blast
  ultimately have "mset (tokens_sent (fx s)) + mset (waiting t) \<subseteq># M" by (rule subset_mset.order_trans)
  with tr p es quiet_effects_no_token [OF es(2)] show ?thesis
    unfolding traffic_def by (auto simp: list_all_append)
qed

lemma traffic_more: "traffic M s \<Longrightarrow> traffic (M + N) s"
  unfolding traffic_def using subset_mset.add_increasing2 [of N] by auto

text \<open>The handlers that send or store a token.\<close>

lemma traffic_opened: "traffic M s \<Longrightarrow> traffic M (handleSocketOpen v s)"
proof -
  assume tr: "traffic M s"
  define s1 where "s1 = s\<lparr>connectionState := CsConnected, reconnectAttempts := 0, heartbeatMissed := 0, lastPingTime := Some (now v)\<rparr>"
  define s2 where "s2 = (case connectionTimeoutId s1 of None \<Rightarrow> s1 | Some i \<Rightarrow> (disarm (Some i) s1)\<lparr>connectionTimeoutId := None\<rparr>)"
  define s3 where "s3 = (case pendingCommand s2 of None \<Rightarrow> s2
    | Some c \<Rightarrow> (sendMessage c s2)\<lparr>pendingCommand := None, connectionError := None, starting := True\<rparr>)"
  have s2: "fx s2 = fx s" "pendingCommand s2 = pendingCommand s"
    by (simp_all add: s2_def s1_def split: option.split)
  have s3: "traffic M s3"
  proof (cases "pendingCommand s")
    case None
    with s2 tr show ?thesis by (simp add: s3_def traffic_def waiting_def)
  next
    case (Some c)
    with tr obtain t where c: "c = obj ''terminalToken'' t" unfolding traffic_def by auto
    have m: "mset (tokens_sent (fx s)) + {#t#} \<subseteq># M"
      using tr Some c by (simp add: traffic_def waiting_def)
    then have "mset (tokens_sent (fx s)) \<subseteq># M" by (rule subset_mset.order_trans [rotated]) simp
    with m Some c s2 tr show ?thesis
      by (auto simp: s3_def traffic_def waiting_def sendMessage_def effect_def frame_ok_def tokens_sent_def
          List.map_filter_def token_of_def list_all_append split: option.split)
  qed
  have "quiet W b s3 (effect [DomEvent ''terminal-websocket-ready''] (resetPingTimeout
      (if keepAliveInterval s3 = None then arm TKeepAlive (\<lambda>i s. s\<lparr>keepAliveInterval := i\<rparr>) s3 else s3)))" for b
    by (intro quiet_trans [OF _ quiet_effects] quiet_trans [OF _ quiet_resetPing])
      (simp_all add: arm_eq quiet_refl quiet_effect_def)
  from traffic_quiet [OF this s3] show ?thesis
    by (simp only: handleSocketOpen_def Let_def s1_def s2_def s3_def)
qed

lemma traffic_arm_start: "quiet W b s (armTerminalSessionStartTimeout (s\<lparr>starting := x, connectionError := y\<rparr>))"
  by (rule quiet_refl) (simp_all add: armTerminalSessionStartTimeout_def Let_def split_beta)

interpretation traffic_host: session_host "traffic M" "\<lambda>_. True" ensureWebSocketConnection for M
proof unfold_locales
  show "traffic M (s\<lparr>pendingCommand := None\<rparr>)" if "traffic M s" for s
    by (rule traffic_quiet [OF quiet_refl that]) simp_all
  show "traffic M (effect [Dispatch ''error'' m] s)" if "traffic M s" for m s
    by (rule traffic_quiet [OF quiet_effects that]) (simp add: quiet_effect_def)
  show "traffic M (ensureWebSocketConnection v s)" if "traffic M s" for v s
    by (rule traffic_quiet [OF quiet_ensure that])
qed (simp_all add: traffic_def waiting_def)

lemma send_cases:
  obtains "sendMessage m s = s" | i where "sendMessage m s = effect [Send i m] s"
proof (cases "\<exists>i. socket s = Some i \<and> readyState s i = WsOpen")
  case True
  then obtain i where "socket s = Some i" "readyState s i = WsOpen" by blast
  then show thesis using that(2) [of i] by (simp add: sendMessage_def)
next
  case False
  then show thesis using that(1) by (auto simp: sendMessage_def split: option.split)
qed

lemma traffic_command: "traffic M s \<Longrightarrow> traffic (M + {#t#}) (sendCommandWhenReady (obj ''terminalToken'' t) s)"
proof -
  assume tr: "traffic M s"
  then have all: "mset (tokens_sent (fx s)) + mset (waiting s) \<subseteq># M" by (simp add: traffic_def)
  then have less: "mset (tokens_sent (fx s)) \<subseteq># M"
    by (rule subset_mset.order_trans [rotated]) simp
  have "traffic (M + {#t#}) (sendMessage (obj ''terminalToken'' t) s)"
  proof (cases rule: send_cases [of "obj ''terminalToken'' t" s])
    case 1
    then show ?thesis using traffic_more [OF tr, of "{#t#}"] by simp
  next
    case (2 i)
    have "waiting (effect [Send i (obj ''terminalToken'' t)] s) = waiting s" by (simp add: waiting_def)
    moreover have "tokens_sent [Send i (obj ''terminalToken'' t)] = [t]"
      by (simp add: tokens_sent_def List.map_filter_def token_of_def)
    ultimately show ?thesis using tr all 2 by (simp add: traffic_def frame_ok_def)
  qed
  moreover have "traffic (M + {#t#}) (s\<lparr>pendingCommand := Some (obj ''terminalToken'' t)\<rparr>)"
    using tr less by (auto simp: traffic_def waiting_def)
  ultimately show ?thesis by (simp add: sendCommandWhenReady_def)
qed

lemma traffic_step: "traffic M s \<Longrightarrow> traffic (M + mset (tokens_issued [e])) (client_step s e)"
proof (cases "opens_or_tokens e")
  case False
  assume "traffic M s"
  from traffic_more [OF traffic_quiet [OF quiet_step [of e UNIV False s] this]] False show ?thesis by simp
next
  case True
  assume tr: "traffic M s"
  show ?thesis
  proof (cases e)
    case (SocketOpened v i)
    have "traffic M (s\<lparr>readyState := r\<rparr>)" for r using tr by (simp add: traffic_def waiting_def)
    with SocketOpened tr traffic_opened show ?thesis by (auto intro: traffic_more)
  next
    case (TokenIssued v t)
    have "traffic (M + {#t#}) (onTerminalToken v t s)"
      using traffic_command [OF traffic_host.keeps_begin [OF TrueI tr], of t v] traffic_more [OF tr, of "{#t#}"] by (simp add: onTerminalToken_def)
    with TokenIssued show ?thesis by (simp add: tokens_issued_def List.map_filter_def issued_by_def)
  next
    case (StartRequested v)
    with traffic_more [OF traffic_host.keeps_begin [OF TrueI tr]] show ?thesis by simp
  qed (use True in \<open>simp_all add: opens_or_tokens_def\<close>)
qed

lemma traffic_run: "traffic M s \<Longrightarrow> traffic (M + mset (tokens_issued es)) (run client_step s es)"
proof (induction es arbitrary: s M)
  case (Cons e es)
  have "tokens_issued (e # es) = tokens_issued [e] @ tokens_issued es"
    by (simp add: tokens_issued_def List.map_filter_def)
  with Cons.IH [OF traffic_step [OF Cons.prems, of e]] show ?case by (simp add: union_assoc)
qed (simp add: tokens_issued_def List.map_filter_def)

lemma traffic_start: "client_start s \<Longrightarrow> traffic {#} s"
proof -
  assume "client_start s"
  then obtain v a el ob pg th where s: "s = client_init v a el ob (terminalData pg th)"
    unfolding client_start_def by blast
  have "fx s = []" "pendingCommand s = None"
    unfolding s client_init_def Let_def
    by (simp_all add: setupTerminal_def once_def arm_eq updateInset_def Let_def armTerminalSessionStartTimeout_def
        split_beta terminalData_def)
  then show ?thesis by (simp add: traffic_def waiting_def)
qed

section \<open>After a rejection\<close>

text \<open>A rejected component without a scheduled first connection opens no socket.\<close>

definition barred :: "client \<Rightarrow> bool" where
  "barred s \<longleftrightarrow> authRejected s \<and> ids_of is_initial (timers s) = {}"

definition restarts :: "client_event \<Rightarrow> bool" where
  "restarts e \<longleftrightarrow> (case e of StartRequested v \<Rightarrow> True | _ \<Rightarrow> False)"

lemma ids_of_none: "ids_of P t = {} \<Longrightarrow> map_of (armed t) i = Some k \<Longrightarrow> \<not> P k"
  by (force simp: ids_of_def dest: map_of_SomeD)

lemma handleOpen_sel:
  "nextSocket (handleSocketOpen v s) = nextSocket s" "authRejected (handleSocketOpen v s) = authRejected s"
  "ids_of is_initial (timers (handleSocketOpen v s)) \<subseteq> ids_of is_initial (timers s)"
  by (auto simp: handleSocketOpen_def Let_def resetPingTimeout_def arm_eq split: option.split)

lemma barred_step:
  assumes inv: "inv_of True s" and b: "barred s" and e: "\<not> restarts e"
  shows "barred (client_step s e) \<and> nextSocket (client_step s e) = nextSocket s"
proof (cases "opens_or_tokens e")
  case False
  have "ids_of is_reconnect (timers s) = {}" using inv b by (auto simp: inv_of_def retry_ok_def barred_def)
  moreover have "map_of (armed (timers s)) i \<noteq> Some TInitialConnect" for i
    using b ids_of_none [of is_initial "timers s" i] by (auto simp: barred_def)
  ultimately have "quiet UNIV True s (client_step s e)" using b by (intro quiet_step [OF False]) (auto simp: barred_def)
  with b show ?thesis unfolding quiet_def barred_def by auto
next
  case True
  show ?thesis
  proof (cases e)
    case (SocketOpened v i)
    have "barred (s\<lparr>readyState := r\<rparr>)" for r using b by (simp add: barred_def)
    with SocketOpened b handleOpen_sel [of v "s\<lparr>readyState := (readyState s)(i := WsOpen)\<rparr>"]
    show ?thesis by (auto simp: barred_def)
  qed (use True e b in \<open>simp_all add: opens_or_tokens_def restarts_def onTerminalToken_def barred_def\<close>)
qed

lemma barred_run:
  "inv_of True s \<Longrightarrow> barred s \<Longrightarrow> list_all event_ok es \<Longrightarrow> list_all (\<lambda>e. \<not> restarts e) es \<Longrightarrow>
   barred (run client_step s es) \<and> nextSocket (run client_step s es) = nextSocket s"
proof (induction es arbitrary: s)
  case (Cons e es)
  then have i: "inv_of True (client_step s e)" by (simp add: inv_step)
  from Cons.prems have b: "barred (client_step s e)" "nextSocket (client_step s e) = nextSocket s"
    using barred_step [of s e] by simp_all
  from Cons.IH [OF i b(1)] Cons.prems b(2) show ?case by simp
qed simp

section \<open>Sockets only move forward\<close>

lemma forward_opened: "nextSocket t = nextSocket s \<Longrightarrow> readyState t = readyState s \<Longrightarrow> forward s (handleSocketOpen v t)"
  by (rule forward_refl)
    (auto simp: handleSocketOpen_def Let_def resetPingTimeout_def arm_eq split: option.split)

lemma forward_same: "forward s t \<Longrightarrow> nextSocket u = nextSocket t \<Longrightarrow> readyState u = readyState t \<Longrightarrow> forward s u"
  by (erule forward_trans) (rule forward_refl)

interpretation forward_host: session_host "forward s" "\<lambda>_. True" ensureWebSocketConnection for s
proof unfold_locales
  show "forward s (ensureWebSocketConnection v t)" if "forward s t" for v t
    using forward_trans [OF that] quiet_ensure [of UNIV t v] by (simp add: quiet_def)
qed (erule forward_same; simp add: armTerminalSessionStartTimeout_def Let_def split_beta)+

lemmas forward_begin = forward_host.keeps_begin [OF TrueI forward_refl [OF refl refl]]

lemma forward_step: "forward s (client_step s e)"
proof (cases "opens_or_tokens e")
  case False
  from quiet_step [OF this, of UNIV False s] show ?thesis by (simp add: quiet_def)
next
  case True
  show ?thesis
  proof (cases e)
    case (SocketOpened v i)
    let ?s = "s\<lparr>readyState := (readyState s)(i := WsOpen)\<rparr>"
    have "readyState s i = WsConnecting \<Longrightarrow> forward s ?s" by (simp add: forward_def)
    with SocketOpened forward_trans [OF _ forward_opened [of ?s ?s v]] show ?thesis by simp
  next
    case (TokenIssued v t)
    have "forward x (sendCommandWhenReady m x)" for m and x :: client
      by (rule forward_refl) (simp_all add: sendCommandWhenReady_def)
    then have "forward s (sendCommandWhenReady m (beginTerminalSessionStart (ensureWebSocketConnection v) s))" for m
      using forward_trans [OF forward_begin] by blast
    with TokenIssued show ?thesis by (simp add: onTerminalToken_def)
  next
    case (StartRequested v)
    with forward_begin show ?thesis by simp
  qed (use True in \<open>simp_all add: opens_or_tokens_def\<close>)
qed

lemma forward_run: "forward s (run client_step s es)"
proof (induction es arbitrary: s)
  case (Cons e es)
  from forward_trans [OF forward_step Cons.IH] show ?case by simp
qed simp

section \<open>A component on a small page\<close>

definition sample_env :: env where
  "sample_env = \<lparr>now = 5000, random1000 = 500, socketThrows = False, hidden = False, writeThrows = False,
     terminalHost = None, fitted = (80, 30), applicationStyle = False, window = sample_browser,
     address = \<lparr>https = True, hostname = ''app.test'', loc_port = [], config_host = None, config_port = None,
       config_protocol = None\<rparr>\<rparr>"

definition sample_client :: client where
  "sample_client = client_init sample_env False True True
     (terminalData sample_page (theme_start \<lparr>datasetTheme = None, darkClass = True\<rparr> (\<lambda>_. None) False))"

text \<open>The first connection, a token and a failed socket, then the reconnect; or a rejection.\<close>

definition sample_events :: "client_event list" where
  "sample_events = [TimerFires sample_env 1, TokenIssued sample_env (JStr ''t''), SocketClosed sample_env 0 True 1006,
     TimerFires sample_env 4]"

definition sample_rejection :: "client_event list" where
  "sample_rejection = [TimerFires sample_env 1, SocketClosed sample_env 0 False 4401]"

lemma sample_client_start: "client_start sample_client"
  unfolding client_start_def sample_client_def by blast

lemma sample_env_ok: "env_ok sample_env"
  by (simp add: env_ok_def sample_env_def)

lemma sample_events_ok: "list_all event_ok sample_events" "list_all event_ok sample_rejection"
  by (simp_all add: sample_events_def sample_rejection_def event_ok_def sample_env_ok)

lemmas client_eval = client_init_def setupTerminal_def once_def arm_eq updateInset_def terminalData_def no_timers_def
  set_timer_def clear_timer_def clear_opt_def initializeWebSocket_def socketLive_def clearAllTimers_def disarm_def
  effect_def later_def onTerminalToken_def beginTerminalSessionStart_def armTerminalSessionStartTimeout_def
  clearSessionStartTimeout_def ensureWebSocketConnection_def sendCommandWhenReady_def isWebSocketReady_def
  run_timer_def handleSocketClose_def handleSocketError_def isTerminalSessionPending_def failTerminalConnection_def
  resolveTerminalCloseOutcome_def isTerminalAuthRejectionCode_def resetTerminalSessionCountdown_def
  scheduleReconnect_def reconnectFires_def Let_def

definition sample_calm :: client where
  "sample_calm = (terminalData sample_page (theme_start \<lparr>datasetTheme = None, darkClass = True\<rparr> (\<lambda>_. None) False))
     \<lparr>fs := updateKeyboardInset sample_browser (fullscreen_start sample_page),
      term := Some \<lparr>term_initialized = False, term_cols = 80, term_rows = 30\<rparr>, resizeObserver := True,
      ticks := [TickSalvage, TickResize]\<rparr>"

definition sample_connecting :: client where
  "sample_connecting = sample_calm\<lparr>timers := \<lparr>armed = [(2, TConnect 15000)], nextId = 3\<rparr>, connectionTimeoutId := Some 2,
     socket := Some 0, readyState := (\<lambda>_. WsClosed)(0 := WsConnecting), nextSocket := 1, connectionState := CsConnecting,
     fx := [OpenSocket 0 (url (address sample_env))]\<rparr>"

lemma sample_client_eq:
  "sample_client = sample_calm\<lparr>timers := \<lparr>armed = [(1, TInitialConnect)], nextId = 2\<rparr>\<rparr>"
  by (simp add: sample_client_def sample_calm_def client_eval sample_env_def fullscreen_start_def)

lemma sample_first: "client_step sample_client (TimerFires sample_env 1) = sample_connecting"
  unfolding sample_client_eq
  by (simp add: sample_connecting_def sample_calm_def client_eval sample_env_def TERMINAL_CONNECT_TIMEOUT_MS_def)

lemma sample_rejected:
  "authRejected (run client_step sample_client sample_rejection)"
  "ids_of is_initial (timers (run client_step sample_client sample_rejection)) = {}"
  by (simp_all add: sample_rejection_def sample_first del: client_step.simps One_nat_def)
    (simp_all add: sample_connecting_def sample_calm_def client_eval client_AUTH_REJECTED_def ids_of_def)

lemma sample_token: "client_step sample_connecting (TokenIssued sample_env (JStr ''t'')) =
   sample_connecting\<lparr>timers := \<lparr>armed = [(3, TSessionStart), (2, TConnect 15000)], nextId = 4\<rparr>, starting := True,
     sessionStartTimeoutId := Some 3, pendingCommand := Some (obj ''terminalToken'' (JStr ''t''))\<rparr>"
  by (simp add: sample_connecting_def sample_calm_def client_eval socketIs_def)

definition sample_waiting :: client where
  "sample_waiting = sample_calm\<lparr>timers := \<lparr>armed = [(4, TReconnect 1500)], nextId = 5\<rparr>,
     reconnectInterval := Some 4, pendingCommand := Some (obj ''terminalToken'' (JStr ''t'')),
     connectionError := Some err_connectionFailed,
     socket := Some 0, readyState := (\<lambda>_. WsClosed), nextSocket := 1, connectionState := CsReconnecting,
     fx := [OpenSocket 0 (url (address sample_env)), Dispatch ''error'' (Some err_connectionFailed)]\<rparr>"

lemma closed_again: "(\<lambda>_. x)(i := x) = (\<lambda>_. x)"
  by auto

lemma sample_failed: "client_step (client_step sample_connecting (TokenIssued sample_env (JStr ''t'')))
   (SocketClosed sample_env 0 True 1006) = sample_waiting"
  unfolding sample_token
  by (simp add: sample_connecting_def sample_waiting_def sample_calm_def client_eval sample_env_def truthy_def
      client_AUTH_REJECTED_def client_TOKEN_REJECTED_def NORMAL_def maxReconnectAttempts_def baseReconnectDelay_def
      maxReconnectDelay_def closed_again)

lemma sample_late:
  "pendingCommand (run client_step sample_client sample_events) \<noteq> None"
  "sessionStartTimeoutId (run client_step sample_client sample_events) = None"
  "nextSocket (run client_step sample_client sample_events) = 2"
  "readyState (run client_step sample_client sample_events) 1 = WsConnecting"
  by (simp_all add: sample_events_def sample_first sample_failed del: client_step.simps One_nat_def)
    (simp_all add: sample_waiting_def sample_calm_def client_eval sample_env_def)


text \<open>The token is sent as soon as the socket opens.\<close>

definition sample_opening :: "client_event list" where
  "sample_opening = [TimerFires sample_env 1, TokenIssued sample_env (JStr ''t''), SocketOpened sample_env 0]"

lemma sample_sends:
  "Send 0 (obj ''terminalToken'' (JStr ''t'')) \<in> set (fx (run client_step sample_client sample_opening))"
proof -
  have "run client_step sample_client sample_opening =
      client_step (client_step sample_connecting (TokenIssued sample_env (JStr ''t''))) (SocketOpened sample_env 0)"
    by (simp add: sample_opening_def sample_first del: client_step.simps One_nat_def)
  then show ?thesis
    unfolding sample_token
    by (simp add: sample_connecting_def sample_calm_def client_eval handleSocketOpen_def resetPingTimeout_def sendMessage_def)
qed

section \<open>Claims\<close>

text \<open>C13: One socket, one timer of each kind. In every history of the component all sockets but the
  current one are closed, and a socket that was opened and is closed stays closed; of the session-start, connection, reconnect, heartbeat, keep-alive,
  countdown, resize and keyboard timers at most one of each is armed, and it is the one whose id the
  component remembers and can cancel.\<close>

theorem one_socket_and_timer:
  assumes "client_start s\<^sub>0" "list_all event_ok es"
  shows "{i. readyState (run client_step s\<^sub>0 es) i \<noteq> WsClosed} \<subseteq> set_option (socket (run client_step s\<^sub>0 es))
    \<and> {i. i < nextSocket (run client_step s\<^sub>0 es) \<and> readyState (run client_step s\<^sub>0 es) i = WsClosed}
        \<subseteq> {i. readyState (run client_step s\<^sub>0 (es @ es')) i = WsClosed}
    \<and> slots_ok (run client_step s\<^sub>0 es)
    \<and> card (ids_of is_reconnect (timers (run client_step s\<^sub>0 es))) \<le> 1
    \<and> card (ids_of is_heartbeat (timers (run client_step s\<^sub>0 es))) \<le> 1
    \<and> card (ids_of is_keepalive (timers (run client_step s\<^sub>0 es))) \<le> 1
    \<and> card (ids_of is_start (timers (run client_step s\<^sub>0 es))) \<le> 1"
proof -
  let ?s = "run client_step s\<^sub>0 es"
  have "slots_ok ?s" "socket_ok ?s" using client_run_inv [OF assms] by (simp_all add: inv_of_def)
  moreover from this have "slot is_reconnect (reconnectInterval ?s) (timers ?s)"
    "slot is_heartbeat (pingTimeoutId ?s) (timers ?s)" "slot is_keepalive (keepAliveInterval ?s) (timers ?s)"
    "slot is_start (sessionStartTimeoutId ?s) (timers ?s)"
    by (simp_all add: slots_ok_def)
  moreover have "forward ?s (run client_step s\<^sub>0 (es @ es'))" using forward_run [of ?s es'] by simp
  then have "{i. i < nextSocket ?s \<and> readyState ?s i = WsClosed} \<subseteq> {i. readyState (run client_step s\<^sub>0 (es @ es')) i = WsClosed}"
    unfolding forward_def by (auto dest: spec)
  ultimately show ?thesis using slot_card by (auto simp: socket_ok_def)
qed

theorem one_socket_and_timer_witness:
  "slots_ok (run client_step sample_client sample_events)
   \<and> card (ids_of is_reconnect (timers (run client_step sample_client sample_events))) \<le> 1"
  using one_socket_and_timer [OF sample_client_start sample_events_ok(1)] by blast



text \<open>C33: The heartbeat never closes a socket. Three missed heartbeats should close the socket, but in
  every history at most one is missed at a time: a ping timeout is armed only by an answer or an
  opened socket, which forget earlier misses, and its callback arms no other, so whenever one runs the
  socket stays open.\<close>

theorem heartbeat_never_closes:
  assumes "client_start s\<^sub>0" "list_all event_ok es"
  shows "heartbeatMissed (run client_step s\<^sub>0 es) < maxHeartbeatMisses
    \<and> (ids_of is_ping (timers (run client_step s\<^sub>0 es)) = {}
       \<or> pingTimedOut (run client_step s\<^sub>0 es) = (run client_step s\<^sub>0 es)\<lparr>heartbeatMissed := 1\<rparr>)"
proof -
  have "heart_ok (run client_step s\<^sub>0 es)" using client_run_inv [OF assms] by (simp add: inv_of_def)
  then show ?thesis by (auto simp: heart_ok_def pingTimedOut_def maxHeartbeatMisses_def Let_def)
qed

theorem heartbeat_never_closes_witness:
  "heartbeatMissed (run client_step sample_client sample_events) < maxHeartbeatMisses"
  using heartbeat_never_closes [OF sample_client_start sample_events_ok(1)] by blast



text \<open>C12: A token is sent once. In every history the tokens the component has sent are, with
  multiplicity, among the tokens the page issued to it; everything else it sends is one of the six
  frames of its protocol.\<close>

theorem tokens_sent_once:
  assumes "client_start s\<^sub>0"
  shows "mset (tokens_sent (fx (run client_step s\<^sub>0 es))) \<subseteq># mset (tokens_issued es)
    \<and> list_all frame_ok (fx (run client_step s\<^sub>0 es))"
proof -
  have "traffic (mset (tokens_issued es)) (run client_step s\<^sub>0 es)"
    using traffic_run [OF traffic_start [OF assms], of es] by simp
  then show ?thesis unfolding traffic_def by (blast intro: subset_mset.order_trans mset_subset_eq_add_left)
qed

theorem tokens_sent_once_witness:
  "mset (tokens_sent (fx (run client_step sample_client sample_events))) \<subseteq># mset [JStr ''t'']"
  using tokens_sent_once [OF sample_client_start, of sample_events]
  by (simp add: sample_events_def tokens_issued_def List.map_filter_def issued_by_def)



end
