(* ===== verification/ShellParse.thy ===== *)
theory ShellParse
  imports JSPrelude
begin

text \<open>
  Parsing of the terminal's shell command (docker/coolify-terminal/terminal-utils.js):
  the session and command timeouts, the split of the ssh command line into arguments, and
  the extraction of the here-document. Each regular expression of the source is written as
  the search it performs: leftmost start first, lazy or greedy repetition as in the source.
\<close>

section \<open>Environment and timeouts\<close>

definition DEFAULT_TERMINAL_PATH :: string where
  "DEFAULT_TERMINAL_PATH = ''/usr/local/sbin:/usr/local/bin:/usr/sbin:/usr/bin:/sbin:/bin''"

definition getTerminalProcessEnv :: "(string \<Rightarrow> string option) \<Rightarrow> (string \<times> string) list" where
  "getTerminalProcessEnv environment =
     [(''PATH'', case environment ''PATH'' of
         None \<Rightarrow> DEFAULT_TERMINAL_PATH
       | Some p \<Rightarrow> if p = [] then DEFAULT_TERMINAL_PATH else p)]"

definition MAX_TERMINAL_SESSION_TIMEOUT_SECONDS :: nat where
  "MAX_TERMINAL_SESSION_TIMEOUT_SECONDS = 8 * 60 * 60"

definition getTerminalSessionTimeout :: nat where
  "getTerminalSessionTimeout = MAX_TERMINAL_SESSION_TIMEOUT_SECONDS"

text \<open>\<open>/timeout (\d+)/\<close>\<close>

fun extractTimeout :: "string \<Rightarrow> nat option" where
  "extractTimeout [] = None"
| "extractTimeout (c # cs) =
     (let ds = takeWhile is_digit (drop 8 (c # cs)) in
      if js_startsWith (c # cs) ''timeout '' \<and> ds \<noteq> [] then Some (digits_val ds)
      else extractTimeout cs)"

section \<open>Shell quotes\<close>

lemma length_tl_dropWhile: "length (tl (dropWhile P cs)) < Suc (length cs)"
  by (metis diff_le_self le_imp_less_Suc length_dropWhile_le length_tl le_trans)

text \<open>\<open>s.replace(/q([^q]*)q/g, '$1')\<close> for a quote character \<open>q\<close>: every pair of quotes is
  dropped, scanning from the left; a quote with no partner stays.\<close>

function unquote :: "char \<Rightarrow> string \<Rightarrow> string" where
  "unquote q [] = []"
| "unquote q (c # cs) =
     (if c = q \<and> q \<in> set cs
      then takeWhile (\<lambda>d. d \<noteq> q) cs @ unquote q (tl (dropWhile (\<lambda>d. d \<noteq> q) cs))
      else c # unquote q cs)"
  by pat_completeness auto

termination
  by (relation "measure (\<lambda>(q, s). length s)") (auto simp: length_tl_dropWhile simp del: length_tl)

definition normalizeShellArgument :: "string \<Rightarrow> string" where
  "normalizeShellArgument argument =
     (if argument = [] then argument else unquote dq (unquote sq argument))"

section \<open>Splitting the ssh command line\<close>

text \<open>\<open>.\<close> of a regular expression: anything but a line terminator.\<close>

definition re_dot :: "char \<Rightarrow> bool" where
  "re_dot c \<longleftrightarrow> c \<noteq> lf \<and> c \<noteq> cr"

text \<open>\<open>/ssh (.+?) '[^']+' << /\<close>: the tail after the captured group, the lazily growing group,
  and the search for the leftmost start.\<close>

fun ssh_tail :: "string \<Rightarrow> bool" where
  "ssh_tail (c # d # t) =
     (c = CHR '' '' \<and> d = sq \<and> takeWhile (\<lambda>e. e \<noteq> sq) t \<noteq> []
      \<and> js_startsWith (dropWhile (\<lambda>e. e \<noteq> sq) t) (sq # '' << ''))"
| "ssh_tail _ = False"

fun ssh_group :: "string \<Rightarrow> string \<Rightarrow> string option" where
  "ssh_group acc [] = None"
| "ssh_group acc (c # cs) =
     (if acc \<noteq> [] \<and> ssh_tail (c # cs) then Some acc
      else if re_dot c then ssh_group (acc @ [c]) cs else None)"

fun sshCommandMatch :: "string \<Rightarrow> string option" where
  "sshCommandMatch [] = None"
| "sshCommandMatch (c # cs) =
     (if js_startsWith (c # cs) ''ssh '' then
        (case ssh_group [] (drop 4 (c # cs)) of
           Some a \<Rightarrow> Some a | None \<Rightarrow> sshCommandMatch cs)
      else sshCommandMatch cs)"

text \<open>The character loop. \<open>quote\<close> is \<open>None\<close> when \<open>inQuotes\<close> is false, otherwise
  \<open>quoteChar\<close>.\<close>

fun split_args :: "char option \<Rightarrow> string \<Rightarrow> string list \<Rightarrow> string \<Rightarrow> string list \<times> string" where
  "split_args quote current acc [] = (acc, current)"
| "split_args quote current acc (c # cs) =
     (if quote = None \<and> (c = dq \<or> c = sq) then split_args (Some c) (current @ [c]) acc cs
      else if quote = Some c then split_args None (current @ [c]) acc cs
      else if quote = None \<and> c = CHR '' '' then
        (if js_trim current \<noteq> [] then split_args None [] (acc @ [js_trim current]) cs
         else split_args None current acc cs)
      else split_args quote (current @ [c]) acc cs)"

definition split_words :: "string \<Rightarrow> string list" where
  "split_words argsString =
     (case split_args None [] [] argsString of (args, current) \<Rightarrow>
        if js_trim current \<noteq> [] then args @ [js_trim current] else args)"

definition force_tty :: "string \<Rightarrow> string" where
  "force_tty arg = (if arg = ''RequestTTY=no'' then ''RequestTTY=yes'' else arg)"

definition extractSshArgs :: "string \<Rightarrow> string list" where
  "extractSshArgs commandString =
     (case sshCommandMatch commandString of
        None \<Rightarrow> []
      | Some argsString \<Rightarrow>
          (let sshArgs = map force_tty (map normalizeShellArgument (split_words argsString)) in
           if ''RequestTTY=yes'' \<notin> set sshArgs
              \<and> \<not> list_ex (\<lambda>arg. js_includes arg ''RequestTTY='') sshArgs
           then sshArgs @ [''-o'', ''RequestTTY=yes''] else sshArgs))"

section \<open>The here-document\<close>

text \<open>\<open>/<< (\S+)/\<close>\<close>

fun delimiterMatch :: "string \<Rightarrow> string option" where
  "delimiterMatch [] = None"
| "delimiterMatch (c # cs) =
     (let d = takeWhile (\<lambda>e. \<not> is_ws e) (drop 3 (c # cs)) in
      if js_startsWith (c # cs) ''<< '' \<and> d \<noteq> [] then Some d else delimiterMatch cs)"

text \<open>\<open><< \\D([\s\S\.]*?)D\<close> for the literal delimiter \<open>D\<close>: the escaping in the source quotes
  every character of \<open>D\<close> that a regular expression would interpret.\<close>

fun hereDocMatch :: "string \<Rightarrow> string \<Rightarrow> string option" where
  "hereDocMatch d [] = None"
| "hereDocMatch d (c # cs) =
     (let opening = ''<< '' @ bsl # d in
      if js_startsWith (c # cs) opening then
        (let rest = drop (length opening) (c # cs) in
         case js_indexOf rest d of
           Some i \<Rightarrow> Some (take i rest) | None \<Rightarrow> hereDocMatch d cs)
      else hereDocMatch d cs)"

definition extractHereDocContent :: "string \<Rightarrow> string" where
  "extractHereDocContent commandString =
     (case delimiterMatch commandString of
        None \<Rightarrow> []
      | Some delimiter \<Rightarrow>
          (let d = js_trim (drop 1 delimiter) in
           if d = [] then []
           else (case hereDocMatch d commandString of None \<Rightarrow> [] | Some content \<Rightarrow> content)))"

section \<open>Lemmas\<close>

lemma getTerminalProcessEnv_path:
  "\<exists>p. getTerminalProcessEnv env = [(''PATH'', p)] \<and> p \<noteq> []"
  by (auto simp: getTerminalProcessEnv_def DEFAULT_TERMINAL_PATH_def split: option.splits)

lemma unquote_no_quote: "q \<notin> set s \<Longrightarrow> unquote q s = s"
  by (induction s) auto

lemma unquote_prefix: "q \<notin> set p \<Longrightarrow> unquote q (p @ s) = p @ unquote q s"
  by (induction p) auto

lemma unquote_pair:
  assumes "q \<notin> set p" shows "unquote q (q # p @ q # s) = p @ unquote q s"
proof -
  have "takeWhile (\<lambda>d. d \<noteq> q) (p @ q # s) = p" "dropWhile (\<lambda>d. d \<noteq> q) (p @ q # s) = q # s"
    using assms by (auto simp: takeWhile_append dropWhile_append)
  then show ?thesis by simp
qed

lemma split_args_word:
  assumes "\<forall>c\<in>set w. c \<noteq> dq \<and> c \<noteq> sq \<and> c \<noteq> CHR '' ''"
  shows "split_args None cur acc (w @ s) = split_args None (cur @ w) acc s"
  using assms by (induction w arbitrary: cur) auto

lemma split_args_in_quotes:
  assumes "q \<notin> set w"
  shows "split_args (Some q) cur acc (w @ q # s) = split_args None (cur @ w @ [q]) acc s"
  using assms by (induction w arbitrary: cur) auto

lemma split_args_quoted:
  assumes "q = dq \<or> q = sq" "q \<notin> set w"
  shows "split_args None cur acc (q # w @ q # s) = split_args None (cur @ q # w @ [q]) acc s"
  using assms split_args_in_quotes [of q w "cur @ [q]" acc s] by auto

lemma ssh_tailD:
  assumes "ssh_tail s"
  obtains t1 t2 where "s = CHR '' '' # sq # t1 @ sq # '' << '' @ t2" "sq \<notin> set t1"
proof -
  obtain c d t where s: "s = c # d # t" using assms by (cases s rule: ssh_tail.cases) auto
  let ?t1 = "takeWhile (\<lambda>e. e \<noteq> sq) t" and ?r = "dropWhile (\<lambda>e. e \<noteq> sq) t"
  from assms have cd: "c = CHR '' ''" "d = sq" and "js_startsWith ?r (sq # '' << '')"
    unfolding s ssh_tail.simps by auto
  then obtain t2 where "?r = sq # '' << '' @ t2" by (auto simp: js_startsWith_iff)
  then have "t = ?t1 @ sq # '' << '' @ t2" by (metis takeWhile_dropWhile_id)
  moreover have "sq \<notin> set ?t1" by (auto dest: set_takeWhileD)
  ultimately show ?thesis using that s cd by metis
qed

lemma ssh_group_prefix: "ssh_group acc s = Some a \<Longrightarrow> \<exists>b. a = acc @ b \<and> a \<noteq> []"
proof (induction s arbitrary: acc)
  case (Cons c cs)
  show ?case
  proof (cases "acc \<noteq> [] \<and> ssh_tail (c # cs)")
    case True
    with Cons.prems show ?thesis by simp
  next
    case False
    with Cons.prems have "ssh_group (acc @ [c]) cs = Some a"
      by (simp del: ssh_tail.simps split: if_splits)
    from Cons.IH [OF this] show ?thesis by auto
  qed
qed simp

text \<open>No match of the regular expression starts inside the arguments when neither they nor
  the remote command hold a \<open><\<close>: counting the quotes before the first \<open><\<close>.\<close>

lemma ssh_tail_inside:
  assumes b: "b \<noteq> []" "CHR ''<'' \<notin> set b" and r: "sq \<notin> set r" "CHR ''<'' \<notin> set r"
  shows "\<not> ssh_tail (b @ CHR '' '' # sq # r @ sq # '' << '' @ rest)"
proof
  let ?P = "takeWhile (\<lambda>e. e \<noteq> CHR ''<'')"
  let ?R = "b @ CHR '' '' # sq # r @ sq # '' ''"
  assume "ssh_tail (b @ CHR '' '' # sq # r @ sq # '' << '' @ rest)"
  then obtain t1 t2 where eq: "b @ CHR '' '' # sq # r @ sq # '' << '' @ rest =
      CHR '' '' # sq # t1 @ sq # '' << '' @ t2" and t1: "sq \<notin> set t1"
    by (rule ssh_tailD)
  have R: "?P (b @ CHR '' '' # sq # r @ sq # '' << '' @ rest) = ?R"
  proof -
    have "?P (?R @ CHR ''<'' # ''< '' @ rest) = ?R"
      using b(2) r(2) by (subst takeWhile_append2) auto
    then show ?thesis by simp
  qed
  have cR: "count_list ?R sq = count_list b sq + 2"
    using r(1) by (simp add: count_notin)
  show False
  proof (cases "CHR ''<'' \<in> set t1")
    case True
    then have "?P (t1 @ sq # '' << '' @ t2) = ?P t1" by (auto simp: takeWhile_append)
    then have e: "?R = CHR '' '' # sq # ?P t1" using R eq by simp
    have "sq \<notin> set (?P t1)" using t1 by (auto dest: set_takeWhileD)
    then have "count_list ?R sq = 1" unfolding e by (simp add: count_notin)
    with cR show False by simp
  next
    case False
    then have "?P (t1 @ sq # '' << '' @ t2) = t1 @ sq # '' ''" by (simp add: takeWhile_append)
    then have L: "?R = CHR '' '' # sq # t1 @ sq # '' ''" using R eq by simp
    have "count_list ?R sq = 2" unfolding L using t1 by (simp add: count_notin)
    with cR have "sq \<notin> set b" by (simp add: count_list_0_iff)
    then have "takeWhile (\<lambda>e. e \<noteq> sq) ?R = b @ '' ''" by (simp add: takeWhile_append)
    moreover have "takeWhile (\<lambda>e. e \<noteq> sq) ?R = '' ''" unfolding L by simp
    ultimately show False using b(1) by simp
  qed
qed

lemma ssh_group_lazy:
  assumes "list_all re_dot b" "CHR ''<'' \<notin> set b" "sq \<notin> set r" "CHR ''<'' \<notin> set r" "r \<noteq> []"
    and "acc @ b \<noteq> []"
  shows "ssh_group acc (b @ CHR '' '' # sq # r @ sq # '' << '' @ rest) = Some (acc @ b)"
  using assms(1,2,6)
proof (induction b arbitrary: acc)
  case Nil
  have "takeWhile (\<lambda>e. e \<noteq> sq) (r @ sq # '' << '' @ rest) = r"
    "dropWhile (\<lambda>e. e \<noteq> sq) (r @ sq # '' << '' @ rest) = sq # '' << '' @ rest"
    using assms(3) by (simp_all add: takeWhile_append dropWhile_append)
  with Nil assms(5) show ?case by (simp add: js_startsWith_def)
next
  case (Cons c b)
  have "\<not> ssh_tail ((c # b) @ CHR '' '' # sq # r @ sq # '' << '' @ rest)"
    using Cons.prems assms by (intro ssh_tail_inside) auto
  with Cons show ?case by (simp del: ssh_tail.simps)
qed

lemma sshCommandMatch_lazy:
  assumes "js_indexOf (pre @ ''ssh '') ''ssh '' = Some (length pre)"
    and "list_all re_dot b" "CHR ''<'' \<notin> set b" "b \<noteq> []"
    and "sq \<notin> set r" "CHR ''<'' \<notin> set r" "r \<noteq> []"
  shows "sshCommandMatch (pre @ ''ssh '' @ b @ CHR '' '' # sq # r @ sq # '' << '' @ rest) = Some b"
  using assms(1)
proof (induction pre)
  case Nil
  have "ssh_group [] (b @ CHR '' '' # sq # r @ sq # '' << '' @ rest) = Some b"
    using ssh_group_lazy [of b r "[]" rest] assms by simp
  then show ?case by (simp add: js_startsWith_def)
next
  case (Cons c pre)
  have no: "\<not> js_startsWith ((c # pre) @ ''ssh '') ''ssh ''"
    using js_indexOf_least [OF Cons.prems, of 0] by simp
  have "\<not> js_startsWith ((c # pre) @ ''ssh '' @ x) ''ssh ''" for x
    using no js_startsWith_append_le [of "''ssh ''" "(c # pre) @ ''ssh ''" x] by simp
  moreover have "js_indexOf (pre @ ''ssh '') ''ssh '' = Some (length pre)"
    using Cons.prems no by (auto split: if_splits)
  ultimately show ?case using Cons.IH by simp
qed

section \<open>Shell words\<close>

text \<open>What the command generator writes: a word is a sequence of plain and quoted pieces.\<close>

datatype piece = Plain string | Quoted char string

fun piece_src :: "piece \<Rightarrow> string" where
  "piece_src (Plain s) = s"
| "piece_src (Quoted q s) = q # s @ [q]"

fun piece_text :: "piece \<Rightarrow> string" where
  "piece_text (Plain s) = s"
| "piece_text (Quoted q s) = s"

fun wf_piece :: "piece \<Rightarrow> bool" where
  "wf_piece (Plain s) =
     (s \<noteq> [] \<and> list_all (\<lambda>c. \<not> is_ws c \<and> c \<noteq> sq \<and> c \<noteq> dq \<and> c \<noteq> CHR ''<'') s)"
| "wf_piece (Quoted q s) =
     ((q = sq \<or> q = dq) \<and> list_all (\<lambda>c. c \<noteq> lf \<and> c \<noteq> cr \<and> c \<noteq> sq \<and> c \<noteq> dq \<and> c \<noteq> CHR ''<'') s)"

definition word_src :: "piece list \<Rightarrow> string" where
  "word_src w = concat (map piece_src w)"

definition word_text :: "piece list \<Rightarrow> string" where
  "word_text w = concat (map piece_text w)"

definition wf_word :: "piece list \<Rightarrow> bool" where
  "wf_word w \<longleftrightarrow> w \<noteq> [] \<and> list_all wf_piece w"

lemma not_ws_consts: "\<not> is_ws sq" "\<not> is_ws dq" "is_ws lf" "is_ws cr" "is_ws (CHR '' '')"
  by (simp_all add: is_ws_def code_def)

lemma wf_piece_chars:
  assumes "wf_piece p" "c \<in> set (piece_src p)"
  shows "re_dot c \<and> c \<noteq> CHR ''<''"
proof (cases p)
  case (Plain s)
  with assms have "\<not> is_ws c" "c \<noteq> CHR ''<''" by (simp_all add: list_all_iff)
  then show ?thesis unfolding re_dot_def using not_ws_consts by metis
next
  case (Quoted q s)
  with assms have "c = q \<or> (c \<noteq> lf \<and> c \<noteq> cr \<and> c \<noteq> CHR ''<'')" "q = sq \<or> q = dq"
    by (simp_all add: list_all_iff) blast
  then show ?thesis unfolding re_dot_def by (elim disjE) simp_all
qed

lemma wf_piece_ends:
  assumes "wf_piece p"
  shows "piece_src p \<noteq> [] \<and> \<not> is_ws (hd (piece_src p)) \<and> \<not> is_ws (last (piece_src p))"
proof (cases p)
  case (Plain s)
  with assms show ?thesis by (simp add: list_all_iff)
next
  case (Quoted q s)
  with assms have "\<not> is_ws q" using not_ws_consts by auto
  with Quoted show ?thesis by simp
qed

lemma split_args_piece:
  assumes "wf_piece p"
  shows "split_args None cur acc (piece_src p @ s) = split_args None (cur @ piece_src p) acc s"
proof (cases p)
  case (Plain w)
  with assms have "\<forall>c\<in>set w. \<not> is_ws c \<and> c \<noteq> dq \<and> c \<noteq> sq" by (simp add: list_all_iff)
  then have "\<forall>c\<in>set w. c \<noteq> dq \<and> c \<noteq> sq \<and> c \<noteq> CHR '' ''"
    using not_ws_consts(5) by metis
  with Plain show ?thesis by (simp add: split_args_word)
next
  case (Quoted q w)
  with assms have "q = dq \<or> q = sq" "\<forall>c\<in>set w. c \<noteq> sq \<and> c \<noteq> dq"
    by (auto simp: list_all_iff)
  then have "q = dq \<or> q = sq" "q \<notin> set w" by blast+
  with Quoted show ?thesis using split_args_quoted [of q w cur acc s] by simp
qed

lemma split_args_wf_word:
  "list_all wf_piece w \<Longrightarrow>
   split_args None cur acc (word_src w @ s) = split_args None (cur @ word_src w) acc s"
  by (induction w arbitrary: cur) (auto simp: word_src_def split_args_piece)

lemma wf_word_trim:
  assumes "wf_word w"
  shows "js_trim (word_src w) = word_src w \<and> word_src w \<noteq> []"
proof -
  obtain p v where w: "w = p # v" using assms by (cases w) (auto simp: wf_word_def)
  obtain u l where u: "w = u @ [l]" using assms by (cases w rule: rev_cases) (auto simp: wf_word_def)
  have "p \<in> set w" by (simp add: w)
  moreover have "l \<in> set w" by (simp add: u)
  ultimately have "wf_piece p" "wf_piece l" using assms by (auto simp: wf_word_def list_all_iff)
  then have e: "piece_src p \<noteq> []" "\<not> is_ws (hd (piece_src p))" "\<not> is_ws (last (piece_src l))"
    "piece_src l \<noteq> []"
    using wf_piece_ends by auto
  have "word_src w = piece_src p @ word_src v" by (simp add: word_src_def w)
  moreover have "word_src w = word_src u @ piece_src l" by (simp add: word_src_def u)
  ultimately have "\<not> is_ws (hd (word_src w))" "\<not> is_ws (last (word_src w))" "word_src w \<noteq> []"
    using e by (metis hd_append2, metis last_appendR, metis append_is_Nil_conv)
  then show ?thesis using js_trim_id by blast
qed

lemma split_words_wf:
  assumes "ws \<noteq> []" "list_all wf_word ws"
  shows "split_args None [] acc (js_join '' '' (map word_src ws)) =
    (acc @ map word_src (butlast ws), word_src (last ws))"
  using assms
proof (induction ws arbitrary: acc)
  case (Cons w ws)
  have w: "list_all wf_piece w" "js_trim (word_src w) = word_src w" "word_src w \<noteq> []"
    using Cons.prems wf_word_trim by (auto simp: wf_word_def)
  show ?case
  proof (cases "ws = []")
    case True
    then show ?thesis using split_args_wf_word [OF w(1), of "[]" acc "[]"] by simp
  next
    case False
    then show ?thesis using Cons w
      by (simp add: js_join_Cons split_args_wf_word)
  qed
qed simp

lemma split_words_round_trip:
  assumes "list_all wf_word ws"
  shows "split_words (js_join '' '' (map word_src ws)) = map word_src ws"
proof (cases "ws = []")
  case True
  then show ?thesis by (simp add: split_words_def)
next
  case False
  with assms have "wf_word (last ws)" by (simp add: list_all_iff)
  then have "js_trim (word_src (last ws)) = word_src (last ws)" "word_src (last ws) \<noteq> []"
    using wf_word_trim by blast+
  then have "split_words (js_join '' '' (map word_src ws)) =
      map word_src (butlast ws) @ [word_src (last ws)]"
    by (simp add: split_words_def split_words_wf [OF False assms])
  also have "\<dots> = map word_src (butlast ws @ [last ws])" by (simp only: map_append list.map)
  also have "\<dots> = map word_src ws" using False by simp
  finally show ?thesis .
qed

text \<open>Normalising a word drops exactly the quotes of its quoted pieces.\<close>

definition half_src :: "piece \<Rightarrow> string" where
  "half_src p = (case p of Plain s \<Rightarrow> s | Quoted q s \<Rightarrow> if q = sq then s else q # s @ [q])"

lemma unquote_sq_pieces:
  "list_all wf_piece w \<Longrightarrow> unquote sq (word_src w) = concat (map half_src w)"
proof (induction w)
  case (Cons p w)
  show ?case
  proof (cases p)
    case (Plain s)
    with Cons.prems have "sq \<notin> set s" by (auto simp: list_all_iff)
    with Plain Cons show ?thesis by (simp add: word_src_def half_src_def unquote_prefix)
  next
    case (Quoted q s)
    with Cons have q: "q = sq \<or> q = dq" and s: "sq \<notin> set s" by (auto simp: list_all_iff)
    from q show ?thesis
    proof
      assume "q = sq"
      with Quoted Cons s show ?thesis
        by (simp add: word_src_def half_src_def unquote_pair del: unquote.simps)
    next
      assume "q = dq"
      with s have "sq \<notin> set (q # s @ [q])" by simp
      from unquote_prefix [OF this, of "word_src w"] \<open>q = dq\<close> Quoted Cons show ?thesis
        by (simp add: word_src_def half_src_def)
    qed
  qed
qed (simp add: word_src_def)

lemma unquote_dq_pieces:
  "list_all wf_piece w \<Longrightarrow> unquote dq (concat (map half_src w)) = word_text w"
proof (induction w)
  case (Cons p w)
  have "unquote dq (half_src p @ s) = piece_text p @ unquote dq s" for s
  proof (cases p)
    case (Plain t)
    with Cons.prems have "dq \<notin> set t" by (auto simp: list_all_iff)
    with Plain show ?thesis by (simp add: half_src_def unquote_prefix)
  next
    case (Quoted q t)
    with Cons.prems have "q = sq \<or> q = dq" "dq \<notin> set t" by (auto simp: list_all_iff)
    with Quoted show ?thesis
      by (auto simp: half_src_def unquote_prefix unquote_pair simp del: unquote.simps)
  qed
  with Cons show ?case by (simp add: word_text_def)
qed (simp add: word_text_def)

lemma normalize_word: "wf_word w \<Longrightarrow> normalizeShellArgument (word_src w) = word_text w"
  using wf_word_trim [of w]
  by (simp add: normalizeShellArgument_def wf_word_def unquote_sq_pieces unquote_dq_pieces)

section \<open>Properties\<close>

lemma word_src_chars: "wf_word w \<Longrightarrow> c \<in> set (word_src w) \<Longrightarrow> re_dot c \<and> c \<noteq> CHR ''<''"
  using wf_piece_chars by (fastforce simp: wf_word_def word_src_def list_all_iff)

lemma set_js_join: "c \<in> set (js_join sep xs) \<Longrightarrow> c \<in> set sep \<or> (\<exists>x\<in>set xs. c \<in> set x)"
  by (induction sep xs rule: js_join.induct) auto

lemma words_line:
  assumes "list_all wf_word ws" "ws \<noteq> []"
  defines "a \<equiv> js_join '' '' (map word_src ws)"
  shows "list_all re_dot a \<and> CHR ''<'' \<notin> set a \<and> a \<noteq> []"
proof -
  have "re_dot c \<and> c \<noteq> CHR ''<''" if "c \<in> set a" for c
  proof -
    from set_js_join that have "c = CHR '' '' \<or> (\<exists>w\<in>set ws. c \<in> set (word_src w))"
      unfolding a_def by fastforce
    then show ?thesis
    proof
      assume "c = CHR '' ''"
      then show ?thesis by (simp add: re_dot_def)
    next
      assume "\<exists>w\<in>set ws. c \<in> set (word_src w)"
      with assms(1) show ?thesis using word_src_chars by (auto simp: list_all_iff)
    qed
  qed
  moreover have "a \<noteq> []"
  proof -
    obtain w v where "ws = w # v" "wf_word w" using assms(1,2) by (cases ws) auto
    with wf_word_trim [of w] show ?thesis
      unfolding a_def by (cases v) auto
  qed
  ultimately show ?thesis by (auto simp: list_all_iff)
qed

definition tty_default :: "string list \<Rightarrow> string list" where
  "tty_default args =
     (if list_ex (\<lambda>arg. js_includes arg ''RequestTTY='') args then args
      else args @ [''-o'', ''RequestTTY=yes''])"

lemma tty_yes_includes: "js_includes ''RequestTTY=yes'' ''RequestTTY=''"
  by (simp add: js_defs)

lemma extractSshArgs_words_lemma:
  assumes "list_all wf_word ws" "ws \<noteq> []"
    and "js_indexOf (pre @ ''ssh '') ''ssh '' = Some (length pre)"
    and "sq \<notin> set r" "CHR ''<'' \<notin> set r" "r \<noteq> []"
  shows "extractSshArgs (pre @ ''ssh '' @ js_join '' '' (map word_src ws) @ CHR '' '' # sq # r @ sq # '' << '' @ rest)
    = tty_default (map (\<lambda>w. force_tty (word_text w)) ws)"
proof -
  let ?args = "map (\<lambda>w. force_tty (word_text w)) ws"
  have m: "sshCommandMatch (pre @ ''ssh '' @ js_join '' '' (map word_src ws) @
      CHR '' '' # sq # r @ sq # '' << '' @ rest) = Some (js_join '' '' (map word_src ws))"
    using words_line [OF assms(1,2)] assms(3-) by (intro sshCommandMatch_lazy) auto
  have args: "map force_tty (map normalizeShellArgument
      (split_words (js_join '' '' (map word_src ws)))) = ?args"
    unfolding split_words_round_trip [OF assms(1)] using assms(1)
    by (auto simp: list_all_iff normalize_word)
  have "''RequestTTY=yes'' \<in> set ?args \<Longrightarrow>
      list_ex (\<lambda>arg. js_includes arg ''RequestTTY='') ?args"
    using tty_yes_includes by (fastforce simp: list_ex_iff)
  then show ?thesis
    unfolding extractSshArgs_def m option.case args Let_def tty_default_def by presburger
qed

text \<open>Once the command matches, the arguments always ask for some RequestTTY value, and never
  for \<open>RequestTTY=no\<close>.\<close>

lemma extractSshArgs_requests_tty_lemma:
  assumes "extractSshArgs cmd \<noteq> []"
  shows "list_ex (\<lambda>arg. js_includes arg ''RequestTTY='') (extractSshArgs cmd)
    \<and> ''RequestTTY=no'' \<notin> set (extractSshArgs cmd)"
proof -
  obtain a where a: "sshCommandMatch cmd = Some a"
    using assms by (auto simp: extractSshArgs_def split: option.splits)
  let ?args = "map force_tty (map normalizeShellArgument (split_words a))"
  have no: "''RequestTTY=no'' \<notin> set ?args" by (auto simp: force_tty_def)
  have yes: "''RequestTTY=yes'' \<in> set xs \<Longrightarrow> list_ex (\<lambda>arg. js_includes arg ''RequestTTY='') xs" for xs
    using tty_yes_includes by (fastforce simp: list_ex_iff)
  have "extractSshArgs cmd = (if ''RequestTTY=yes'' \<notin> set ?args
      \<and> \<not> list_ex (\<lambda>arg. js_includes arg ''RequestTTY='') ?args
    then ?args @ [''-o'', ''RequestTTY=yes''] else ?args)"
    by (simp only: extractSshArgs_def a option.case Let_def)
  then show ?thesis
    using no yes [of ?args] yes [of "?args @ [''-o'', ''RequestTTY=yes'']"]
    by (auto simp del: map_map split: if_splits)
qed

section \<open>The here-document round trip\<close>

lemma hereDocMatch_first:
  assumes "js_indexOf rest d = Some i"
    and "js_indexOf (pre @ ''<< '' @ bsl # d) (''<< '' @ bsl # d) = Some (length pre)"
  shows "hereDocMatch d (pre @ ''<< '' @ bsl # d @ rest) = Some (take i rest)"
  using assms(2)
proof (induction pre)
  case Nil
  have "js_startsWith (''<< '' @ bsl # d @ rest) (''<< '' @ bsl # d)"
    unfolding js_startsWith_iff by simp
  with assms(1) show ?case by (simp add: Let_def)
next
  case (Cons c pre)
  let ?o = "''<< '' @ bsl # d"
  have no: "\<not> js_startsWith ((c # pre) @ ?o) ?o"
    using js_indexOf_least [OF Cons.prems, of 0] by simp
  then have "\<not> js_startsWith ((c # pre) @ ?o @ rest) ?o"
    using js_startsWith_append_le [of ?o "(c # pre) @ ?o" rest] by simp
  moreover have "js_indexOf (pre @ ?o) ?o = Some (length pre)"
    using Cons.prems no by (auto split: if_splits)
  ultimately show ?case using Cons.IH by (simp add: Let_def)
qed

lemma delimiterMatch_first:
  assumes "js_indexOf (pre @ ''<< '') ''<< '' = Some (length pre)"
    and "d \<noteq> []" "list_all (\<lambda>c. \<not> is_ws c) d" "is_ws w"
  shows "delimiterMatch (pre @ ''<< '' @ d @ w # rest) = Some d"
  using assms(1)
proof (induction pre)
  case Nil
  have "takeWhile (\<lambda>e. \<not> is_ws e) (d @ w # rest) = d"
    using assms(3,4) by (induction d) auto
  with assms(2) show ?case by (simp add: js_startsWith_def)
next
  case (Cons c pre)
  have no: "\<not> js_startsWith ((c # pre) @ ''<< '') ''<< ''"
    using js_indexOf_least [OF Cons.prems, of 0] by simp
  then have "\<not> js_startsWith ((c # pre) @ ''<< '' @ x) ''<< ''" for x
    using js_startsWith_append_le [of "''<< ''" "(c # pre) @ ''<< ''" x] by simp
  moreover have "js_indexOf (pre @ ''<< '') ''<< '' = Some (length pre)"
    using Cons.prems no by (auto split: if_splits)
  ultimately show ?case using Cons.IH by (simp add: Let_def)
qed

lemma js_indexOf_extend:
  assumes "js_indexOf (pre @ p) p = Some (length pre)"
  shows "js_indexOf (pre @ p @ q) (p @ q) = Some (length pre)"
  using assms
proof (induction pre)
  case Nil
  have "js_startsWith (p @ q) (p @ q)" by (simp add: js_startsWith_def)
  then show ?case by (cases "p @ q") (simp_all del: append_is_Nil_conv)
next
  case (Cons c pre)
  have no: "\<not> js_startsWith ((c # pre) @ p) p"
    using js_indexOf_least [OF Cons.prems, of 0] by simp
  then have "\<not> js_startsWith ((c # pre) @ p @ q) p"
    using js_startsWith_append_le [of p "(c # pre) @ p" q] by simp
  then have "\<not> js_startsWith ((c # pre) @ p @ q) (p @ q)"
    unfolding js_startsWith_iff by auto
  moreover have "js_indexOf (pre @ p) p = Some (length pre)"
    using Cons.prems no by (auto split: if_splits)
  ultimately show ?case using Cons.IH by simp
qed

lemma heredoc_content:
  assumes "js_indexOf (pre @ ''<< '') ''<< '' = Some (length pre)"
    and "d \<noteq> []" "list_all (\<lambda>c. \<not> is_ws c) d" "is_ws w"
    and "js_indexOf (w # body @ d) d = Some (Suc (length body))"
  shows "extractHereDocContent (pre @ ''<< '' @ bsl # d @ w # body @ d) = w # body"
proof -
  have b: "\<not> is_ws bsl" by (simp add: is_ws_def code_def)
  have "delimiterMatch (pre @ ''<< '' @ (bsl # d) @ w # (body @ d)) = Some (bsl # d)"
    using assms b by (intro delimiterMatch_first) auto
  then have dm: "delimiterMatch (pre @ ''<< '' @ bsl # d @ w # body @ d) = Some (bsl # d)" by simp
  have tr: "js_trim d = d" using assms(3) by (auto simp: list_all_iff intro!: js_trim_no_ws)
  have "js_indexOf (pre @ ''<< '' @ bsl # d) (''<< '' @ bsl # d) = Some (length pre)"
    using js_indexOf_extend [OF assms(1), of "bsl # d"] by simp
  from hereDocMatch_first [OF assms(5) this]
  have hm: "hereDocMatch d (pre @ ''<< '' @ bsl # d @ w # body @ d) = Some (w # body)" by simp
  have dr: "drop 1 (bsl # d) = d" by simp
  show ?thesis
    unfolding extractHereDocContent_def dm option.case Let_def dr tr hm using assms(2) by simp
qed

section \<open>Claims\<close>

text \<open>C21: Splitting the generated command line gives back its words. For any list of
  well-formed shell words (plain and quoted pieces), the arguments extracted from
  \<open>... ssh WORDS 'REMOTE' << ...\<close> are the texts of the words with the quotes removed, where
  \<open>RequestTTY=no\<close> becomes \<open>RequestTTY=yes\<close> and the option is added when it is missing.\<close>

theorem extractSshArgs_round_trip:
  assumes "list_all wf_word ws" "ws \<noteq> []"
    and "js_indexOf (pre @ ''ssh '') ''ssh '' = Some (length pre)"
    and "sq \<notin> set r" "CHR ''<'' \<notin> set r" "r \<noteq> []"
  shows "extractSshArgs (pre @ ''ssh '' @ js_join '' '' (map word_src ws) @
      CHR '' '' # sq # r @ sq # '' << '' @ rest) = tty_default (map (\<lambda>w. force_tty (word_text w)) ws)"
  using assms by (rule extractSshArgs_words_lemma)

theorem extractSshArgs_round_trip_witness:
  "extractSshArgs (''timeout 9 '' @ ''ssh '' @
      js_join '' '' (map word_src [[Plain ''-p''], [Quoted sq ''22''], [Quoted sq ''root'', Plain ''@'', Quoted sq ''h'']])
      @ CHR '' '' # sq # ''sh'' @ sq # '' << '' @ ''x'')
   = [''-p'', ''22'', ''root@h'', ''-o'', ''RequestTTY=yes'']"
proof -
  let ?ws = "[[Plain ''-p''], [Quoted sq ''22''], [Quoted sq ''root'', Plain ''@'', Quoted sq ''h'']]"
  have "list_all wf_word ?ws" "?ws \<noteq> []"
    "js_indexOf (''timeout 9 '' @ ''ssh '') ''ssh '' = Some (length ''timeout 9 '')"
    "sq \<notin> set ''sh''" "CHR ''<'' \<notin> set ''sh''" "''sh'' \<noteq> []"
    by (simp_all add: wf_word_def is_ws_def code_def js_startsWith_def)
  from extractSshArgs_round_trip [OF this, of "''x''"] show ?thesis
    by (simp add: tty_default_def force_tty_def word_text_def js_defs)
qed

text \<open>A parsed command always asks for a terminal: whenever any argument is extracted,
  some argument carries a \<open>RequestTTY=\<close> option and none of them is \<open>RequestTTY=no\<close>.\<close>

theorem extractSshArgs_requests_tty:
  assumes "extractSshArgs cmd \<noteq> []"
  shows "list_ex (\<lambda>arg. js_includes arg ''RequestTTY='') (extractSshArgs cmd)
    \<and> ''RequestTTY=no'' \<notin> set (extractSshArgs cmd)"
  using assms by (rule extractSshArgs_requests_tty_lemma)

theorem extractSshArgs_requests_tty_witness:
  "extractSshArgs (''ssh a '' @ [sq] @ ''b'' @ [sq] @ '' << c'') \<noteq> []
   \<and> list_ex (\<lambda>arg. js_includes arg ''RequestTTY='') (extractSshArgs (''ssh a '' @ [sq] @ ''b'' @ [sq] @ '' << c''))"
proof -
  have "extractSshArgs (''ssh a '' @ [sq] @ ''b'' @ [sq] @ '' << c'') \<noteq> []"
    by code_simp
  with extractSshArgs_requests_tty show ?thesis by blast
qed

text \<open>C26: The here-document round trip. When the first \<open><< \D\<close> of the command opens a
  document with the delimiter \<open>D\<close> and the body does not hold \<open>D\<close> before its end, the extracted
  content is exactly the text between the opening and the closing delimiter.\<close>

theorem extractHereDocContent_round_trip:
  assumes "js_indexOf (pre @ ''<< '') ''<< '' = Some (length pre)"
    and "d \<noteq> []" "list_all (\<lambda>c. \<not> is_ws c) d" "is_ws w"
    and "js_indexOf (w # body @ d) d = Some (Suc (length body))"
  shows "extractHereDocContent (pre @ ''<< '' @ bsl # d @ w # body @ d) = w # body"
  using assms by (rule heredoc_content)

theorem extractHereDocContent_round_trip_witness:
  "extractHereDocContent (''ssh h '' @ ''<< '' @ bsl # ''END'' @ CHR '' '' # ''ls -l '' @ ''END'')
    = '' ls -l ''"
proof -
  have "js_indexOf (''ssh h '' @ ''<< '') ''<< '' = Some (length ''ssh h '')"
    "''END'' \<noteq> []" "list_all (\<lambda>c. \<not> is_ws c) ''END''" "is_ws (CHR '' '')"
    "js_indexOf (CHR '' '' # ''ls -l '' @ ''END'') ''END'' = Some (Suc (length ''ls -l ''))"
    by (simp_all add: is_ws_def code_def js_startsWith_def)
  from extractHereDocContent_round_trip [OF this] show ?thesis by simp
qed

end
