(* ===== verification/SshPolicy.thy ===== *)
theory SshPolicy
  imports JSPrelude
begin

text \<open>
  The admission policy of the terminal server for ssh arguments
  (docker/coolify-terminal/terminal-utils.js): the target host and its authorisation, the
  allow-list of options, the validation loop and the removal of multiplexing options. The
  accepted command lines are characterised by a grammar of items (\<open>ssh_item\<close>), and the laws
  the server relies on are the locale \<open>ssh_gate\<close>.
\<close>

section \<open>The target host\<close>

definition quoted_by :: "char \<Rightarrow> string \<Rightarrow> bool" where
  "quoted_by q h \<longleftrightarrow> js_startsWith h [q] \<and> js_endsWith h [q]"

function strip_host_quotes :: "string \<Rightarrow> string" where
  "strip_host_quotes h =
     (if 2 \<le> length h \<and> (quoted_by sq h \<or> quoted_by dq h)
      then strip_host_quotes (js_trim (butlast (tl h))) else h)"
  by pat_completeness auto

termination
proof (relation "measure length", simp)
  fix h :: string
  assume "2 \<le> length h \<and> (quoted_by sq h \<or> quoted_by dq h)"
  then have "2 \<le> length h" by blast
  then have "length (butlast (tl h)) < length h" by simp
  with length_js_trim [of "butlast (tl h)"]
  show "(js_trim (butlast (tl h)), h) \<in> measure length" by simp
qed

declare strip_host_quotes.simps [simp del]

definition normalizeHostForAuthorization :: "string option \<Rightarrow> string option" where
  "normalizeHostForAuthorization host =
     (case host of
        None \<Rightarrow> None
      | Some h \<Rightarrow>
          if h = [] then None
          else
            (let n = strip_host_quotes (js_trim h);
                 u = (if js_startsWith n ''['' \<and> js_endsWith n '']'' then butlast (tl n) else n)
             in Some (js_lower u)))"

text \<open>\<open>/^[^@]+@[^@]+$/\<close>\<close>

definition is_user_at_host :: "string \<Rightarrow> bool" where
  "is_user_at_host arg =
     (let u = takeWhile (\<lambda>c. c \<noteq> CHR ''@'') arg; r = dropWhile (\<lambda>c. c \<noteq> CHR ''@'') arg
      in u \<noteq> [] \<and> r \<noteq> [] \<and> tl r \<noteq> [] \<and> CHR ''@'' \<notin> set (tl r))"

definition extractTargetHost :: "string list \<Rightarrow> string option" where
  "extractTargetHost sshArgs =
     (case find (\<lambda>arg. \<not> js_includes arg ''storage/app/ssh/keys/'' \<and> is_user_at_host arg) sshArgs of
        None \<Rightarrow> None
      | Some userAtHost \<Rightarrow>
          normalizeHostForAuthorization (Some (tl (dropWhile (\<lambda>c. c \<noteq> CHR ''@'') userAtHost))))"

definition isAuthorizedTargetHost :: "string option \<Rightarrow> string list \<Rightarrow> bool" where
  "isAuthorizedTargetHost targetHost authorizedHosts =
     (case normalizeHostForAuthorization targetHost of
        None \<Rightarrow> False
      | Some t \<Rightarrow> t \<noteq> [] \<and>
          Some t \<in> set (map (\<lambda>host. normalizeHostForAuthorization (Some host)) authorizedHosts))"

section \<open>Allowed options\<close>

definition REQUIRED_SSH_OPTIONS :: "string list" where
  "REQUIRED_SSH_OPTIONS =
     [''StrictHostKeyChecking'', ''UserKnownHostsFile'', ''PasswordAuthentication'',
      ''ConnectTimeout'', ''ServerAliveInterval'', ''RequestTTY'', ''LogLevel'']"

definition MULTIPLEXING_OPTIONS :: "string list" where
  "MULTIPLEXING_OPTIONS = [''ControlMaster'', ''ControlPath'', ''ControlPersist'']"

definition fixedOptions :: "(string \<times> string) list" where
  "fixedOptions =
     [(''StrictHostKeyChecking'', ''no''), (''UserKnownHostsFile'', ''/dev/null''),
      (''PasswordAuthentication'', ''no''), (''LogLevel'', ''ERROR''), (''ControlMaster'', ''auto''),
      (''ProxyCommand'', ''cloudflared access ssh --hostname %h'')]"

definition is_id_char :: "char \<Rightarrow> bool" where
  "is_id_char c \<longleftrightarrow> is_alnum c \<or> c = CHR ''_'' \<or> c = CHR ''-''"

text \<open>\<open>/^PREFIX[a-zA-Z0-9_-]+$/\<close>\<close>

definition prefixed_id :: "string \<Rightarrow> string \<Rightarrow> bool" where
  "prefixed_id p s \<longleftrightarrow>
     js_startsWith s p \<and> drop (length p) s \<noteq> [] \<and> list_all is_id_char (drop (length p) s)"

definition isAllowedSshOption :: "string \<Rightarrow> string \<Rightarrow> bool" where
  "isAllowedSshOption name value =
     (case map_of fixedOptions name of
        Some v \<Rightarrow> value = v
      | None \<Rightarrow>
          if name = ''RequestTTY'' then value = ''yes'' \<or> value = ''no''
          else if name = ''ConnectTimeout'' \<or> name = ''ServerAliveInterval'' \<or> name = ''ControlPersist''
          then all_digits value \<and> 0 < digits_val value
          else if name = ''ControlPath''
          then prefixed_id ''/var/www/html/storage/app/ssh/mux/mux_'' value
          else False)"

section \<open>Validation\<close>

record ssh_acc =
  seenOptions :: "string list"
  hasIdentityFile :: bool
  hasPort :: bool
  targetHost :: "string option"

definition ssh_acc0 :: ssh_acc where
  "ssh_acc0 = \<lparr>seenOptions = [], hasIdentityFile = False, hasPort = False, targetHost = None\<rparr>"

definition has_control :: "string \<Rightarrow> bool" where
  "has_control s \<longleftrightarrow> nul \<in> set s \<or> cr \<in> set s \<or> lf \<in> set s"

definition is_identity_file :: "string \<Rightarrow> bool" where
  "is_identity_file f = prefixed_id ''/var/www/html/storage/app/ssh/keys/ssh_key@'' f"

definition is_port :: "string \<Rightarrow> bool" where
  "is_port p \<longleftrightarrow> all_digits p \<and> \<not> digits_val p < 1 \<and> \<not> 65535 < digits_val p"

text \<open>\<open>/^[a-zA-Z0-9_][a-zA-Z0-9._-]*@[^@]+$/\<close>\<close>

definition is_destination :: "string \<Rightarrow> bool" where
  "is_destination a =
     (let u = takeWhile (\<lambda>c. c \<noteq> CHR ''@'') a; r = dropWhile (\<lambda>c. c \<noteq> CHR ''@'') a
      in u \<noteq> [] \<and> (is_alnum (hd u) \<or> hd u = CHR ''_'')
         \<and> list_all (\<lambda>c. is_alnum c \<or> c = CHR ''.'' \<or> c = CHR ''_'' \<or> c = CHR ''-'') (tl u)
         \<and> r \<noteq> [] \<and> tl r \<noteq> [] \<and> CHR ''@'' \<notin> set (tl r))"

text \<open>\<open>/^(?:[a-zA-Z0-9]|\[)/.test(targetHost ?? '')\<close>\<close>

definition host_start_ok :: "string option \<Rightarrow> bool" where
  "host_start_ok h = (case h of Some (c # _) \<Rightarrow> is_alnum c \<or> c = CHR ''['' | _ \<Rightarrow> False)"

text \<open>The loop over the arguments: \<open>None\<close> is an early \<open>return false\<close>. Reading past the end gives
  \<open>undefined\<close>, which no branch accepts. A separator below 1 is a missing or leading \<open>=\<close>.\<close>

fun validate_loop :: "ssh_acc \<Rightarrow> string list \<Rightarrow> ssh_acc option" where
  "validate_loop a [] = Some a"
| "validate_loop a (argument # rest) =
     (if has_control argument then None
      else if argument = ''-i'' then
        (case rest of
           [] \<Rightarrow> None
         | identityFile # rest' \<Rightarrow>
             if hasIdentityFile a \<or> \<not> is_identity_file identityFile then None
             else validate_loop (a\<lparr>hasIdentityFile := True\<rparr>) rest')
      else if argument = ''-p'' then
        (case rest of
           [] \<Rightarrow> None
         | port # rest' \<Rightarrow>
             if hasPort a \<or> \<not> is_port port then None
             else validate_loop (a\<lparr>hasPort := True\<rparr>) rest')
      else if argument = ''-o'' then
        (case rest of
           [] \<Rightarrow> None
         | option # rest' \<Rightarrow>
             (case js_indexOf option ''='' of
                None \<Rightarrow> None
              | Some separator \<Rightarrow>
                  if separator < 1 then None
                  else
                    (let name = take separator option; val = drop (separator + 1) option in
                     if name \<in> set (seenOptions a) \<or> \<not> isAllowedSshOption name val then None
                     else validate_loop (a\<lparr>seenOptions := name # seenOptions a\<rparr>) rest')))
      else if is_destination argument \<and> targetHost a = None then
        (let t = extractTargetHost [argument] in
         if \<not> host_start_ok t then None
         else validate_loop (a\<lparr>targetHost := t\<rparr>) rest)
      else None)"

definition accepts_acc :: "ssh_acc \<Rightarrow> string list \<Rightarrow> bool" where
  "accepts_acc a authorizedHosts \<longleftrightarrow>
     hasIdentityFile a \<and> hasPort a \<and> targetHost a \<noteq> None
     \<and> list_all (\<lambda>option. option \<in> set (seenOptions a)) REQUIRED_SSH_OPTIONS
     \<and> (\<not> list_ex (\<lambda>option. option \<in> set (seenOptions a)) MULTIPLEXING_OPTIONS
        \<or> list_all (\<lambda>option. option \<in> set (seenOptions a)) MULTIPLEXING_OPTIONS)
     \<and> isAuthorizedTargetHost (targetHost a) authorizedHosts"

definition validateSshArgs :: "string list \<Rightarrow> string list \<Rightarrow> bool" where
  "validateSshArgs sshArgs authorizedHosts =
     (if sshArgs = [] then False
      else (case validate_loop ssh_acc0 sshArgs of
              None \<Rightarrow> False
            | Some a \<Rightarrow> accepts_acc a authorizedHosts))"

section \<open>Removal of multiplexing options\<close>

definition option_name :: "string \<Rightarrow> string" where
  "option_name s = hd (js_split (CHR ''='') s)"

fun sanitizeSshArgs :: "string list \<Rightarrow> string list" where
  "sanitizeSshArgs [] = []"
| "sanitizeSshArgs [a] = [a]"
| "sanitizeSshArgs (a # b # rest) =
     (if a = ''-o'' \<and> option_name b \<in> set MULTIPLEXING_OPTIONS then sanitizeSshArgs rest
      else a # sanitizeSshArgs (b # rest))"

section \<open>The grammar of accepted command lines\<close>

datatype ssh_item =
    Identity string
  | Port string
  | Opt string string
  | Target string

fun render :: "ssh_item \<Rightarrow> string list" where
  "render (Identity f) = [''-i'', f]"
| "render (Port p) = [''-p'', p]"
| "render (Opt n v) = [''-o'', n @ ''='' @ v]"
| "render (Target t) = [t]"

fun item_ok :: "ssh_item \<Rightarrow> bool" where
  "item_ok (Identity f) = is_identity_file f"
| "item_ok (Port p) = is_port p"
| "item_ok (Opt n v) = isAllowedSshOption n v"
| "item_ok (Target t) =
     (is_destination t \<and> \<not> has_control t \<and> host_start_ok (extractTargetHost [t]))"

fun opt_names :: "ssh_item list \<Rightarrow> string list" where
  "opt_names [] = []"
| "opt_names (Opt n v # its) = n # opt_names its"
| "opt_names (_ # its) = opt_names its"

fun idents :: "ssh_item list \<Rightarrow> string list" where
  "idents [] = []"
| "idents (Identity f # its) = f # idents its"
| "idents (_ # its) = idents its"

fun ports :: "ssh_item list \<Rightarrow> string list" where
  "ports [] = []"
| "ports (Port p # its) = p # ports its"
| "ports (_ # its) = ports its"

fun targets :: "ssh_item list \<Rightarrow> string list" where
  "targets [] = []"
| "targets (Target t # its) = t # targets its"
| "targets (_ # its) = targets its"

text \<open>A valid command line: every item allowed, one identity file, one port, one target on the
  authorised list, no option twice, the required options present, multiplexing all or none.\<close>

definition valid_items :: "ssh_item list \<Rightarrow> string list \<Rightarrow> bool" where
  "valid_items its auth \<longleftrightarrow>
     list_all item_ok its \<and> length (idents its) = 1 \<and> length (ports its) = 1
     \<and> length (targets its) = 1 \<and> distinct (opt_names its)
     \<and> set REQUIRED_SSH_OPTIONS \<subseteq> set (opt_names its)
     \<and> (set MULTIPLEXING_OPTIONS \<inter> set (opt_names its) = {}
        \<or> set MULTIPLEXING_OPTIONS \<subseteq> set (opt_names its))
     \<and> isAuthorizedTargetHost (extractTargetHost (targets its)) auth"

fun admit :: "ssh_acc \<Rightarrow> ssh_item \<Rightarrow> ssh_acc option" where
  "admit a (Identity f) =
     (if hasIdentityFile a \<or> \<not> item_ok (Identity f) then None else Some (a\<lparr>hasIdentityFile := True\<rparr>))"
| "admit a (Port p) =
     (if hasPort a \<or> \<not> item_ok (Port p) then None else Some (a\<lparr>hasPort := True\<rparr>))"
| "admit a (Opt n v) =
     (if n \<in> set (seenOptions a) \<or> \<not> item_ok (Opt n v) then None
      else Some (a\<lparr>seenOptions := n # seenOptions a\<rparr>))"
| "admit a (Target t) =
     (if targetHost a \<noteq> None \<or> \<not> item_ok (Target t) then None
      else Some (a\<lparr>targetHost := extractTargetHost [t]\<rparr>))"

fun admits :: "ssh_acc \<Rightarrow> ssh_item list \<Rightarrow> ssh_acc option" where
  "admits a [] = Some a"
| "admits a (it # its) = (case admit a it of None \<Rightarrow> None | Some b \<Rightarrow> admits b its)"

subsection \<open>Facts about the allowed texts\<close>

lemma allowed_names:
  "isAllowedSshOption n v \<Longrightarrow>
   n \<in> set (map fst fixedOptions) \<union> {''RequestTTY'', ''ConnectTimeout'', ''ServerAliveInterval'',
     ''ControlPersist'', ''ControlPath''}"
  by (auto simp: isAllowedSshOption_def split: option.splits if_splits dest!: map_of_SomeD)
     (force simp: image_iff)+

lemma allowed_name_no_eq:
  assumes "isAllowedSshOption n v" shows "CHR ''='' \<notin> set n \<and> n \<noteq> []"
  using allowed_names [OF assms] by (auto simp: fixedOptions_def)

lemma js_indexOf_sep: "c \<notin> set n \<Longrightarrow> js_indexOf (n @ [c] @ v) [c] = Some (length n)"
  by (induction n) (auto simp: js_startsWith_def)

lemma js_indexOf_char_split:
  assumes "js_indexOf s [c] = Some i"
  shows "s = take i s @ c # drop (Suc i) s"
proof -
  from js_indexOf_Some [OF assms] have "i < length s" "take 1 (drop i s) = [c]" by auto
  then show ?thesis by (metis One_nat_def Cons_nth_drop_Suc append_take_drop_id
      list.inject take_Suc_Cons)
qed

lemma destination_not_flag:
  assumes "is_destination t" shows "t \<noteq> ''-i'' \<and> t \<noteq> ''-p'' \<and> t \<noteq> ''-o''"
  using assms by (auto simp: is_destination_def Let_def)

lemma flags_no_control: "\<not> has_control ''-i'' \<and> \<not> has_control ''-p'' \<and> \<not> has_control ''-o''"
  by (simp add: has_control_def)

subsection \<open>The loop runs the grammar\<close>

lemma validate_loop_render:
  assumes "admit a it = Some b"
  shows "validate_loop a (render it @ rest) = validate_loop b rest"
proof (cases it)
  case (Identity f)
  with assms show ?thesis by (auto simp: has_control_def split: if_splits)
next
  case (Port p)
  with assms show ?thesis by (auto simp: has_control_def split: if_splits)
next
  case (Opt n v)
  with assms have ok: "n \<notin> set (seenOptions a)" "isAllowedSshOption n v"
    and b: "b = a\<lparr>seenOptions := n # seenOptions a\<rparr>" by (auto split: if_splits)
  from ok(2) have n: "CHR ''='' \<notin> set n" "n \<noteq> []" using allowed_name_no_eq by auto
  then have ix: "js_indexOf (n @ CHR ''='' # v) ''='' = Some (length n)"
    using js_indexOf_sep [of "CHR ''=''" n v] by simp
  have "validate_loop a (render it @ rest) = validate_loop a (''-o'' # (n @ ''='' @ v) # rest)"
    by (simp add: Opt)
  also have "\<dots> = validate_loop b rest"
    using ok n by (simp add: has_control_def Let_def ix b)
  finally show ?thesis .
next
  case (Target t)
  with assms have t: "is_destination t" "\<not> has_control t" "targetHost a = None"
    "host_start_ok (extractTargetHost [t])" "b = a\<lparr>targetHost := extractTargetHost [t]\<rparr>"
    by (auto split: if_splits)
  with destination_not_flag [OF t(1)] Target show ?thesis by (simp add: Let_def)
qed

lemma validate_loop_admits:
  "admits a its = Some b \<Longrightarrow> validate_loop a (concat (map render its)) = Some b"
  by (induction its arbitrary: a) (auto simp: validate_loop_render split: option.splits)

text \<open>Conversely an accepting run of the loop reads off one item per iteration.\<close>

lemma validate_loop_step:
  assumes "validate_loop a (argument # rest) = Some b"
  obtains it a' rest' where "argument # rest = render it @ rest'" "admit a it = Some a'"
    "validate_loop a' rest' = Some b" "length rest' < length (argument # rest)"
proof -
  have c: "\<not> has_control argument" using assms by (auto split: if_splits)
  consider (i) "argument = ''-i''" | (p) "argument = ''-p''" | (o) "argument = ''-o''"
    | (t) "argument \<noteq> ''-i''" "argument \<noteq> ''-p''" "argument \<noteq> ''-o''" by blast
  then show ?thesis
  proof cases
    case i
    with assms c obtain f rest' where "rest = f # rest'" "\<not> hasIdentityFile a" "is_identity_file f"
      "validate_loop (a\<lparr>hasIdentityFile := True\<rparr>) rest' = Some b"
      by (auto split: list.splits if_splits)
    with i show ?thesis using that [of "Identity f" rest' "a\<lparr>hasIdentityFile := True\<rparr>"] by auto
  next
    case p
    with assms c obtain q rest' where "rest = q # rest'" "\<not> hasPort a" "is_port q"
      "validate_loop (a\<lparr>hasPort := True\<rparr>) rest' = Some b"
      by (auto split: list.splits if_splits)
    with p show ?thesis using that [of "Port q" rest' "a\<lparr>hasPort := True\<rparr>"] by auto
  next
    case o
    with assms c obtain q rest' k where r: "rest = q # rest'" and ix: "js_indexOf q ''='' = Some k"
      and k: "\<not> k < 1" "take k q \<notin> set (seenOptions a)" "isAllowedSshOption (take k q) (drop (k + 1) q)"
      and v: "validate_loop (a\<lparr>seenOptions := take k q # seenOptions a\<rparr>) rest' = Some b"
      by (auto simp: Let_def split: list.splits option.splits if_splits)
    have "q = take k q @ ''='' @ drop (k + 1) q" using js_indexOf_char_split [OF ix] by simp
    then have "argument # rest = render (Opt (take k q) (drop (k + 1) q)) @ rest'"
      using o r by simp
    with k v r show ?thesis
      using that [of "Opt (take k q) (drop (k + 1) q)" rest'] by auto
  next
    case t
    with assms c show ?thesis
      using that [of "Target argument" rest "a\<lparr>targetHost := extractTargetHost [argument]\<rparr>"]
      by (auto simp: Let_def split: if_splits)
  qed
qed

lemma admits_of_validate_loop:
  "validate_loop a args = Some b \<Longrightarrow> \<exists>its. args = concat (map render its) \<and> admits a its = Some b"
proof (induction "length args" arbitrary: a args rule: less_induct)
  case less
  show ?case
  proof (cases args)
    case Nil
    with less.prems show ?thesis by (intro exI [of _ "[]"]) auto
  next
    case (Cons argument rest)
    with less.prems obtain it a' rest' where s: "args = render it @ rest'" "admit a it = Some a'"
      "validate_loop a' rest' = Some b" "length rest' < length args"
      using validate_loop_step by metis
    from less.hyps [OF s(4,3)] obtain its where
      "rest' = concat (map render its)" "admits a' its = Some b" by blast
    with s show ?thesis by (intro exI [of _ "it # its"]) auto
  qed
qed

lemma validate_loop_iff_admits:
  "validate_loop a args = Some b \<longleftrightarrow> (\<exists>its. args = concat (map render its) \<and> admits a its = Some b)"
  using admits_of_validate_loop validate_loop_admits by blast

subsection \<open>What an admitted item list looks like\<close>

lemma host_start_Some: "host_start_ok h \<Longrightarrow> h \<noteq> None"
  by (cases h) (auto simp: host_start_ok_def)

lemma admits_iff:
  "admits a its = Some b \<longleftrightarrow>
     list_all item_ok its \<and> distinct (opt_names its) \<and> set (opt_names its) \<inter> set (seenOptions a) = {}
     \<and> length (idents its) + of_bool (hasIdentityFile a) \<le> 1
     \<and> length (ports its) + of_bool (hasPort a) \<le> 1
     \<and> length (targets its) + of_bool (targetHost a \<noteq> None) \<le> 1
     \<and> b = \<lparr>seenOptions = rev (opt_names its) @ seenOptions a,
            hasIdentityFile = (hasIdentityFile a \<or> idents its \<noteq> []),
            hasPort = (hasPort a \<or> ports its \<noteq> []),
            targetHost = (if targets its = [] then targetHost a else extractTargetHost (targets its))\<rparr>"
proof (induction its arbitrary: a)
  case Nil
  then show ?case by (cases a) auto
next
  case (Cons it its)
  show ?case
  proof (cases it)
    case (Identity f)
    then show ?thesis using Cons.IH [of "a\<lparr>hasIdentityFile := True\<rparr>"] by auto
  next
    case (Port p)
    then show ?thesis using Cons.IH [of "a\<lparr>hasPort := True\<rparr>"] by auto
  next
    case (Opt n v)
    then show ?thesis using Cons.IH [of "a\<lparr>seenOptions := n # seenOptions a\<rparr>"] by auto
  next
    case (Target t)
    then show ?thesis
      using Cons.IH [of "a\<lparr>targetHost := extractTargetHost [t]\<rparr>"] host_start_Some
      by (auto simp: numeral_2_eq_2)
  qed
qed

lemma accepts_admits_iff:
  "(\<exists>b. admits ssh_acc0 its = Some b \<and> accepts_acc b auth) \<longleftrightarrow> valid_items its auth"
proof -
  have one: "(length xs \<le> 1 \<and> xs \<noteq> []) \<longleftrightarrow> length xs = 1" for xs :: "string list"
    by (cases xs) auto
  have t: "targets its = [] \<Longrightarrow> \<not> isAuthorizedTargetHost None auth"
    by (simp add: isAuthorizedTargetHost_def normalizeHostForAuthorization_def)
  have h: "extractTargetHost (targets its) \<noteq> None"
    if i: "list_all item_ok its" and l: "length (targets its) = 1"
  proof -
    obtain u where "targets its = [u]" using l by (cases "targets its") auto
    moreover have "list_all item_ok its \<Longrightarrow> u \<in> set (targets its) \<Longrightarrow> item_ok (Target u)" for u
      by (induction its rule: targets.induct) auto
    ultimately show ?thesis using i host_start_Some by fastforce
  qed
  show ?thesis
    unfolding admits_iff valid_items_def accepts_acc_def ssh_acc0_def
    using one [of "idents its"] one [of "ports its"] one [of "targets its"] h t
    by (auto simp: list_all_iff list_ex_iff)
qed

lemma render_not_Nil [simp]: "render it \<noteq> []"
  by (cases it) auto

lemma validate_iff_items:
  "validateSshArgs args auth \<longleftrightarrow> (\<exists>its. args = concat (map render its) \<and> valid_items its auth)"
proof
  assume "validateSshArgs args auth"
  then obtain b where "validate_loop ssh_acc0 args = Some b" "accepts_acc b auth"
    by (auto simp: validateSshArgs_def split: if_splits option.splits)
  then show "\<exists>its. args = concat (map render its) \<and> valid_items its auth"
    using validate_loop_iff_admits accepts_admits_iff by blast
next
  assume "\<exists>its. args = concat (map render its) \<and> valid_items its auth"
  then obtain its where i: "args = concat (map render its)" "valid_items its auth" by blast
  then obtain b where b: "admits ssh_acc0 its = Some b" "accepts_acc b auth"
    using accepts_admits_iff by blast
  have "its \<noteq> []" using i(2) by (auto simp: valid_items_def)
  then have "args \<noteq> []" using i(1) by (cases its) auto
  moreover have "validate_loop ssh_acc0 args = Some b"
    using validate_loop_admits [OF b(1)] i(1) by simp
  ultimately show "validateSshArgs args auth" using b(2) by (simp add: validateSshArgs_def)
qed

section \<open>The target of an accepted command line\<close>

lemma prefixed_id_chars:
  "prefixed_id p s \<Longrightarrow> c \<in> set s \<Longrightarrow> c \<in> set p \<or> is_id_char c"
  by (auto simp: prefixed_id_def js_startsWith_iff list_all_iff)

lemma id_char_plain: "is_id_char c \<Longrightarrow> c \<noteq> CHR ''@'' \<and> c \<noteq> nul \<and> c \<noteq> cr \<and> c \<noteq> lf \<and> c \<noteq> CHR ''=''"
  by (auto simp: is_id_char_def char_class_defs is_alnum_def)

lemma digits_plain:
  "all_digits s \<Longrightarrow> c \<in> set s \<Longrightarrow> c \<noteq> CHR ''@'' \<and> c \<noteq> nul \<and> c \<noteq> cr \<and> c \<noteq> lf"
  by (auto simp: all_digits_def list_all_iff is_digit_def code_def)

lemma option_value_plain:
  assumes "isAllowedSshOption n v" "c \<in> set (n @ ''='' @ v)"
  shows "c \<noteq> CHR ''@'' \<and> c \<noteq> nul \<and> c \<noteq> cr \<and> c \<noteq> lf"
proof -
  have n: "c \<in> set n \<Longrightarrow> ?thesis" using allowed_names [OF assms(1)] by (auto simp: fixedOptions_def)
  have "c \<in> set v \<Longrightarrow> ?thesis"
  proof -
    assume c: "c \<in> set v"
    consider "(n, v) \<in> set fixedOptions" | "v = ''yes'' \<or> v = ''no''" | "all_digits v"
      | "prefixed_id ''/var/www/html/storage/app/ssh/mux/mux_'' v"
      using assms(1) by (auto simp: isAllowedSshOption_def split: option.splits if_splits
          dest: map_of_SomeD)
    then show ?thesis
    proof cases
      case 1
      then show ?thesis using c by (auto simp: fixedOptions_def)
    next
      case 2
      then show ?thesis using c by auto
    next
      case 3
      then show ?thesis using c digits_plain by blast
    next
      case 4
      from prefixed_id_chars [OF 4 c] id_char_plain show ?thesis by auto
    qed
  qed
  with n assms(2) show ?thesis by auto
qed

definition is_target_arg :: "string \<Rightarrow> bool" where
  "is_target_arg arg \<longleftrightarrow> \<not> js_includes arg ''storage/app/ssh/keys/'' \<and> is_user_at_host arg"

lemma find_append: "find P (xs @ ys) = (case find P xs of None \<Rightarrow> find P ys | Some x \<Rightarrow> Some x)"
  by (induction xs) auto

lemma no_at_no_target: "CHR ''@'' \<notin> set s \<Longrightarrow> \<not> is_target_arg s"
  by (auto simp: is_target_arg_def is_user_at_host_def Let_def)

lemma identity_no_target: "is_identity_file f \<Longrightarrow> \<not> is_target_arg f"
proof -
  assume "is_identity_file f"
  then obtain r where "f = ''/var/www/html/storage/app/ssh/keys/ssh_key@'' @ r"
    by (auto simp: is_identity_file_def prefixed_id_def js_startsWith_iff)
  then have "f = ''/var/www/html/'' @ ''storage/app/ssh/keys/'' @ ''ssh_key@'' @ r" by simp
  then have "js_includes f ''storage/app/ssh/keys/''" unfolding js_includes_iff by blast
  then show "\<not> is_target_arg f" by (simp add: is_target_arg_def)
qed

lemma port_no_at: "is_port p \<Longrightarrow> CHR ''@'' \<notin> set p"
  using digits_plain by (auto simp: is_port_def)

lemma find_render:
  assumes "item_ok it"
  shows "find is_target_arg (render it) =
    find is_target_arg (case it of Target t \<Rightarrow> [t] | _ \<Rightarrow> [])"
proof (cases it)
  case (Opt n v)
  with assms have "CHR ''@'' \<notin> set (n @ ''='' @ v)" using option_value_plain by fastforce
  with Opt show ?thesis using no_at_no_target [of "n @ ''='' @ v"] by (simp add: no_at_no_target)
qed (use assms in \<open>auto simp: identity_no_target port_no_at no_at_no_target\<close>)

lemma find_items:
  "list_all item_ok its \<Longrightarrow>
   find is_target_arg (concat (map render its)) = find is_target_arg (targets its)"
proof (induction its)
  case (Cons it its)
  then have "find is_target_arg (concat (map render (it # its))) =
      (case find is_target_arg (case it of Target t \<Rightarrow> [t] | _ \<Rightarrow> []) of
         None \<Rightarrow> find is_target_arg (targets its) | Some x \<Rightarrow> Some x)"
    by (cases "find is_target_arg (case it of Target t \<Rightarrow> [t] | _ \<Rightarrow> [])")
       (simp_all add: find_append find_render)
  then show ?case by (cases it) auto
qed simp

lemma extractTargetHost_items:
  "list_all item_ok its \<Longrightarrow>
   extractTargetHost (concat (map render its)) = extractTargetHost (targets its)"
  using find_items unfolding is_target_arg_def extractTargetHost_def by simp

lemma items_no_control:
  assumes "item_ok it" "s \<in> set (render it)" shows "\<not> has_control s"
proof (cases it)
  case (Identity f)
  have "c \<in> set f \<Longrightarrow> c \<noteq> nul \<and> c \<noteq> cr \<and> c \<noteq> lf" for c
    using assms(1) prefixed_id_chars [of _ f c] id_char_plain Identity
    by (fastforce simp: is_identity_file_def)
  with assms Identity show ?thesis by (auto simp: has_control_def)
next
  case (Port p)
  with assms digits_plain show ?thesis by (fastforce simp: has_control_def is_port_def)
next
  case (Opt n v)
  with assms have "\<And>c. c \<in> set (n @ ''='' @ v) \<Longrightarrow> c \<noteq> nul \<and> c \<noteq> cr \<and> c \<noteq> lf"
    using option_value_plain by fastforce
  then have "\<not> has_control (n @ ''='' @ v)" unfolding has_control_def by blast
  with assms(2) Opt flags_no_control show ?thesis by auto
qed (use assms in auto)

section \<open>Sanitising an accepted command line\<close>

fun not_mux :: "ssh_item \<Rightarrow> bool" where
  "not_mux (Opt n v) = (n \<notin> set MULTIPLEXING_OPTIONS)"
| "not_mux _ = True"

lemma sanitize_other: "a \<noteq> ''-o'' \<Longrightarrow> sanitizeSshArgs (a # rest) = a # sanitizeSshArgs rest"
  by (cases rest) auto

lemma option_name_render: "CHR ''='' \<notin> set n \<Longrightarrow> option_name (n @ ''='' @ v) = n"
  by (simp add: option_name_def js_split_append_sep)

lemma not_flag_o:
  "is_identity_file f \<Longrightarrow> f \<noteq> ''-o''" "is_port p \<Longrightarrow> p \<noteq> ''-o''" "n @ ''='' @ v \<noteq> ''-o''"
proof -
  show "is_identity_file f \<Longrightarrow> f \<noteq> ''-o''"
    by (auto simp: is_identity_file_def prefixed_id_def js_startsWith_def)
  show "is_port p \<Longrightarrow> p \<noteq> ''-o''" by (auto simp: is_port_def all_digits_def is_digit_def code_def)
  have "CHR ''='' \<in> set (n @ ''='' @ v)" "CHR ''='' \<notin> set ''-o''" by simp_all
  then show "n @ ''='' @ v \<noteq> ''-o''" by metis
qed

lemma sanitize_render:
  assumes "item_ok it"
  shows "sanitizeSshArgs (render it @ rest) =
    (if not_mux it then render it else []) @ sanitizeSshArgs rest"
proof (cases it)
  case (Opt n v)
  with assms have "CHR ''='' \<notin> set n" using allowed_name_no_eq by auto
  then have "option_name (n @ ''='' @ v) = n" by (rule option_name_render)
  moreover have "sanitizeSshArgs ((n @ ''='' @ v) # rest) = (n @ ''='' @ v) # sanitizeSshArgs rest"
    using not_flag_o(3) by (rule sanitize_other)
  ultimately show ?thesis using Opt by simp
qed (use assms not_flag_o destination_not_flag in \<open>auto simp: sanitize_other\<close>)

lemma sanitize_items:
  "list_all item_ok its \<Longrightarrow>
   sanitizeSshArgs (concat (map render its)) = concat (map render (filter not_mux its))"
  by (induction its) (auto simp: sanitize_render)

lemma filter_not_mux:
  "opt_names (filter not_mux its) = filter (\<lambda>n. n \<notin> set MULTIPLEXING_OPTIONS) (opt_names its)"
  "idents (filter not_mux its) = idents its" "ports (filter not_mux its) = ports its"
  "targets (filter not_mux its) = targets its"
  by (induction its rule: targets.induct) auto

lemma required_not_mux: "set REQUIRED_SSH_OPTIONS \<inter> set MULTIPLEXING_OPTIONS = {}"
  by (simp add: REQUIRED_SSH_OPTIONS_def MULTIPLEXING_OPTIONS_def)

lemma valid_items_sanitized:
  assumes "valid_items its auth" shows "valid_items (filter not_mux its) auth"
  using assms required_not_mux
  unfolding valid_items_def filter_not_mux by (auto simp: list_all_iff)

section \<open>Case-insensitive authorisation\<close>

lemma js_lower_char_fixed: "c = js_lower_char c \<Longrightarrow> js_lower_char d = c \<longleftrightarrow> d = c" if "code c < 65 \<or> (90 < code c \<and> code c < 97)"
proof -
  have "code d < 256" by (simp add: code_def)
  then show ?thesis using that
    by (auto simp: js_lower_char_def Let_def code_char_of split: if_splits)
qed

lemma js_lower_char_special:
  "js_lower_char d = sq \<longleftrightarrow> d = sq" "js_lower_char d = dq \<longleftrightarrow> d = dq"
  "js_lower_char d = CHR ''['' \<longleftrightarrow> d = CHR ''[''" "js_lower_char d = CHR '']'' \<longleftrightarrow> d = CHR '']''"
  by (rule js_lower_char_fixed; simp add: code_def js_lower_char_def)+

lemma is_ws_lower [simp]: "is_ws (js_lower_char c) = is_ws c"
proof -
  have "code c < 256" by (simp add: code_def)
  then show ?thesis by (auto simp: js_lower_char_def Let_def is_ws_def code_char_of)
qed

lemma dropWhile_ws_lower: "dropWhile is_ws (js_lower s) = js_lower (dropWhile is_ws s)"
  by (simp add: js_lower_def dropWhile_map comp_def)

lemma rev_lower: "rev (js_lower s) = js_lower (rev s)"
  by (simp add: js_lower_def rev_map)

lemma js_trim_lower: "js_trim (js_lower s) = js_lower (js_trim s)"
  by (simp add: js_trim_def dropWhile_ws_lower rev_lower)

lemma startsWith_char: "js_startsWith s [c] \<longleftrightarrow> s \<noteq> [] \<and> hd s = c"
  by (cases s) (auto simp: js_startsWith_def)

lemma endsWith_char: "js_endsWith s [c] \<longleftrightarrow> s \<noteq> [] \<and> last s = c"
  by (simp add: js_endsWith_def startsWith_char hd_rev)

lemma startsWith_lower:
  "s \<noteq> [] \<Longrightarrow> hd (js_lower s) = js_lower_char (hd s)" "s \<noteq> [] \<Longrightarrow> last (js_lower s) = js_lower_char (last s)"
  by (simp_all add: js_lower_def hd_map last_map)

lemma js_lower_Nil_iff [simp]: "js_lower s = [] \<longleftrightarrow> s = []"
  by (simp add: js_lower_def)

lemma quoted_by_lower: "q = sq \<or> q = dq \<Longrightarrow> quoted_by q (js_lower h) = quoted_by q h"
  by (cases "h = []")
     (auto simp: quoted_by_def startsWith_char endsWith_char startsWith_lower js_lower_char_special)

lemma middle_lower: "butlast (tl (js_lower s)) = js_lower (butlast (tl s))"
  by (simp add: js_lower_def map_tl map_butlast)

lemma strip_host_quotes_lower: "strip_host_quotes (js_lower h) = js_lower (strip_host_quotes h)"
proof (induction h rule: strip_host_quotes.induct)
  case (1 h)
  show ?case
  proof (cases "2 \<le> length h \<and> (quoted_by sq h \<or> quoted_by dq h)")
    case True
    then show ?thesis using "1" [OF True]
      by (subst (1 2) strip_host_quotes.simps)
         (simp add: quoted_by_lower middle_lower js_trim_lower)
  next
    case False
    then show ?thesis
      by (subst (1 2) strip_host_quotes.simps) (auto simp: quoted_by_lower)
  qed
qed

lemma normalize_host_lower:
  "normalizeHostForAuthorization (Some (js_lower h)) = normalizeHostForAuthorization (Some h)"
proof -
  let ?n = "strip_host_quotes (js_trim h)"
  have br: "(js_startsWith (js_lower ?n) ''['' \<and> js_endsWith (js_lower ?n) '']'') =
      (js_startsWith ?n ''['' \<and> js_endsWith ?n '']'')"
    by (cases "?n = []")
       (auto simp: startsWith_char endsWith_char startsWith_lower js_lower_char_special)
  show ?thesis
    by (simp add: normalizeHostForAuthorization_def Let_def js_trim_lower strip_host_quotes_lower
        br middle_lower)
qed

section \<open>The contract the terminal server relies on\<close>

text \<open>The server authorises the target of the parsed arguments, validates them and spawns ssh
  with the sanitised ones. What it needs is that sanitising changes neither the verdict nor the
  target, and that a valid command line has an authorised target.\<close>

locale ssh_gate =
  fixes validate :: "'a list \<Rightarrow> 'h list \<Rightarrow> bool"
    and sanitize :: "'a list \<Rightarrow> 'a list"
    and target :: "'a list \<Rightarrow> 't option"
    and authorized :: "'t option \<Rightarrow> 'h list \<Rightarrow> bool"
  assumes gate_target: "validate args hosts \<Longrightarrow> authorized (target args) hosts"
    and gate_valid: "validate args hosts \<Longrightarrow> validate (sanitize args) hosts"
    and gate_stable: "validate args hosts \<Longrightarrow> target (sanitize args) = target args"
begin

text \<open>Check and use agree: the arguments handed to ssh name the authorised host.\<close>

lemma spawned_authorized: "validate args hosts \<Longrightarrow> authorized (target (sanitize args)) hosts"
  using gate_target gate_stable by simp

lemma spawned_valid_target:
  "validate args hosts \<Longrightarrow>
   validate (sanitize args) hosts \<and> authorized (target (sanitize args)) hosts
   \<and> target (sanitize args) = target args"
  using spawned_authorized gate_valid gate_stable by blast

end

lemma valid_items_target:
  "valid_items its auth \<Longrightarrow>
   isAuthorizedTargetHost (extractTargetHost (concat (map render its))) auth"
  by (simp add: valid_items_def extractTargetHost_items)

lemma validate_sanitized:
  assumes "validateSshArgs args hosts"
  shows "validateSshArgs (sanitizeSshArgs args) hosts
    \<and> extractTargetHost (sanitizeSshArgs args) = extractTargetHost args"
proof -
  obtain its where i: "args = concat (map render its)" "valid_items its hosts"
    using assms validate_iff_items by blast
  then have ok: "list_all item_ok its" by (simp add: valid_items_def)
  then have s: "sanitizeSshArgs args = concat (map render (filter not_mux its))"
    using i(1) sanitize_items by simp
  have "list_all item_ok (filter not_mux its)" using ok by (simp add: list_all_iff)
  with ok i(1) s have "extractTargetHost (sanitizeSshArgs args) = extractTargetHost args"
    by (simp add: extractTargetHost_items filter_not_mux)
  moreover have "validateSshArgs (sanitizeSshArgs args) hosts"
    using s valid_items_sanitized [OF i(2)] validate_iff_items by blast
  ultimately show ?thesis by blast
qed

interpretation gate: ssh_gate validateSshArgs sanitizeSshArgs extractTargetHost isAuthorizedTargetHost
proof unfold_locales
  fix args hosts
  assume "validateSshArgs args hosts"
  then obtain its where "args = concat (map render its)" "valid_items its hosts"
    using validate_iff_items by blast
  then show "isAuthorizedTargetHost (extractTargetHost args) hosts"
    using valid_items_target by simp
qed (simp_all add: validate_sanitized)

section \<open>Claims\<close>

text \<open>C1: Validation accepts exactly the grammar. An argument list passes \<open>validateSshArgs\<close> if
  and only if it is the rendering of a list of items that are each allowed, with one identity
  file, one port, one authorised destination, no option twice, every required option present
  and the multiplexing options all present or all absent.\<close>

theorem validateSshArgs_grammar:
  "validateSshArgs args hosts =
     (\<exists>its. args = concat (map render its) \<and> valid_items its hosts)"
  by (rule validate_iff_items)

definition sample_items :: "ssh_item list" where
  "sample_items =
     [Identity ''/var/www/html/storage/app/ssh/keys/ssh_key@cm1'', Opt ''StrictHostKeyChecking'' ''no'',
      Opt ''UserKnownHostsFile'' ''/dev/null'', Opt ''PasswordAuthentication'' ''no'',
      Opt ''ConnectTimeout'' ''10'', Opt ''ServerAliveInterval'' ''20'', Opt ''RequestTTY'' ''yes'',
      Opt ''LogLevel'' ''ERROR'', Port ''22'', Target ''root@h1'']"

definition sample_args :: "string list" where
  "sample_args = concat (map render sample_items)"

lemmas char_eval = is_id_char_def is_alnum_def is_alpha_def is_digit_def is_ws_def code_def char_of_def bit_0

lemma sample_items_ok: "list_all item_ok sample_items"
  unfolding sample_items_def
  by (simp add: is_identity_file_def prefixed_id_def js_startsWith_def char_eval is_port_def
      all_digits_def digits_val_def isAllowedSshOption_def fixedOptions_def has_control_def
      is_destination_def host_start_ok_def extractTargetHost_def js_includes_def is_user_at_host_def
      normalizeHostForAuthorization_def js_trim_def strip_host_quotes.simps quoted_by_def
      js_endsWith_def js_lower_def js_lower_char_def)

lemma sample_authorized: "isAuthorizedTargetHost (extractTargetHost [''root@h1'']) [''H1'']"
  by (simp add: isAuthorizedTargetHost_def js_startsWith_def char_eval
      extractTargetHost_def js_includes_def is_user_at_host_def
      normalizeHostForAuthorization_def js_trim_def strip_host_quotes.simps quoted_by_def
      js_endsWith_def js_lower_def js_lower_char_def)

lemma sample_valid: "validateSshArgs sample_args [''H1'']"
proof -
  have "valid_items sample_items [''H1'']"
    unfolding valid_items_def using sample_items_ok sample_authorized
    by (simp add: sample_items_def REQUIRED_SSH_OPTIONS_def MULTIPLEXING_OPTIONS_def)
  then show ?thesis unfolding validate_iff_items sample_args_def by blast
qed

text \<open>C15: What ssh is given names an authorised host. For accepted arguments, the sanitised
  arguments are accepted too, have the same target as the arguments that were checked, and
  that target is on the authorised list.\<close>

theorem sanitized_args_authorized:
  assumes "validateSshArgs args hosts"
  shows "validateSshArgs (sanitizeSshArgs args) hosts
    \<and> isAuthorizedTargetHost (extractTargetHost (sanitizeSshArgs args)) hosts
    \<and> extractTargetHost (sanitizeSshArgs args) = extractTargetHost args"
  using assms by (rule gate.spawned_valid_target)

theorem sanitized_args_authorized_witness:
  "isAuthorizedTargetHost (extractTargetHost (sanitizeSshArgs sample_args)) [''H1'']"
  using sanitized_args_authorized [OF sample_valid] by blast

text \<open>No accepted argument can smuggle a line break or a NUL byte, and after sanitising no
  argument sets a multiplexing option: every option left is one of the other allowed names.\<close>

theorem sanitized_args_clean:
  assumes "validateSshArgs args hosts"
  shows "(\<forall>s\<in>set args. \<not> has_control s)
    \<and> (\<exists>its. sanitizeSshArgs args = concat (map render its) \<and> valid_items its hosts
         \<and> set (opt_names its) \<inter> set MULTIPLEXING_OPTIONS = {})"
proof -
  obtain its where i: "args = concat (map render its)" "valid_items its hosts"
    using assms validate_iff_items by blast
  then have ok: "list_all item_ok its" by (simp add: valid_items_def)
  have "\<forall>s\<in>set args. \<not> has_control s" using ok i(1) items_no_control by (auto simp: list_all_iff)
  moreover have "sanitizeSshArgs args = concat (map render (filter not_mux its))"
    using ok i(1) sanitize_items by simp
  ultimately show ?thesis using valid_items_sanitized [OF i(2)] filter_not_mux(1) by fastforce
qed

theorem sanitized_args_clean_witness: "list_all (\<lambda>s. \<not> has_control s) sample_args"
  using sanitized_args_clean [OF sample_valid] by (simp add: list_all_iff)

text \<open>Authorisation ignores the case of host names, on both sides: lower-casing the target or
  every entry of the authorised list changes no decision.\<close>

theorem isAuthorizedTargetHost_case_insensitive:
  "isAuthorizedTargetHost (Some (js_lower h)) (map js_lower hosts) = isAuthorizedTargetHost (Some h) hosts"
proof -
  have "map (\<lambda>host. normalizeHostForAuthorization (Some host)) (map js_lower hosts) =
      map (\<lambda>host. normalizeHostForAuthorization (Some host)) hosts"
    by (simp add: normalize_host_lower)
  then show ?thesis unfolding isAuthorizedTargetHost_def normalize_host_lower by (simp only:)
qed

end
