(* ===== verification/UpgradeAuth.thy ===== *)
theory UpgradeAuth
  imports JSPrelude
begin

text \<open>
  Authentication of a terminal WebSocket: the close codes, \<open>authenticateTerminalUpgrade\<close>,
  \<open>rejectTerminalSocket\<close> and \<open>createTerminalUpgradeHandler\<close> of
  docker/coolify-terminal/terminal-utils.js, and the HTTP side of terminal-server.js: the
  cookies, the request to Coolify, the readiness endpoint. Coolify's answer, the cookie parser
  and the \<open>ws\<close> server are outside the sources: the answer and the parsed cookies are
  arguments, the calls back from \<open>ws\<close> are events.
\<close>

section \<open>Close codes and the authentication request\<close>

definition AUTH_REJECTED :: nat where "AUTH_REJECTED = 4401"
definition TOKEN_REJECTED :: nat where "TOKEN_REJECTED = 4403"
definition AUTH_UNAVAILABLE :: nat where "AUTH_UNAVAILABLE = 1011"
definition TERMINAL_REJECTED_SOCKET_TERMINATE_MS :: nat where
  "TERMINAL_REJECTED_SOCKET_TERMINATE_MS = 2000"

record session_cookie =
  laravelSession :: "string option"
  xsrfToken :: "string option"
  sessionCookieName :: string

datatype auth_result =
    Authenticated
  | Refused (closeCode: nat) (reason: string) (status: "nat option") (cause: "string option")

type_synonym headers = "(string \<times> string) list"

text \<open>\<open>post path headers\<close> is \<open>postToCoolify\<close>: \<open>Inl\<close> a rejection with its error, \<open>Inr\<close> the
  status of the response.\<close>

definition authenticateTerminalUpgrade ::
    "session_cookie \<Rightarrow> (string \<Rightarrow> headers \<Rightarrow> string + nat) \<Rightarrow> auth_result" where
  "authenticateTerminalUpgrade sc post =
     (if \<not> truthy (laravelSession sc) \<or> \<not> truthy (xsrfToken sc)
      then Refused AUTH_REJECTED ''Unauthorized: Missing required tokens'' None None
      else
        (case post ''/terminal/auth''
           [(''Cookie'', sessionCookieName sc @ ''='' @ the (laravelSession sc)),
            (''X-XSRF-TOKEN'', the (xsrfToken sc))] of
           Inr st \<Rightarrow>
             if st = 200 then Authenticated
             else Refused AUTH_REJECTED ''Unauthorized: Invalid credentials'' (Some st) None
         | Inl e \<Rightarrow> Refused AUTH_UNAVAILABLE ''Internal Server Error'' None (Some e)))"

section \<open>Cookies of the upgrade request\<close>

text \<open>\<open>cookies\<close> is the result of the third-party \<open>parseCookie\<close> on the request's header.\<close>

definition cookie_char :: "char \<Rightarrow> char" where
  "cookie_char c = (if is_alnum c then c else CHR ''_'')"

definition session_cookie_name :: "string option \<Rightarrow> string" where
  "session_cookie_name appNameEnv =
     (let appName = (if truthy appNameEnv then the appNameEnv else ''laravel'')
      in js_lower (map cookie_char appName) @ ''_session'')"

definition getSessionCookie ::
    "(string \<Rightarrow> (string \<Rightarrow> string option)) \<Rightarrow> string option \<Rightarrow> string option \<Rightarrow> session_cookie" where
  "getSessionCookie parseCookie appNameEnv header =
     (let cookies = parseCookie (if truthy header then the header else []);
          name = session_cookie_name appNameEnv
      in \<lparr>laravelSession = cookies name, xsrfToken = cookies ''XSRF-TOKEN'', sessionCookieName = name\<rparr>)"

definition verifyClient ::
    "(string \<Rightarrow> (string \<Rightarrow> string option)) \<Rightarrow> string option \<Rightarrow> (string \<Rightarrow> headers \<Rightarrow> string + nat)
      \<Rightarrow> string option \<Rightarrow> auth_result" where
  "verifyClient parseCookie appNameEnv post header =
     authenticateTerminalUpgrade (getSessionCookie parseCookie appNameEnv header) post"

section \<open>Requests to Coolify\<close>

record http_request =
  hostname :: string
  port :: nat
  path :: string
  req_method :: string
  req_headers :: headers
  req_body :: string

definition utf8_length :: "string \<Rightarrow> nat" where
  "utf8_length s = sum_list (map (\<lambda>c. if code c < 128 then 1 else 2) s)"

definition coolify_request :: "string option \<Rightarrow> string \<Rightarrow> headers \<Rightarrow> json option \<Rightarrow> http_request" where
  "coolify_request authHostEnv p hs body =
     (let requestBody = (case body of None \<Rightarrow> [] | Some j \<Rightarrow> js_stringify j) in
      \<lparr>hostname = (if truthy authHostEnv then the authHostEnv else ''127.0.0.1''),
       port = 8080, path = p, req_method = ''POST'',
       req_headers = hs @ (case body of
           None \<Rightarrow> []
         | Some _ \<Rightarrow> [(''Content-Type'', ''application/json''),
                      (''Content-Length'', nat_to_string (utf8_length requestBody))]),
       req_body = requestBody\<rparr>)"

text \<open>\<open>parse\<close> is \<open>JSON.parse\<close>, \<open>None\<close> where it throws.\<close>

datatype response_data = NoData | JsonData json | TextData string

definition parseResponseData ::
    "(string \<Rightarrow> json option) \<Rightarrow> string \<Rightarrow> string \<Rightarrow> response_data option" where
  "parseResponseData parse contentType responseText =
     (if responseText = [] then Some NoData
      else if js_includes contentType ''application/json''
      then map_option JsonData (parse responseText)
      else Some (TextData responseText))"

definition coolify_response ::
    "(string \<Rightarrow> json option) \<Rightarrow> nat option \<Rightarrow> string \<Rightarrow> string list
      \<Rightarrow> string + (nat \<times> response_data)" where
  "coolify_response parse statusCode contentType chunks =
     (case parseResponseData parse contentType (concat chunks) of
        None \<Rightarrow> Inl ''SyntaxError''
      | Some d \<Rightarrow> Inr (case statusCode of None \<Rightarrow> 0 | Some s \<Rightarrow> s, d))"

definition createHttpError :: "nat \<Rightarrow> string" where
  "createHttpError st = ''Request failed with status code '' @ nat_to_string st"

text \<open>The plain HTTP endpoint: status and body.\<close>

definition ready_endpoint :: "string \<Rightarrow> nat \<times> string" where
  "ready_endpoint url = (if url = ''/ready'' then (200, ''OK'') else (404, ''Not Found''))"

text \<open>Whether the server logs: \<open>APP_ENV\<close> or \<open>NODE_ENV\<close>, and \<open>TERMINAL_DEBUG\<close>.\<close>

definition terminalDebugEnabled :: "string option \<Rightarrow> string option \<Rightarrow> string option \<Rightarrow> bool" where
  "terminalDebugEnabled appEnv nodeEnv debugEnv =
     (let first = (\<lambda>a b. if truthy a then the a else if truthy b then the b else []);
          envName = js_lower (first appEnv nodeEnv);
          debugOverride = js_lower (first debugEnv None)
      in envName \<in> {''local'', ''development''} \<or> debugOverride \<in> {''1'', ''true'', ''yes'', ''on''})"

section \<open>Rejecting a socket\<close>

datatype ws_effect =
    SetTerminateTimer nat
  | ClearTerminateTimer
  | SendText string
  | CloseWith "nat option" "string option"
  | TerminateSocket

definition rejectTerminalSocket ::
    "nat option \<Rightarrow> string option \<Rightarrow> string option \<Rightarrow> nat \<Rightarrow> ws_effect list" where
  "rejectTerminalSocket code0 reason0 message terminateAfterMs =
     [SetTerminateTimer terminateAfterMs]
     @ (case message of None \<Rightarrow> [] | Some m \<Rightarrow> [SendText m])
     @ [CloseWith code0 reason0]"

text \<open>The listeners it leaves on the socket: the \<open>once('close')\<close> that cancels the timer, the
  \<open>error\<close> listener and the timer itself.\<close>

datatype rejected_event = PeerClosed | PeerError | TerminateTimerFires

record rejected_socket =
  timer_armed :: bool
  close_listener :: bool
  rejected_fx :: "ws_effect list"

definition rejected_start :: "nat option \<Rightarrow> string option \<Rightarrow> string option \<Rightarrow> nat \<Rightarrow> rejected_socket" where
  "rejected_start c r m ms =
     \<lparr>timer_armed = True, close_listener = True, rejected_fx = rejectTerminalSocket c r m ms\<rparr>"

fun rejected_step :: "rejected_socket \<Rightarrow> rejected_event \<Rightarrow> rejected_socket" where
  "rejected_step s PeerClosed =
     (if close_listener s
      then s\<lparr>timer_armed := False, close_listener := False,
             rejected_fx := rejected_fx s @ [ClearTerminateTimer]\<rparr>
      else s)"
| "rejected_step s PeerError = s\<lparr>rejected_fx := rejected_fx s @ [TerminateSocket]\<rparr>"
| "rejected_step s TerminateTimerFires =
     (if timer_armed s
      then s\<lparr>timer_armed := False, rejected_fx := rejected_fx s @ [TerminateSocket]\<rparr> else s)"

section \<open>The upgrade listener\<close>

text \<open>What \<open>authenticate\<close> settles with: nothing, or an object of which the handler reads whether
  \<open>authenticated === true\<close>, the close code and the reason.\<close>

datatype auth_value =
    UndefinedResult
  | ResultObject bool "nat option" "string option"

definition value_of :: "auth_result \<Rightarrow> auth_value" where
  "value_of r = (case r of
     Authenticated \<Rightarrow> ResultObject True None None
   | Refused c why _ _ \<Rightarrow> ResultObject False (Some c) (Some why))"

datatype upgrade_phase =
    UpgradeIdle
  | UnknownPath
  | Authenticating
  | Upgrading auth_value
  | UpgradeFinished

datatype upgrade_event =
    UpgradeRequest bool
  | RawSocketError
  | RawSocketGone
  | AuthSettled "string + auth_value"
  | UpgradeCallback

datatype upgrade_effect =
    AddErrorListener
  | RemoveErrorListener
  | DestroyRawSocket
  | HandleUpgrade
  | TerminateWs
  | EmitConnection
  | OnRejected auth_value
  | RejectWs "ws_effect list"
  | UpgradeTypeError

record upgrade =
  phase :: upgrade_phase
  error_listener :: bool
  destroyed :: bool
  upgrade_fx :: "upgrade_effect list"

definition upgrade_start :: upgrade where
  "upgrade_start = \<lparr>phase = UpgradeIdle, error_listener = False, destroyed = False, upgrade_fx = []\<rparr>"

definition emit_up :: "upgrade_effect list \<Rightarrow> upgrade \<Rightarrow> upgrade" where
  "emit_up es u = u\<lparr>upgrade_fx := upgrade_fx u @ es\<rparr>"

text \<open>A rejected promise becomes an unavailable result before the next \<open>then\<close>.\<close>

definition settled_value :: "string + auth_value \<Rightarrow> auth_value" where
  "settled_value r = (case r of
     Inl e \<Rightarrow> ResultObject False (Some AUTH_UNAVAILABLE) (Some ''Internal Server Error'')
   | Inr v \<Rightarrow> v)"

text \<open>The callback of \<open>handleUpgrade\<close> for a handled path. Reading a property of \<open>undefined\<close>
  throws.\<close>

definition upgrade_callback :: "nat \<Rightarrow> auth_value \<Rightarrow> upgrade \<Rightarrow> upgrade" where
  "upgrade_callback terminateAfterMs v u =
     (case v of
        UndefinedResult \<Rightarrow> emit_up [OnRejected v, UpgradeTypeError] u
      | ResultObject ok c why \<Rightarrow>
          if ok then emit_up [EmitConnection] u
          else emit_up [OnRejected v, RejectWs (rejectTerminalSocket c why None terminateAfterMs)] u)"

fun createTerminalUpgradeHandler :: "nat \<Rightarrow> upgrade \<Rightarrow> upgrade_event \<Rightarrow> upgrade" where
  "createTerminalUpgradeHandler ms u (UpgradeRequest shouldHandle) =
     (if phase u \<noteq> UpgradeIdle then u
      else if \<not> shouldHandle then (emit_up [HandleUpgrade] u)\<lparr>phase := UnknownPath\<rparr>
      else (emit_up [AddErrorListener] u)\<lparr>phase := Authenticating, error_listener := True\<rparr>)"
| "createTerminalUpgradeHandler ms u RawSocketError =
     (if error_listener u then (emit_up [DestroyRawSocket] u)\<lparr>destroyed := True\<rparr> else u)"
| "createTerminalUpgradeHandler ms u RawSocketGone = u\<lparr>destroyed := True\<rparr>"
| "createTerminalUpgradeHandler ms u (AuthSettled r) =
     (if phase u \<noteq> Authenticating then u
      else
        (let v = (emit_up [RemoveErrorListener] u)\<lparr>error_listener := False\<rparr> in
         if destroyed u then v\<lparr>phase := UpgradeFinished\<rparr>
         else (emit_up [HandleUpgrade] v)\<lparr>phase := Upgrading (settled_value r)\<rparr>))"
| "createTerminalUpgradeHandler ms u UpgradeCallback =
     (case phase u of
        UnknownPath \<Rightarrow> (emit_up [TerminateWs] u)\<lparr>phase := UpgradeFinished\<rparr>
      | Upgrading v \<Rightarrow> (upgrade_callback ms v u)\<lparr>phase := UpgradeFinished\<rparr>
      | _ \<Rightarrow> u)"

section \<open>Lemmas\<close>

lemma cookie_name_char:
  "js_lower_char (cookie_char c) \<in> {d. is_digit d \<or> d = CHR ''_'' \<or> (97 \<le> code d \<and> code d \<le> 122)}"
proof -
  have "code c < 256" by (simp add: code_def)
  then show ?thesis
    by (auto simp: js_lower_char_def cookie_char_def is_alnum_def is_alpha_def is_digit_def Let_def
        code_char_of)
       (simp_all add: code_def)
qed

definition outcomes :: "upgrade \<Rightarrow> nat" where
  "outcomes u = length (filter (\<lambda>e. e = EmitConnection \<or> e = TerminateWs
     \<or> (\<exists>v. e = OnRejected v)) (upgrade_fx u))"

definition upgrade_inv :: "upgrade \<Rightarrow> bool" where
  "upgrade_inv u \<longleftrightarrow>
     (phase u \<noteq> UpgradeFinished \<longrightarrow> outcomes u = 0) \<and> outcomes u \<le> 1
     \<and> (error_listener u \<longleftrightarrow> phase u = Authenticating)"

lemma upgrade_inv_step: "upgrade_inv u \<Longrightarrow> upgrade_inv (createTerminalUpgradeHandler ms u e)"
  by (cases e; cases "phase u")
     (auto simp: upgrade_inv_def outcomes_def emit_up_def upgrade_callback_def Let_def
       split: auth_value.splits)

lemma upgrade_inv_start: "upgrade_inv upgrade_start"
  by (simp add: upgrade_inv_def upgrade_start_def outcomes_def)

interpretation up: event_machine "\<lambda>u. u = upgrade_start" "\<lambda>_ _. True"
    "createTerminalUpgradeHandler ms" upgrade_inv for ms
  by unfold_locales (simp_all add: upgrade_inv_step upgrade_inv_start)

lemma settled_value_True:
  "settled_value r = ResultObject True c w \<Longrightarrow> r = Inr (ResultObject True c w)"
  by (auto simp: settled_value_def split: sum.splits)

text \<open>The history of an upgrade: the value being upgraded came from a settled promise, and a
  connection was announced only for an authenticated one.\<close>

definition upgrade_trace :: "upgrade_event list \<Rightarrow> upgrade \<Rightarrow> bool" where
  "upgrade_trace es u \<longleftrightarrow>
     (\<forall>v. phase u = Upgrading v \<longrightarrow> (\<exists>r. AuthSettled r \<in> set es \<and> v = settled_value r))
     \<and> (EmitConnection \<in> set (upgrade_fx u) \<longrightarrow>
          (\<exists>c w. AuthSettled (Inr (ResultObject True c w)) \<in> set es))"

lemma upgrade_trace_step:
  assumes "upgrade_trace es u"
  shows "upgrade_trace (es @ [e]) (createTerminalUpgradeHandler ms u e)"
proof (cases e)
  case UpgradeCallback
  show ?thesis
  proof (cases "phase u")
    case (Upgrading v)
    with assms obtain r where r: "AuthSettled r \<in> set es" "v = settled_value r"
      by (auto simp: upgrade_trace_def)
    show ?thesis
    proof (cases v)
      case (ResultObject ok c w)
      then have "ok \<Longrightarrow> r = Inr (ResultObject True c w)"
        using r(2) settled_value_True [of r c w] by simp
      with r(1) have "ok \<Longrightarrow> AuthSettled (Inr (ResultObject True c w)) \<in> set es" by simp
      with assms Upgrading ResultObject UpgradeCallback show ?thesis
        by (auto simp: upgrade_trace_def upgrade_callback_def emit_up_def)
    qed (use assms Upgrading UpgradeCallback in
        \<open>auto simp: upgrade_trace_def upgrade_callback_def emit_up_def\<close>)
  qed (use assms UpgradeCallback in \<open>auto simp: upgrade_trace_def emit_up_def\<close>)
next
  case (AuthSettled r)
  then show ?thesis using assms
    by (auto simp: upgrade_trace_def emit_up_def Let_def)
qed (use assms in \<open>auto simp: upgrade_trace_def emit_up_def\<close>)

lemma upgrade_trace_run:
  "upgrade_trace es (run (createTerminalUpgradeHandler ms) upgrade_start es)"
proof (induction es rule: rev_induct)
  case Nil
  show ?case by (simp add: upgrade_trace_def upgrade_start_def)
next
  case (snoc e es)
  then show ?case using upgrade_trace_step by simp
qed

lemma rejected_timer:
  assumes "TerminateTimerFires \<in> set es" and "timer_armed s \<or> rejected_fx s \<noteq> [] \<and>
    (TerminateSocket \<in> set (rejected_fx s) \<or> ClearTerminateTimer \<in> set (rejected_fx s))"
  shows "TerminateSocket \<in> set (rejected_fx (run rejected_step s es))
    \<or> ClearTerminateTimer \<in> set (rejected_fx (run rejected_step s es))"
  using assms
proof (induction es arbitrary: s)
  case (Cons e es)
  have keep: "TerminateSocket \<in> set (rejected_fx t) \<or> ClearTerminateTimer \<in> set (rejected_fx t) \<Longrightarrow>
      TerminateSocket \<in> set (rejected_fx (run rejected_step t es))
      \<or> ClearTerminateTimer \<in> set (rejected_fx (run rejected_step t es))" for t
  proof (induction es arbitrary: t)
    case (Cons f fs)
    then show ?case by (cases f) auto
  qed simp
  show ?case
  proof (cases e)
    case PeerError
    then show ?thesis using keep [of "rejected_step s e"] by simp
  next
    case TerminateTimerFires
    then show ?thesis using Cons.prems keep [of "rejected_step s e"] by auto
  next
    case PeerClosed
    then show ?thesis using Cons keep [of "rejected_step s e"] by (cases "close_listener s") auto
  qed
qed simp

section \<open>Claims\<close>

text \<open>Authentication succeeds exactly when both tokens are present and Coolify answers 200;
  a refusal carries 1011 exactly when Coolify could not be asked and 4401 otherwise, and without
  the tokens Coolify is not asked at all.\<close>

theorem authenticateTerminalUpgrade_outcome:
  "authenticateTerminalUpgrade sc post = r \<Longrightarrow>
    (r = Authenticated \<longleftrightarrow>
       truthy (laravelSession sc) \<and> truthy (xsrfToken sc)
       \<and> post ''/terminal/auth'' [(''Cookie'', sessionCookieName sc @ ''='' @ the (laravelSession sc)),
            (''X-XSRF-TOKEN'', the (xsrfToken sc))] = Inr 200)
    \<and> (r \<noteq> Authenticated \<longrightarrow> closeCode r \<in> {AUTH_REJECTED, AUTH_UNAVAILABLE}
         \<and> (closeCode r = AUTH_UNAVAILABLE \<longleftrightarrow> cause r \<noteq> None))
    \<and> (\<not> truthy (laravelSession sc) \<or> \<not> truthy (xsrfToken sc) \<longrightarrow>
         (\<forall>post'. authenticateTerminalUpgrade sc post' = r))"
  by (auto simp: authenticateTerminalUpgrade_def AUTH_REJECTED_def AUTH_UNAVAILABLE_def
      split: sum.splits if_splits)

theorem authenticateTerminalUpgrade_outcome_witness:
  "authenticateTerminalUpgrade \<lparr>laravelSession = Some ''s'', xsrfToken = Some ''x'', sessionCookieName = ''n''\<rparr>
     (\<lambda>_ _. Inr 200) = Authenticated"
  using authenticateTerminalUpgrade_outcome [of "\<lparr>laravelSession = Some ''s'', xsrfToken = Some ''x'',
      sessionCookieName = ''n''\<rparr>" "\<lambda>_ _. Inr 200", OF refl]
  by (simp add: truthy_def)



text \<open>C32: A rejected socket does not linger: it is sent the close code, and once its timer has run
  out it has been terminated, unless the peer closed first and the timer was cancelled.\<close>

theorem rejected_socket_ends:
  assumes "TerminateTimerFires \<in> set es"
  shows "CloseWith c r \<in> set (rejectTerminalSocket c r m ms)
    \<and> (TerminateSocket \<in> set (rejected_fx (run rejected_step (rejected_start c r m ms) es))
        \<or> ClearTerminateTimer \<in> set (rejected_fx (run rejected_step (rejected_start c r m ms) es)))"
  using rejected_timer [OF assms] by (simp add: rejectTerminalSocket_def rejected_start_def)

theorem rejected_socket_ends_witness:
  "TerminateSocket \<in> set (rejected_fx (run rejected_step
      (rejected_start (Some 4401) None None 2000) [TerminateTimerFires]))"
proof -
  have "TerminateTimerFires \<in> set [TerminateTimerFires]" by simp
  from rejected_socket_ends [OF this, of "Some 4401" None None 2000] show ?thesis
    by (simp add: rejected_start_def)
qed

text \<open>The session cookie's name holds only lower-case letters, digits and underscores,
  whatever the application is called.\<close>

theorem session_cookie_name_chars:
  "list_all (\<lambda>d. is_digit d \<or> d = CHR ''_'' \<or> (97 \<le> code d \<and> code d \<le> 122))
     (sessionCookieName (getSessionCookie parseCookie appNameEnv header))"
proof -
  have "list_all (\<lambda>d. is_digit d \<or> d = CHR ''_'' \<or> (97 \<le> code d \<and> code d \<le> 122))
      (js_lower (map cookie_char s))" for s
    using cookie_name_char by (auto simp: list_all_iff js_lower_def)
  then show ?thesis
    by (simp add: getSessionCookie_def session_cookie_name_def Let_def code_def)
qed

end
