(* ===== verification/TerminalServer.thy ===== *)
theory TerminalServer
  imports ShellParse SshPolicy UpgradeAuth
begin

text \<open>
  The terminal server, docker/coolify-terminal/terminal-server.js, as a state machine over its
  callbacks. A connection's closure (the \<open>userSession\<close> object) is named by a connection
  number, so that the object outlives its entry in the \<open>userSessions\<close> map exactly as the
  closures of the source do. Every suspended \<open>await\<close> is a task, every armed \<open>setTimeout\<close> a
  timer or a task, and each event runs one callback to its next suspension. Logging is left out.
  Replies of Coolify, frames of the browser and events of the pseudo terminal arrive as events;
  what the code sends out is appended to \<open>out\<close>.
\<close>

section \<open>State\<close>

type_synonym conn = nat

text \<open>A text frame, by what \<open>JSON.parse\<close> does with it.\<close>

datatype wire = JsonText json | BadText

record session =
  userId :: string
  ptyProcess :: "nat option"
  isActive :: bool
  authorizedIPs :: "string list"
  authReady :: bool
  pendingMessages :: "wire list"
  terminalSessionTimer :: "nat option"
  authHeaders :: headers
  isAlive :: bool

record pty =
  pty_owner :: conn
  pty_ws :: conn
  pty_args :: "string list"
  pty_alive :: bool

text \<open>What runs after \<open>await killPtyProcess\<close>: the rest of \<open>handleCommand\<close> (socket, session,
  command), the rest of \<open>handleClose\<close> (user id), or nothing.\<close>

datatype cont = AfterCommand conn conn string | AfterClose string | NoCont

datatype task =
    AwaitIPs conn
  | AwaitToken conn
  | KillWait conn nat cont

datatype effect =
    SendStr conn string
  | SendBool conn bool
  | CloseWs conn nat string
  | RejectSocket conn "ws_effect list"
  | TerminateConn conn
  | PingConn conn
  | PostCoolify string headers "json option"
  | SpawnPty nat string "string list"
  | PtyWrite nat json
  | PtyWriteText nat string
  | PtyResize nat json json
  | PtyPause nat
  | PtyResume nat

record server =
  objs :: "conn \<Rightarrow> session option"
  userSessions :: "string \<Rightarrow> conn option"
  ptys :: "nat \<Rightarrow> pty option"
  nextConn :: nat
  nextPty :: nat
  tasks :: "task list"
  session_timers :: "string timers"
  crashed :: bool
  out :: "effect list"

definition server_start :: server where
  "server_start =
     \<lparr>objs = (\<lambda>_. None), userSessions = (\<lambda>_. None), ptys = (\<lambda>_. None), nextConn = 0, nextPty = 0,
      tasks = [], session_timers = no_timers, crashed = False, out = []\<rparr>"

definition emit :: "effect list \<Rightarrow> server \<Rightarrow> server" where
  "emit es s = s\<lparr>out := out s @ es\<rparr>"

definition upd :: "conn \<Rightarrow> (session \<Rightarrow> session) \<Rightarrow> server \<Rightarrow> server" where
  "upd n f s = s\<lparr>objs := (objs s)(n := map_option f (objs s n))\<rparr>"

definition add_task :: "task \<Rightarrow> server \<Rightarrow> server" where
  "add_task t s = s\<lparr>tasks := t # tasks s\<rparr>"

text \<open>An exception nothing catches ends the process.\<close>

definition uncaught :: "server \<Rightarrow> server" where
  "uncaught s = s\<lparr>crashed := True\<rparr>"

text \<open>\<open>if (session.terminalSessionTimer) { clearTimeout(...); ... = null; }\<close>\<close>

definition clear_session_timer :: "conn \<Rightarrow> server \<Rightarrow> server" where
  "clear_session_timer n s =
     (case objs s n of
        None \<Rightarrow> s
      | Some ss \<Rightarrow>
          upd n (\<lambda>x. x\<lparr>terminalSessionTimer := None\<rparr>)
            (s\<lparr>session_timers := clear_opt (terminalSessionTimer ss) (session_timers s)\<rparr>))"

section \<open>Killing a pseudo terminal\<close>

definition kill_text :: string where
  "kill_text = ''set +o history'' @ [lf] @ ''kill -TERM -$$ && exit'' @ [lf] @ ''set -o history'' @ [lf]"

definition max_kill_attempts :: nat where
  "max_kill_attempts = 5"

text \<open>\<open>attemptKill\<close>: write to the session's current terminal and wait 500 ms.\<close>

definition attemptKill :: "conn \<Rightarrow> nat \<Rightarrow> cont \<Rightarrow> server \<Rightarrow> server" where
  "attemptKill n attempts k s =
     (case objs s n of
        Some ss \<Rightarrow> (case ptyProcess ss of
            Some p \<Rightarrow> add_task (KillWait n attempts k) (emit [PtyWriteText p kill_text] s)
          | None \<Rightarrow> s)
      | None \<Rightarrow> s)"

section \<open>Starting a terminal\<close>

definition newline_to_space :: "string \<Rightarrow> string" where
  "newline_to_space command = js_join '' '' (js_split lf command)"

definition spawn_terminal :: "conn \<Rightarrow> conn \<Rightarrow> string list \<Rightarrow> server \<Rightarrow> server" where
  "spawn_terminal ws n args s =
     (let p = nextPty s;
          s1 = (emit [SpawnPty p ''ssh'' args] s)\<lparr>ptys := (ptys s)(p \<mapsto>
                 \<lparr>pty_owner = n, pty_ws = ws, pty_args = args, pty_alive = True\<rparr>), nextPty := Suc p\<rparr>;
          s2 = emit [SendStr ws ''pty-ready'']
                 (upd n (\<lambda>x. x\<lparr>ptyProcess := Some p, isActive := True\<rparr>) s1);
          (i, t) = set_timer (case objs s ws of Some x \<Rightarrow> userId x | None \<Rightarrow> []) (session_timers s2)
      in upd n (\<lambda>x. x\<lparr>terminalSessionTimer := Some i\<rparr>) (s2\<lparr>session_timers := t\<rparr>))"

text \<open>\<open>handleCommand\<close> from the point where no terminal is active.\<close>

definition run_command :: "conn \<Rightarrow> conn \<Rightarrow> string \<Rightarrow> server \<Rightarrow> server" where
  "run_command ws n command s0 =
     (let s = clear_session_timer n s0;
          commandString = newline_to_space command;
          sshArgs = extractSshArgs commandString;
          hereDocContent = extractHereDocContent commandString;
          target = extractTargetHost sshArgs;
          ips = (case objs s n of Some ss \<Rightarrow> authorizedIPs ss | None \<Rightarrow> [])
      in if \<not> truthy target
         then emit [SendStr ws ''Invalid SSH command: No target host found''] s
         else if \<not> isAuthorizedTargetHost target ips
         then emit [SendStr ws (''Unauthorized: Target host '' @ the target @ '' not in authorized list'')] s
         else if \<not> validateSshArgs sshArgs ips
         then emit [SendStr ws ''Invalid SSH command: Unsupported SSH arguments''] s
         else spawn_terminal ws n (sanitizeSshArgs sshArgs @ [hereDocContent]) s)"

definition resume_kill :: "cont \<Rightarrow> bool \<Rightarrow> server \<Rightarrow> server" where
  "resume_kill k result s =
     (case k of
        AfterCommand ws n command \<Rightarrow>
          if result then run_command ws n command s else emit [SendStr ws ''unprocessable''] s
      | AfterClose uid \<Rightarrow> s\<lparr>userSessions := (userSessions s)(uid := None)\<rparr>
      | NoCont \<Rightarrow> s)"

definition killPtyProcess :: "string \<Rightarrow> cont \<Rightarrow> server \<Rightarrow> server" where
  "killPtyProcess uid k s =
     (case userSessions s uid of
        None \<Rightarrow> resume_kill k False s
      | Some n \<Rightarrow>
          (case objs s n of
             Some ss \<Rightarrow> if ptyProcess ss = None then resume_kill k False s else attemptKill n 1 k s
           | None \<Rightarrow> resume_kill k False s))"

text \<open>The callback of the 500 ms timer.\<close>

definition kill_check :: "conn \<Rightarrow> nat \<Rightarrow> cont \<Rightarrow> server \<Rightarrow> server" where
  "kill_check n attempts k s =
     (case objs s n of
        None \<Rightarrow> s
      | Some ss \<Rightarrow>
          if \<not> isActive ss \<or> ptyProcess ss = None
          then resume_kill k True (clear_session_timer n s)
          else if attempts < max_kill_attempts then attemptKill n (Suc attempts) k s
          else resume_kill k False s)"

section \<open>Tokens and commands\<close>

definition rejectTerminalToken :: "conn \<Rightarrow> string \<Rightarrow> server \<Rightarrow> server" where
  "rejectTerminalToken n message s =
     emit [RejectSocket n (rejectTerminalSocket (Some TOKEN_REJECTED) (Some message) (Some message)
             TERMINAL_REJECTED_SOCKET_TERMINATE_MS)] s"

text \<open>\<open>handleCommand\<close>: for an unknown user id the code reads a property of \<open>undefined\<close>; the caller's
  \<open>catch\<close> rejects the token.\<close>

definition handleCommand :: "conn \<Rightarrow> string \<Rightarrow> string \<Rightarrow> server \<Rightarrow> server" where
  "handleCommand ws command uid s =
     (case userSessions s uid of
        None \<Rightarrow> rejectTerminalToken ws ''Unauthorized: Terminal token was rejected'' s
      | Some n \<Rightarrow>
          (case objs s n of
             None \<Rightarrow> rejectTerminalToken ws ''Unauthorized: Terminal token was rejected'' s
           | Some ss \<Rightarrow>
               if isActive ss then killPtyProcess uid (AfterCommand ws n command) s
               else run_command ws n command s))"

definition is_token :: "json \<Rightarrow> bool" where
  "is_token v = (case v of JStr t \<Rightarrow> length t = 64 \<and> list_all is_alnum t | _ \<Rightarrow> False)"

definition handleTerminalToken :: "conn \<Rightarrow> json \<Rightarrow> server \<Rightarrow> server" where
  "handleTerminalToken n token s =
     (if \<not> is_token token then rejectTerminalToken n ''Unauthorized: Invalid terminal token'' s
      else add_task (AwaitToken n)
        (emit [PostCoolify ''/terminal/session''
                 (case objs s n of Some ss \<Rightarrow> authHeaders ss | None \<Rightarrow> [])
                 (Some (JObj [(''token'', token)]))] s))"

text \<open>Coolify's answer to a token: an error, or a status with the \<open>command\<close> when it is a string.\<close>

datatype token_reply = TokenFailed string | TokenReply nat "string option"

definition token_settled :: "conn \<Rightarrow> token_reply \<Rightarrow> server \<Rightarrow> server" where
  "token_settled n r s =
     (case r of
        TokenFailed e \<Rightarrow> rejectTerminalToken n ''Unauthorized: Terminal token was rejected'' s
      | TokenReply st command \<Rightarrow>
          (case command of
             Some c \<Rightarrow>
               if st \<noteq> 200 then rejectTerminalToken n ''Unauthorized: Terminal token was rejected'' s
               else handleCommand n c (case objs s n of Some ss \<Rightarrow> userId ss | None \<Rightarrow> []) s
           | None \<Rightarrow> rejectTerminalToken n ''Unauthorized: Terminal token was rejected'' s))"

section \<open>Messages\<close>

text \<open>\<open>messageHandlers[key]\<close>: the object's own entries, or what it inherits from
  \<open>Object.prototype\<close>. Called without a receiver, \<open>constructor\<close> and \<open>toString\<close> return, the other
  inherited functions throw, and \<open>__proto__\<close> is not a function.\<close>

datatype handler =
    HMessage | HResize | HPause | HResume | HPing | HCheckActive | HTerminalToken
  | InheritedSilent | InheritedThrows

definition messageHandlers :: "(string \<times> handler) list" where
  "messageHandlers =
     [(''message'', HMessage), (''resize'', HResize), (''pause'', HPause), (''resume'', HResume),
      (''ping'', HPing), (''checkActive'', HCheckActive), (''terminalToken'', HTerminalToken),
      (''constructor'', InheritedSilent), (''toString'', InheritedSilent),
      (''hasOwnProperty'', InheritedThrows), (''isPrototypeOf'', InheritedThrows),
      (''propertyIsEnumerable'', InheritedThrows), (''toLocaleString'', InheritedThrows),
      (''valueOf'', InheritedThrows), (''__proto__'', InheritedThrows),
      (''__defineGetter__'', InheritedThrows), (''__defineSetter__'', InheritedThrows),
      (''__lookupGetter__'', InheritedThrows), (''__lookupSetter__'', InheritedThrows)]"

fun get_prop :: "json \<Rightarrow> string \<Rightarrow> json option" where
  "get_prop (JObj es) k = map_of es k"
| "get_prop _ k = None"

text \<open>One handler call. Calling a method of \<open>null\<close> and destructuring \<open>null\<close> throw.\<close>

definition with_pty :: "session \<Rightarrow> (nat \<Rightarrow> effect) \<Rightarrow> server \<Rightarrow> server" where
  "with_pty ss f s = (case ptyProcess ss of None \<Rightarrow> uncaught s | Some p \<Rightarrow> emit [f p] s)"

definition call_handler ::
    "conn \<Rightarrow> session \<Rightarrow> handler \<Rightarrow> json \<Rightarrow> server \<Rightarrow> server" where
  "call_handler n ss h v s =
     (case h of
        HMessage \<Rightarrow> with_pty ss (\<lambda>p. PtyWrite p v) s
      | HResize \<Rightarrow>
          if v = JNull then uncaught s
          else
            (let cols = get_prop v ''cols''; rows = get_prop v ''rows'';
                 c = (if cols \<noteq> None \<and> gt_zero (the cols) then the cols else JNum 80);
                 r = (if rows \<noteq> None \<and> gt_zero (the rows) then the rows else JNum 30)
             in with_pty ss (\<lambda>p. PtyResize p c r) s)
      | HPause \<Rightarrow> with_pty ss PtyPause s
      | HResume \<Rightarrow> with_pty ss PtyResume s
      | HPing \<Rightarrow> emit [SendStr n ''pong''] s
      | HCheckActive \<Rightarrow>
          if v = JStr ''force'' \<and> isActive ss then killPtyProcess (userId ss) NoCont s
          else emit [SendBool n (isActive ss)] s
      | HTerminalToken \<Rightarrow> handleTerminalToken n v s
      | InheritedSilent \<Rightarrow> s
      | InheritedThrows \<Rightarrow> uncaught s)"

definition open_keys :: "string list" where
  "open_keys = [''checkActive'', ''terminalToken'', ''ping'']"

definition handle_entry :: "conn \<Rightarrow> string \<times> json \<Rightarrow> server \<Rightarrow> server" where
  "handle_entry n e s =
     (case objs s n of
        None \<Rightarrow> s
      | Some ss \<Rightarrow>
          (case map_of messageHandlers (fst e) of
             Some h \<Rightarrow>
               if isActive ss \<or> fst e \<in> set open_keys then call_handler n ss h (snd e) s else s
           | None \<Rightarrow> s))"

text \<open>\<open>Object.entries(parsed).forEach\<close>, abandoned by the first exception.\<close>

fun index_entries :: "nat \<Rightarrow> json list \<Rightarrow> (string \<times> json) list" where
  "index_entries i [] = []"
| "index_entries i (v # vs) = (nat_to_string i, v) # index_entries (Suc i) vs"

fun entries :: "json \<Rightarrow> (string \<times> json) list" where
  "entries (JObj es) = es"
| "entries (JArr xs) = index_entries 0 xs"
| "entries (JStr t) = index_entries 0 (map (\<lambda>c. JStr [c]) t)"
| "entries _ = []"

fun handle_entries :: "conn \<Rightarrow> (string \<times> json) list \<Rightarrow> server \<Rightarrow> server" where
  "handle_entries n [] s = s"
| "handle_entries n (e # es) s =
     (if crashed s then s else handle_entries n es (handle_entry n e s))"

definition parseMessage :: "wire \<Rightarrow> json option" where
  "parseMessage message = (case message of JsonText j \<Rightarrow> Some j | BadText \<Rightarrow> None)"

definition handleMessage :: "conn \<Rightarrow> wire \<Rightarrow> server \<Rightarrow> server" where
  "handleMessage n message s =
     (case parseMessage message of
        None \<Rightarrow> s
      | Some parsed \<Rightarrow>
          if json_truthy parsed then handle_entries n (entries parsed) s else s)"

section \<open>Connections\<close>

definition new_session :: "string \<Rightarrow> session_cookie \<Rightarrow> session" where
  "new_session uid sc =
     \<lparr>userId = uid, ptyProcess = None, isActive = False, authorizedIPs = [], authReady = False,
      pendingMessages = [], terminalSessionTimer = None,
      authHeaders = [(''Cookie'', sessionCookieName sc @ ''='' @
                        (case laravelSession sc of Some v \<Rightarrow> v | None \<Rightarrow> ''undefined'')),
                     (''X-XSRF-TOKEN'', case xsrfToken sc of Some v \<Rightarrow> v | None \<Rightarrow> ''undefined'')],
      isAlive = True\<rparr>"

definition on_connection :: "string \<Rightarrow> session_cookie \<Rightarrow> server \<Rightarrow> server" where
  "on_connection uid sc s =
     (let n = nextConn s; ss = new_session uid sc;
          s1 = s\<lparr>objs := (objs s)(n \<mapsto> ss), nextConn := Suc n\<rparr>
      in if \<not> truthy (laravelSession sc) \<or> \<not> truthy (xsrfToken sc)
         then emit [RejectSocket n (rejectTerminalSocket (Some AUTH_REJECTED)
                (Some ''Unauthorized: Missing required tokens'') None TERMINAL_REJECTED_SOCKET_TERMINATE_MS)] s1
         else add_task (AwaitIPs n) (emit [PostCoolify ''/terminal/auth/ips'' (authHeaders ss) None] s1))"

text \<open>The answer to \<open>/terminal/auth/ips\<close>: an error; or a status and the data, \<open>None\<close> when it is
  \<open>null\<close> (reading its property throws), else its \<open>ipAddresses\<close>.\<close>

datatype ips_reply = IpsFailed string | IpsReply nat "string list option option"

fun drain :: "conn \<Rightarrow> wire list \<Rightarrow> server \<Rightarrow> server" where
  "drain n [] s = s"
| "drain n (m # ms) s =
     (if crashed s then s
      else drain n ms
             (handleMessage n m (upd n (\<lambda>x. x\<lparr>pendingMessages := ms\<rparr>) s)))"

definition ips_settled :: "conn \<Rightarrow> ips_reply \<Rightarrow> server \<Rightarrow> server" where
  "ips_settled n r s =
     (case r of
        IpsReply st (Some ips) \<Rightarrow>
          if st \<noteq> 200 then emit [CloseWs n 1011 ''Failed to fetch terminal authorization data''] s
          else
            (case objs s n of
               None \<Rightarrow> s
             | Some ss \<Rightarrow>
                 let s1 = upd n (\<lambda>x. x\<lparr>authorizedIPs := (case ips of Some xs \<Rightarrow> xs | None \<Rightarrow> []),
                                       authReady := True\<rparr>)
                            (s\<lparr>userSessions := (userSessions s)(userId ss \<mapsto> n)\<rparr>)
                 in drain n (pendingMessages ss) s1)
      | _ \<Rightarrow> emit [CloseWs n 1011 ''Failed to fetch terminal authorization data''] s)"

definition on_message :: "conn \<Rightarrow> wire \<Rightarrow> server \<Rightarrow> server" where
  "on_message n message s =
     (case objs s n of
        None \<Rightarrow> s
      | Some ss \<Rightarrow>
          if authReady ss then handleMessage n message s
          else upd n (\<lambda>x. x\<lparr>pendingMessages := pendingMessages x @ [message]\<rparr>) s)"

definition handleError :: "conn \<Rightarrow> server \<Rightarrow> server" where
  "handleError n s = (case objs s n of None \<Rightarrow> s | Some ss \<Rightarrow> killPtyProcess (userId ss) NoCont s)"

definition handleClose :: "conn \<Rightarrow> server \<Rightarrow> server" where
  "handleClose n s =
     (case objs s n of None \<Rightarrow> s | Some ss \<Rightarrow> killPtyProcess (userId ss) (AfterClose (userId ss)) s)"

definition on_pty_data :: "nat \<Rightarrow> string \<Rightarrow> server \<Rightarrow> server" where
  "on_pty_data p data s =
     (case ptys s p of Some y \<Rightarrow> if pty_alive y then emit [SendStr (pty_ws y) data] s else s | None \<Rightarrow> s)"

definition on_pty_exit :: "nat \<Rightarrow> server \<Rightarrow> server" where
  "on_pty_exit p s =
     (case ptys s p of
        None \<Rightarrow> s
      | Some y \<Rightarrow>
          if \<not> pty_alive y then s
          else clear_session_timer (pty_owner y)
                 (upd (pty_owner y) (\<lambda>x. x\<lparr>isActive := False\<rparr>)
                   (emit [SendStr (pty_ws y) ''pty-exited'']
                     (s\<lparr>ptys := (ptys s)(p \<mapsto> y\<lparr>pty_alive := False\<rparr>)\<rparr>))))"

text \<open>The 30 s interval over the open sockets, and the protocol pong.\<close>

definition heartbeat_one :: "conn \<Rightarrow> server \<Rightarrow> server" where
  "heartbeat_one n s =
     (case objs s n of
        None \<Rightarrow> s
      | Some ss \<Rightarrow>
          if \<not> isAlive ss then emit [TerminateConn n] s
          else emit [PingConn n] (upd n (\<lambda>x. x\<lparr>isAlive := False\<rparr>) s))"

definition heartbeat :: "conn list \<Rightarrow> server \<Rightarrow> server" where
  "heartbeat clients s = fold heartbeat_one clients s"

definition on_session_timeout :: "nat \<Rightarrow> server \<Rightarrow> server" where
  "on_session_timeout i s =
     (case map_of (armed (session_timers s)) i of
        None \<Rightarrow> s
      | Some uid \<Rightarrow>
          killPtyProcess uid NoCont (s\<lparr>session_timers := clear_timer i (session_timers s)\<rparr>))"

section \<open>The machine\<close>

datatype server_event =
    Connection string session_cookie
  | IpsSettled conn ips_reply
  | Message conn wire
  | TokenSettled conn token_reply
  | KillTimer conn nat cont
  | SessionTimeout nat
  | PtyData nat string
  | PtyExit nat
  | WsError conn
  | WsClosed conn
  | Pong conn
  | Heartbeat "conn list"

definition drop_task :: "task \<Rightarrow> server \<Rightarrow> server" where
  "drop_task t s = s\<lparr>tasks := remove1 t (tasks s)\<rparr>"

fun server_event_step :: "server \<Rightarrow> server_event \<Rightarrow> server" where
  "server_event_step s (Connection uid sc) = on_connection uid sc s"
| "server_event_step s (IpsSettled n r) =
     (if AwaitIPs n \<in> set (tasks s) then ips_settled n r (drop_task (AwaitIPs n) s) else s)"
| "server_event_step s (Message n m) = on_message n m s"
| "server_event_step s (TokenSettled n r) =
     (if AwaitToken n \<in> set (tasks s) then token_settled n r (drop_task (AwaitToken n) s) else s)"
| "server_event_step s (KillTimer n a k) =
     (if KillWait n a k \<in> set (tasks s) then kill_check n a k (drop_task (KillWait n a k) s) else s)"
| "server_event_step s (SessionTimeout i) = on_session_timeout i s"
| "server_event_step s (PtyData p d) = on_pty_data p d s"
| "server_event_step s (PtyExit p) = on_pty_exit p s"
| "server_event_step s (WsError n) = handleError n s"
| "server_event_step s (WsClosed n) = handleClose n s"
| "server_event_step s (Pong n) = upd n (\<lambda>x. x\<lparr>isAlive := True\<rparr>) s"
| "server_event_step s (Heartbeat clients) = heartbeat clients s"

definition server_step :: "server \<Rightarrow> server_event \<Rightarrow> server" where
  "server_step s e = (if crashed s then s else server_event_step s e)"

end
