(* ===== verification/ServerSafety.thy ===== *)
theory ServerSafety
  imports TerminalServer
begin

text \<open>
  Invariants of the terminal server over all histories of events: a session has at most one
  live pseudo terminal, which is the one its object names and exists exactly while the session
  is active; every terminal was spawned with sanitised arguments whose target is on the list
  its session was authorised for; a kill loop makes at most five attempts.
\<close>

section \<open>The invariant\<close>

text \<open>Spawned arguments: sanitised, valid for the session's authorised hosts, followed by the
  here-document.\<close>

definition args_ok :: "string list \<Rightarrow> string list \<Rightarrow> bool" where
  "args_ok ips args \<longleftrightarrow>
     (\<exists>a h. args = sanitizeSshArgs a @ [h] \<and> validateSshArgs a ips
            \<and> validateSshArgs (sanitizeSshArgs a) ips
            \<and> isAuthorizedTargetHost (extractTargetHost (sanitizeSshArgs a)) ips)"

definition ready :: "server \<Rightarrow> conn \<Rightarrow> bool" where
  "ready s n \<longleftrightarrow> (\<exists>ss. objs s n = Some ss \<and> authReady ss)"

definition pty_inv :: "server \<Rightarrow> bool" where
  "pty_inv s \<longleftrightarrow>
     (\<forall>p y. ptys s p = Some y \<longrightarrow> p < nextPty s)
     \<and> (\<forall>p y. ptys s p = Some y \<and> pty_alive y \<longrightarrow>
          (\<exists>ss. objs s (pty_owner y) = Some ss \<and> isActive ss \<and> ptyProcess ss = Some p))
     \<and> (\<forall>n ss. objs s n = Some ss \<and> isActive ss \<longrightarrow>
          (\<exists>p y. ptyProcess ss = Some p \<and> ptys s p = Some y \<and> pty_alive y \<and> pty_owner y = n))
     \<and> (\<forall>p y. ptys s p = Some y \<longrightarrow>
          (\<exists>ss. objs s (pty_owner y) = Some ss \<and> authReady ss \<and> args_ok (authorizedIPs ss) (pty_args y)))"

fun task_ok :: "server \<Rightarrow> task \<Rightarrow> bool" where
  "task_ok s (AwaitIPs n) = (\<exists>ss. objs s n = Some ss \<and> \<not> authReady ss)"
| "task_ok s (AwaitToken n) = True"
| "task_ok s (KillWait n a k) =
     (ready s n \<and> 1 \<le> a \<and> a \<le> max_kill_attempts
      \<and> (case k of AfterCommand ws m c \<Rightarrow> m = n | _ \<Rightarrow> True))"

definition task_inv :: "server \<Rightarrow> bool" where
  "task_inv s \<longleftrightarrow>
     (\<forall>t\<in>set (tasks s). task_ok s t)
     \<and> (\<forall>n. count_list (tasks s) (AwaitIPs n) \<le> 1)
     \<and> (\<forall>u n. userSessions s u = Some n \<longrightarrow> ready s n)
     \<and> (\<forall>n ss. objs s n = Some ss \<longrightarrow> n < nextConn s)"

definition server_inv :: "server \<Rightarrow> bool" where
  "server_inv s \<longleftrightarrow> pty_inv s \<and> task_inv s"

lemmas server_inv_defs = server_inv_def pty_inv_def task_inv_def ready_def

section \<open>Field access\<close>

lemma emit_sel [simp]:
  "objs (emit es s) = objs s" "userSessions (emit es s) = userSessions s" "ptys (emit es s) = ptys s"
  "nextConn (emit es s) = nextConn s" "nextPty (emit es s) = nextPty s" "tasks (emit es s) = tasks s"
  "session_timers (emit es s) = session_timers s" "crashed (emit es s) = crashed s"
  "out (emit es s) = out s @ es"
  by (simp_all add: emit_def)

lemma upd_sel [simp]:
  "objs (upd n f s) = (objs s)(n := map_option f (objs s n))"
  "userSessions (upd n f s) = userSessions s" "ptys (upd n f s) = ptys s"
  "nextConn (upd n f s) = nextConn s" "nextPty (upd n f s) = nextPty s" "tasks (upd n f s) = tasks s"
  "session_timers (upd n f s) = session_timers s" "crashed (upd n f s) = crashed s" "out (upd n f s) = out s"
  by (simp_all add: upd_def)

lemma add_task_sel [simp]:
  "objs (add_task t s) = objs s" "userSessions (add_task t s) = userSessions s"
  "ptys (add_task t s) = ptys s" "nextConn (add_task t s) = nextConn s"
  "nextPty (add_task t s) = nextPty s" "tasks (add_task t s) = t # tasks s"
  "crashed (add_task t s) = crashed s" "out (add_task t s) = out s"
  by (simp_all add: add_task_def)

lemma uncaught_sel [simp]:
  "objs (uncaught s) = objs s" "userSessions (uncaught s) = userSessions s"
  "ptys (uncaught s) = ptys s" "nextConn (uncaught s) = nextConn s"
  "nextPty (uncaught s) = nextPty s" "tasks (uncaught s) = tasks s" "crashed (uncaught s)"
  "out (uncaught s) = out s"
  by (simp_all add: uncaught_def)

text \<open>What the invariant reads of a session.\<close>

definition same_core :: "session \<Rightarrow> session \<Rightarrow> bool" where
  "same_core x y \<longleftrightarrow> ptyProcess x = ptyProcess y \<and> isActive x = isActive y
     \<and> authorizedIPs x = authorizedIPs y \<and> authReady x = authReady y"

definition same_objs :: "server \<Rightarrow> server \<Rightarrow> bool" where
  "same_objs s t \<longleftrightarrow> (\<forall>n. rel_option same_core (objs s n) (objs t n))"

lemma same_objs_Some:
  "same_objs s t \<Longrightarrow> objs s n = Some x \<Longrightarrow> \<exists>y. objs t n = Some y \<and> same_core x y"
  "same_objs s t \<Longrightarrow> objs t n = Some y \<Longrightarrow> \<exists>x. objs s n = Some x \<and> same_core x y"
  unfolding same_objs_def by (metis option_rel_Some1, metis option_rel_Some2)

lemma same_objs_upd:
  "(\<And>x. same_core x (f x)) \<Longrightarrow> same_objs s (upd n f s)"
  by (auto simp: same_objs_def option.rel_map same_core_def intro: option.rel_refl)

lemma same_objs_refl: "objs t = objs s \<Longrightarrow> same_objs s t"
  by (simp add: same_objs_def option.rel_refl same_core_def)

lemma pty_inv_same:
  assumes "pty_inv s" "same_objs s t" "ptys t = ptys s" "nextPty t = nextPty s"
  shows "pty_inv t"
proof -
  note i = assms(1) [unfolded pty_inv_def] and so = same_objs_Some [OF assms(2)]
  show ?thesis
    unfolding pty_inv_def assms(3,4)
  proof (intro conjI allI impI)
    fix p y assume "ptys s p = Some y"
    with i show "p < nextPty s" by blast
  next
    fix p y assume "ptys s p = Some y \<and> pty_alive y"
    with i obtain ss where "objs s (pty_owner y) = Some ss" "isActive ss" "ptyProcess ss = Some p" by blast
    with so(1) show "\<exists>ss. objs t (pty_owner y) = Some ss \<and> isActive ss \<and> ptyProcess ss = Some p"
      unfolding same_core_def by metis
  next
    fix n ss assume "objs t n = Some ss \<and> isActive ss"
    then obtain x where "objs s n = Some x" "same_core x ss" using so(2) by blast
    with i \<open>objs t n = Some ss \<and> isActive ss\<close>
    show "\<exists>p y. ptyProcess ss = Some p \<and> ptys s p = Some y \<and> pty_alive y \<and> pty_owner y = n"
      unfolding same_core_def by metis
  next
    fix p y assume "ptys s p = Some y"
    with i obtain ss where "objs s (pty_owner y) = Some ss" "authReady ss"
      "args_ok (authorizedIPs ss) (pty_args y)" by blast
    with so(1) show "\<exists>ss. objs t (pty_owner y) = Some ss \<and> authReady ss
        \<and> args_ok (authorizedIPs ss) (pty_args y)"
      unfolding same_core_def by metis
  qed
qed

lemma same_objs_at: "same_objs s t \<Longrightarrow> rel_option same_core (objs s n) (objs t n)"
  by (simp add: same_objs_def)

lemma ready_same:
  assumes "same_objs s t" shows "ready s n = ready t n"
  using same_objs_at [OF assms, of n]
  by (cases rule: option.rel_cases) (auto simp: ready_def same_core_def)

lemma task_ok_same:
  assumes "same_objs s t" shows "task_ok s x = task_ok t x"
proof (cases x)
  case (AwaitIPs n)
  from same_objs_at [OF assms, of n] show ?thesis
    by (cases rule: option.rel_cases) (auto simp: AwaitIPs same_core_def)
qed (simp_all add: ready_same [OF assms])

lemma server_inv_same:
  assumes "server_inv s" "same_objs s t" "ptys t = ptys s" "nextPty t = nextPty s"
    "userSessions t = userSessions s" "nextConn t = nextConn s"
    "\<forall>x\<in>set (tasks t). x \<in> set (tasks s) \<or> task_ok s x"
    "\<forall>n. count_list (tasks t) (AwaitIPs n) \<le> count_list (tasks s) (AwaitIPs n)"
  shows "server_inv t"
proof -
  have "pty_inv s" using assms(1) by (simp add: server_inv_def)
  from pty_inv_same [OF this assms(2-4)] have "pty_inv t" .
  moreover have "\<forall>n ss. objs t n = Some ss \<longrightarrow> n < nextConn t"
    using assms(1,6) same_objs_Some(2) [OF assms(2)] by (fastforce simp: server_inv_def task_inv_def)
  moreover have "\<forall>x\<in>set (tasks t). task_ok t x"
    using assms(1,7) task_ok_same [OF assms(2)] by (auto simp: server_inv_def task_inv_def)
  moreover have "\<forall>n. count_list (tasks t) (AwaitIPs n) \<le> 1"
    using assms(1,8) le_trans unfolding server_inv_def task_inv_def by blast
  moreover have "\<forall>u n. userSessions t u = Some n \<longrightarrow> ready t n"
    using assms(1,5) ready_same [OF assms(2)] by (simp add: server_inv_def task_inv_def)
  ultimately show ?thesis by (simp add: server_inv_def task_inv_def)
qed

lemma task_ok_objs: "objs t = objs s \<Longrightarrow> task_ok t x = task_ok s x"
  by (cases x) (simp_all add: ready_def)

lemma inv_emit [simp]: "server_inv (emit es s) = server_inv s"
  by (simp add: server_inv_def pty_inv_def task_inv_def ready_def task_ok_objs [of "emit es s" s])

lemma inv_uncaught: "server_inv s \<Longrightarrow> server_inv (uncaught s)"
  by (simp add: server_inv_def pty_inv_def task_inv_def ready_def task_ok_objs [of "uncaught s" s])

lemma inv_upd:
  assumes "server_inv s" "\<And>x. same_core x (f x)" shows "server_inv (upd n f s)"
  by (rule server_inv_same [OF assms(1) same_objs_upd [OF assms(2)]]) simp_all

lemma inv_add_task:
  "server_inv s \<Longrightarrow> task_ok s t \<Longrightarrow> (\<And>n. t \<noteq> AwaitIPs n) \<Longrightarrow> server_inv (add_task t s)"
  by (rule server_inv_same [of s], assumption, rule same_objs_refl) simp_all

lemma count_list_remove1: "count_list (remove1 x xs) y \<le> count_list xs y"
  by (induction xs) auto

lemma inv_drop_task: "server_inv s \<Longrightarrow> server_inv (drop_task t s)"
  by (rule server_inv_same [of s], assumption, rule same_objs_refl)
     (simp_all add: drop_task_def count_list_remove1, meson notin_set_remove1)

lemma inv_timers: "server_inv s \<Longrightarrow> server_inv (s\<lparr>session_timers := t\<rparr>)"
  by (rule server_inv_same [of s], assumption, rule same_objs_refl) simp_all

lemma inv_clear_session_timer: "server_inv s \<Longrightarrow> server_inv (clear_session_timer n s)"
  by (auto simp: clear_session_timer_def same_core_def intro!: inv_upd inv_timers split: option.splits)

lemma clear_session_timer_objs:
  "objs s n = Some ss \<Longrightarrow> \<exists>ss'. objs (clear_session_timer n s) n = Some ss' \<and> same_core ss ss'"
  by (auto simp: clear_session_timer_def same_core_def)

lemma ready_sel [simp]:
  "ready (emit es s) n = ready s n" "ready (add_task t s) n = ready s n"
  by (simp_all add: ready_def)

section \<open>Every operation keeps the invariant\<close>

lemma spawn_sel:
  fixes s ws n args
  defines "t \<equiv> spawn_terminal ws n args s"
  shows "objs t = (objs s)(n := map_option (\<lambda>x. x\<lparr>ptyProcess := Some (nextPty s), isActive := True,
        terminalSessionTimer := Some (nextId (session_timers s))\<rparr>) (objs s n))"
    "ptys t = (ptys s)(nextPty s \<mapsto>
        \<lparr>pty_owner = n, pty_ws = ws, pty_args = args, pty_alive = True\<rparr>)"
    "nextPty t = Suc (nextPty s)" "userSessions t = userSessions s" "tasks t = tasks s"
    "nextConn t = nextConn s" "crashed t = crashed s"
    "out t = out s @ [SpawnPty (nextPty s) ''ssh'' args, SendStr ws ''pty-ready'']"
  unfolding t_def spawn_terminal_def
  by (simp_all add: Let_def set_timer_def option.map_comp comp_def)

lemma pty_inv_spawn:
  assumes inv: "pty_inv s" and n: "objs s n = Some ss" "authReady ss" "\<not> isActive ss"
    and ok: "args_ok (authorizedIPs ss) args"
  shows "pty_inv (spawn_terminal ws n args s)"
proof -
  let ?t = "spawn_terminal ws n args s"
  let ?ss = "ss\<lparr>ptyProcess := Some (nextPty s), isActive := True,
        terminalSessionTimer := Some (nextId (session_timers s))\<rparr>"
  have o: "objs ?t = (objs s)(n \<mapsto> ?ss)" using n(1) by (simp add: spawn_sel)
  note p = inv [unfolded pty_inv_def]
  have lt: "ptys s q = Some y \<Longrightarrow> q < nextPty s" for q y using p by blast
  have live: "\<exists>x. objs s (pty_owner y) = Some x \<and> isActive x \<and> ptyProcess x = Some q"
    if "ptys s q = Some y" "pty_alive y" for q y using p that by blast
  have noowner: "pty_owner y \<noteq> n" if "ptys s q = Some y" "pty_alive y" for q y
    using live [OF that] n by auto
  have act: "\<exists>q y. ptyProcess x = Some q \<and> ptys s q = Some y \<and> pty_alive y \<and> pty_owner y = m"
    if "objs s m = Some x" "isActive x" for m x using p that by blast
  have auth: "\<exists>x. objs s (pty_owner y) = Some x \<and> authReady x \<and> args_ok (authorizedIPs x) (pty_args y)"
    if "ptys s q = Some y" for q y using p that by blast
  show ?thesis
    unfolding pty_inv_def
  proof (intro conjI allI impI)
    fix q y assume "ptys ?t q = Some y"
    then show "q < nextPty ?t" using lt by (auto simp: spawn_sel split: if_splits intro: less_SucI)
  next
    fix q y assume "ptys ?t q = Some y \<and> pty_alive y"
    then show "\<exists>x. objs ?t (pty_owner y) = Some x \<and> isActive x \<and> ptyProcess x = Some q"
      using live noowner by (auto simp: spawn_sel(2) o split: if_splits)
  next
    fix m x assume mx: "objs ?t m = Some x \<and> isActive x"
    show "\<exists>q y. ptyProcess x = Some q \<and> ptys ?t q = Some y \<and> pty_alive y \<and> pty_owner y = m"
    proof (cases "m = n")
      case True
      with mx show ?thesis by (auto simp: spawn_sel(2) o)
    next
      case False
      with mx have "objs s m = Some x" "isActive x" by (simp_all add: o)
      from act [OF this] obtain q y where q: "ptyProcess x = Some q" "ptys s q = Some y"
        "pty_alive y" "pty_owner y = m" by blast
      with lt [OF q(2)] show ?thesis by (intro exI [of _ q] exI [of _ y]) (simp add: spawn_sel(2))
    qed
  next
    fix q y assume "ptys ?t q = Some y"
    then show "\<exists>x. objs ?t (pty_owner y) = Some x \<and> authReady x \<and> args_ok (authorizedIPs x) (pty_args y)"
      using auth [of q y] n ok by (auto simp: spawn_sel(2) o split: if_splits)
  qed
qed

lemma inv_spawn:
  assumes inv: "server_inv s" and n: "objs s n = Some ss" "authReady ss" "\<not> isActive ss"
    and ok: "args_ok (authorizedIPs ss) args"
  shows "server_inv (spawn_terminal ws n args s)"
proof -
  let ?t = "spawn_terminal ws n args s"
  have o: "objs ?t = (objs s)(n \<mapsto> ss\<lparr>ptyProcess := Some (nextPty s), isActive := True,
      terminalSessionTimer := Some (nextId (session_timers s))\<rparr>)" using n(1) by (simp add: spawn_sel)
  have "pty_inv ?t" using inv by (intro pty_inv_spawn [OF _ n ok]) (simp add: server_inv_def)
  moreover have "ready ?t m = ready s m" for m using n by (simp add: ready_def o)
  moreover have "task_ok ?t x = task_ok s x" for x
    using n by (cases x) (simp_all add: ready_def o)
  moreover have "\<forall>m x. objs ?t m = Some x \<longrightarrow> m < nextConn ?t"
    using inv n by (auto simp: server_inv_def task_inv_def o spawn_sel split: if_splits)
  ultimately show ?thesis
    using inv by (simp add: server_inv_def task_inv_def spawn_sel)
qed

lemma same_core_refl [simp]: "same_core x x"
  by (simp add: same_core_def)

lemma inv_run_command:
  assumes "server_inv s" "objs s n = Some ss" "authReady ss" "\<not> isActive ss"
  shows "server_inv (run_command ws n c s)"
proof -
  let ?s = "clear_session_timer n s"
  obtain ss' where ss': "objs ?s n = Some ss'" "same_core ss ss'"
    using clear_session_timer_objs [OF assms(2)] by blast
  have i: "server_inv ?s" using assms(1) by (rule inv_clear_session_timer)
  have "server_inv (spawn_terminal ws n (sanitizeSshArgs a @ [h]) ?s)"
    if "validateSshArgs a (authorizedIPs ss')" for a h
  proof (rule inv_spawn [OF i ss'(1)])
    show "authReady ss'" "\<not> isActive ss'" using ss'(2) assms(3,4) by (simp_all add: same_core_def)
    show "args_ok (authorizedIPs ss') (sanitizeSshArgs a @ [h])"
      using gate.spawned_valid_target [OF that] that by (auto simp: args_ok_def)
  qed
  with i ss' show ?thesis by (simp add: run_command_def Let_def)
qed

lemma inv_drop_session: "server_inv s \<Longrightarrow> server_inv (s\<lparr>userSessions := (userSessions s)(u := None)\<rparr>)"
  by (auto simp: server_inv_def pty_inv_def task_inv_def ready_def
      task_ok_objs [of "s\<lparr>userSessions := (userSessions s)(u := None)\<rparr>" s])

lemma not_active_of_no_pty:
  "server_inv s \<Longrightarrow> objs s n = Some ss \<Longrightarrow> ptyProcess ss = None \<Longrightarrow> \<not> isActive ss"
  unfolding server_inv_def pty_inv_def by (metis option.distinct(1))

lemma inv_resume_kill:
  assumes "server_inv s" "\<And>ws m c. k = AfterCommand ws m c \<Longrightarrow> r \<Longrightarrow>
      \<exists>ss. objs s m = Some ss \<and> authReady ss \<and> \<not> isActive ss"
  shows "server_inv (resume_kill k r s)"
proof (cases k)
  case (AfterCommand ws m c)
  show ?thesis
  proof (cases r)
    case True
    with AfterCommand assms(2) obtain ss where "objs s m = Some ss" "authReady ss" "\<not> isActive ss" by blast
    with assms(1) AfterCommand True show ?thesis by (simp add: resume_kill_def inv_run_command)
  qed (simp add: resume_kill_def AfterCommand assms(1))
qed (simp_all add: resume_kill_def assms(1) inv_drop_session)

lemma inv_attemptKill:
  assumes "server_inv s" "task_ok s (KillWait n a k)"
  shows "server_inv (attemptKill n a k s)"
proof -
  have "server_inv (add_task (KillWait n a k) (emit es s))" for es
    using assms by (intro inv_add_task) (simp_all del: task_ok.simps add: task_ok_objs [of "emit es s" s])
  with assms(1) show ?thesis by (auto simp: attemptKill_def split: option.splits)
qed

lemma inv_killPtyProcess:
  assumes "server_inv s" "\<And>ws m c. k = AfterCommand ws m c \<Longrightarrow> userSessions s uid = Some m"
  shows "server_inv (killPtyProcess uid k s)"
proof -
  have r: "server_inv (resume_kill k False s)" using assms(1) by (rule inv_resume_kill) simp
  show ?thesis
  proof (cases "userSessions s uid")
    case (Some n)
    then have "ready s n" using assms(1) by (simp add: server_inv_def task_inv_def)
    then have "task_ok s (KillWait n 1 k)"
      using assms(2) Some by (auto simp: max_kill_attempts_def split: cont.splits)
    then show ?thesis
      using r Some inv_attemptKill [OF assms(1)] by (auto simp: killPtyProcess_def split: option.splits)
  qed (simp add: killPtyProcess_def r)
qed

lemma inv_kill_check:
  assumes "server_inv s" "task_ok s (KillWait n a k)"
  shows "server_inv (kill_check n a k s)"
proof -
  from assms(2) obtain ss where ss: "objs s n = Some ss" "authReady ss" by (auto simp: ready_def)
  obtain ss' where ss': "objs (clear_session_timer n s) n = Some ss'" "same_core ss ss'"
    using clear_session_timer_objs [OF ss(1)] by blast
  have m: "k = AfterCommand ws m c \<Longrightarrow> m = n" for ws m c using assms(2) by simp
  consider (stopped) "\<not> isActive ss" | (more) "isActive ss" "ptyProcess ss \<noteq> None"
    using not_active_of_no_pty [OF assms(1) ss(1)] by blast
  then show ?thesis
  proof cases
    case stopped
    have "server_inv (resume_kill k True (clear_session_timer n s))"
      using inv_clear_session_timer [OF assms(1)] m ss ss' stopped
      by (intro inv_resume_kill) (auto simp: same_core_def)
    with ss stopped show ?thesis by (simp add: kill_check_def)
  next
    case more
    have "server_inv (resume_kill k False s)" using assms(1) by (rule inv_resume_kill) simp
    moreover have "a < max_kill_attempts \<Longrightarrow> server_inv (attemptKill n (Suc a) k s)"
      using assms by (intro inv_attemptKill) auto
    ultimately show ?thesis using more ss by (auto simp: kill_check_def)
  qed
qed

lemma inv_rejectTerminalToken [simp]: "server_inv (rejectTerminalToken n m s) = server_inv s"
  by (simp add: rejectTerminalToken_def)

lemma inv_handleCommand: "server_inv s \<Longrightarrow> server_inv (handleCommand ws c uid s)"
proof (cases "userSessions s uid")
  case (Some n)
  assume inv: "server_inv s"
  with Some have "ready s n" by (simp add: server_inv_def task_inv_def)
  then obtain ss where "objs s n = Some ss" "authReady ss" by (auto simp: ready_def)
  then show ?thesis
    using inv Some inv_killPtyProcess [OF inv, of "AfterCommand ws n c" uid]
    by (simp add: handleCommand_def inv_run_command)
qed (simp add: handleCommand_def)

lemma inv_handleTerminalToken: "server_inv s \<Longrightarrow> server_inv (handleTerminalToken n v s)"
proof -
  assume "server_inv s"
  then have "server_inv (add_task (AwaitToken n) (emit es s))" for es
    by (intro inv_add_task) simp_all
  with \<open>server_inv s\<close> show ?thesis by (simp add: handleTerminalToken_def)
qed

lemma inv_token_settled: "server_inv s \<Longrightarrow> server_inv (token_settled n r s)"
  by (auto simp: token_settled_def inv_handleCommand split: token_reply.splits option.splits)

lemma inv_call_handler: "server_inv s \<Longrightarrow> server_inv (call_handler n ss h v s)"
  by (cases h)
     (auto simp: call_handler_def with_pty_def inv_uncaught inv_handleTerminalToken Let_def
       intro: inv_killPtyProcess split: option.splits)

lemma inv_handle_entry: "server_inv s \<Longrightarrow> server_inv (handle_entry n e s)"
  by (auto simp: handle_entry_def inv_call_handler split: option.splits)

lemma inv_handle_entries: "server_inv s \<Longrightarrow> server_inv (handle_entries n es s)"
  by (induction es arbitrary: s) (auto simp: inv_handle_entry)

lemma inv_handleMessage: "server_inv s \<Longrightarrow> server_inv (handleMessage n m s)"
  by (auto simp: handleMessage_def inv_handle_entries split: option.splits)

lemma inv_pending: "server_inv s \<Longrightarrow> server_inv (upd n (\<lambda>x. x\<lparr>pendingMessages := f x\<rparr>) s)"
  by (rule inv_upd) (simp_all add: same_core_def)

lemma inv_drain: "server_inv s \<Longrightarrow> server_inv (drain n ms s)"
proof (induction ms arbitrary: s)
  case (Cons m ms)
  then have "server_inv (handleMessage n m (upd n (\<lambda>x. x\<lparr>pendingMessages := ms\<rparr>) s))"
    by (intro inv_handleMessage inv_pending)
  from Cons.IH [OF this] Cons.prems show ?case by simp
qed simp

text \<open>Registering a session whose authorisation data has arrived.\<close>

definition register :: "conn \<Rightarrow> string list \<Rightarrow> server \<Rightarrow> server" where
  "register n xs s =
     (case objs s n of
        None \<Rightarrow> s
      | Some ss \<Rightarrow> upd n (\<lambda>x. x\<lparr>authorizedIPs := xs, authReady := True\<rparr>)
                     (s\<lparr>userSessions := (userSessions s)(userId ss \<mapsto> n)\<rparr>))"

lemma inv_register:
  assumes "server_inv s" "objs s n = Some ss" "\<not> authReady ss" "AwaitIPs n \<notin> set (tasks s)"
  shows "server_inv (register n xs s)"
proof -
  let ?ss = "ss\<lparr>authorizedIPs := xs, authReady := True\<rparr>" and ?t = "register n xs s"
  have o: "objs ?t = (objs s)(n \<mapsto> ?ss)"
    and u: "userSessions ?t = (userSessions s)(userId ss \<mapsto> n)"
    and f: "ptys ?t = ptys s" "nextPty ?t = nextPty s" "tasks ?t = tasks s" "nextConn ?t = nextConn s"
    using assms(2) by (simp_all add: register_def)
  have no: "pty_owner y \<noteq> n" if "ptys s q = Some y" for q y
    using assms(1-3) that unfolding server_inv_def pty_inv_def by (metis option.inject)
  have na: "\<not> isActive ss"
    using assms(1,2) no unfolding server_inv_def pty_inv_def by metis
  have "pty_inv s" using assms(1) by (simp add: server_inv_def)
  then have "pty_inv ?t"
    unfolding pty_inv_def o f
  proof (elim conjE, intro conjI)
    assume l: "\<forall>p y. ptys s p = Some y \<and> pty_alive y \<longrightarrow>
        (\<exists>x. objs s (pty_owner y) = Some x \<and> isActive x \<and> ptyProcess x = Some p)"
    then show "\<forall>p y. ptys s p = Some y \<and> pty_alive y \<longrightarrow>
        (\<exists>x. ((objs s)(n \<mapsto> ?ss)) (pty_owner y) = Some x \<and> isActive x \<and> ptyProcess x = Some p)"
      using no by (metis fun_upd_other)
  next
    assume a: "\<forall>m x. objs s m = Some x \<and> isActive x \<longrightarrow>
        (\<exists>p y. ptyProcess x = Some p \<and> ptys s p = Some y \<and> pty_alive y \<and> pty_owner y = m)"
    then show "\<forall>m x. ((objs s)(n \<mapsto> ?ss)) m = Some x \<and> isActive x \<longrightarrow>
        (\<exists>p y. ptyProcess x = Some p \<and> ptys s p = Some y \<and> pty_alive y \<and> pty_owner y = m)"
      using na by auto
  next
    assume e: "\<forall>p y. ptys s p = Some y \<longrightarrow>
        (\<exists>x. objs s (pty_owner y) = Some x \<and> authReady x \<and> args_ok (authorizedIPs x) (pty_args y))"
    then show "\<forall>p y. ptys s p = Some y \<longrightarrow>
        (\<exists>x. ((objs s)(n \<mapsto> ?ss)) (pty_owner y) = Some x \<and> authReady x
           \<and> args_ok (authorizedIPs x) (pty_args y))"
      using no by (metis fun_upd_other)
  qed
  moreover have r: "ready s m \<Longrightarrow> ready ?t m" for m by (auto simp: ready_def o)
  moreover have "task_ok ?t x" if "x \<in> set (tasks s)" for x
  proof -
    have "task_ok s x" using assms(1) that by (simp add: server_inv_def task_inv_def)
    then show ?thesis using r assms(4) that by (cases x) (auto simp: o)
  qed
  moreover have "ready ?t n" by (simp add: ready_def o)
  moreover have "\<forall>m x. objs ?t m = Some x \<longrightarrow> m < nextConn ?t"
    using assms(1,2) by (auto simp: server_inv_def task_inv_def o f)
  ultimately show ?thesis using assms(1)
    by (auto simp: server_inv_def task_inv_def f u)
qed

lemma ips_settled_register:
  "objs s n = Some ss \<Longrightarrow>
   ips_settled n (IpsReply 200 (Some ips)) s =
     drain n (pendingMessages ss) (register n (case ips of Some xs \<Rightarrow> xs | None \<Rightarrow> []) s)"
  by (simp add: ips_settled_def register_def Let_def)

lemma inv_ips_settled:
  assumes "server_inv s" "AwaitIPs n \<in> set (tasks s)"
  shows "server_inv (ips_settled n r (drop_task (AwaitIPs n) s))"
proof -
  let ?s = "drop_task (AwaitIPs n) s"
  have i: "server_inv ?s" using assms(1) by (rule inv_drop_task)
  have "task_ok s (AwaitIPs n)" "count_list (tasks s) (AwaitIPs n) \<le> 1"
    using assms unfolding server_inv_def task_inv_def by blast+
  then obtain ss where ss: "objs s n = Some ss" "\<not> authReady ss" by auto
  have "count_list (remove1 x xs) x = count_list xs x - 1" for x :: task and xs
    by (induction xs) auto
  with \<open>count_list (tasks s) (AwaitIPs n) \<le> 1\<close> have "count_list (tasks ?s) (AwaitIPs n) = 0"
    by (simp add: drop_task_def)
  then have "AwaitIPs n \<notin> set (tasks ?s)" by (simp add: count_list_0_iff)
  moreover have "objs ?s n = Some ss" using ss by (simp add: drop_task_def)
  ultimately have "server_inv (register n xs ?s)" for xs using i ss(2) by (intro inv_register)
  then have "server_inv (drain n ms (register n xs ?s))" for ms xs by (rule inv_drain)
  with i \<open>objs ?s n = Some ss\<close> show ?thesis
    by (cases r) (auto simp: ips_settled_def register_def Let_def split: option.splits)
qed

lemma inv_on_connection: "server_inv s \<Longrightarrow> server_inv (on_connection uid sc s)"
proof -
  assume inv: "server_inv s"
  let ?n = "nextConn s"
  let ?s = "s\<lparr>objs := (objs s)(?n \<mapsto> new_session uid sc), nextConn := Suc ?n\<rparr>"
  have fresh: "objs s ?n = None"
    using inv unfolding server_inv_def task_inv_def by (metis less_irrefl not_Some_eq)
  have r: "ready ?s m \<longleftrightarrow> ready s m" for m using fresh by (auto simp: ready_def new_session_def)
  have t: "task_ok s x \<Longrightarrow> task_ok ?s x" for x
    using fresh by (cases x) (auto simp: r)
  have no: "AwaitIPs ?n \<notin> set (tasks s)"
    using inv fresh unfolding server_inv_def task_inv_def by fastforce
  have own: "ptys s q = Some y \<Longrightarrow> pty_owner y \<noteq> ?n" for q y
    using inv fresh unfolding server_inv_def pty_inv_def by (metis option.distinct(1))
  have p: "pty_inv ?s"
    using inv own unfolding server_inv_def pty_inv_def by (auto simp: new_session_def)
  have i: "server_inv ?s"
    using inv p t by (auto simp: server_inv_def task_inv_def r less_SucI)
  have "server_inv (add_task (AwaitIPs ?n) (emit es ?s))" for es
  proof -
    have "task_ok (add_task (AwaitIPs ?n) (emit es ?s)) x = task_ok ?s x" for x
      by (rule task_ok_objs) simp
    moreover have "task_ok ?s (AwaitIPs ?n)" by (simp add: new_session_def)
    ultimately show ?thesis
      using i no by (simp add: server_inv_def task_inv_def pty_inv_def ready_def count_notin)
  qed
  with i show ?thesis by (simp add: on_connection_def Let_def)
qed

lemma inv_on_pty_exit: "server_inv s \<Longrightarrow> server_inv (on_pty_exit p s)"
proof (cases "ptys s p")
  case (Some y)
  assume inv: "server_inv s"
  show ?thesis
  proof (cases "pty_alive y")
    case True
    let ?n = "pty_owner y"
    let ?t = "upd ?n (\<lambda>x. x\<lparr>isActive := False\<rparr>) (s\<lparr>ptys := (ptys s)(p \<mapsto> y\<lparr>pty_alive := False\<rparr>)\<rparr>)"
    obtain ss where ss: "objs s ?n = Some ss" "isActive ss" "ptyProcess ss = Some p"
      using inv Some True unfolding server_inv_def pty_inv_def by blast
    have o: "objs ?t = (objs s)(?n \<mapsto> ss\<lparr>isActive := False\<rparr>)" using ss by simp
    have live: "pty_owner z \<noteq> ?n" if "ptys s q = Some z" "pty_alive z" "q \<noteq> p" for q z
      using inv ss that unfolding server_inv_def pty_inv_def by (metis option.inject)
    have "pty_inv ?t"
      using inv live Some ss unfolding server_inv_def pty_inv_def o upd_sel
      by (simp, safe) (metis option.inject)+
    moreover have "ready ?t m \<longleftrightarrow> ready s m" for m using ss by (auto simp: ready_def)
    moreover have "task_ok ?t x = task_ok s x" for x
      using ss \<open>\<And>m. ready ?t m \<longleftrightarrow> ready s m\<close> by (cases x) auto
    ultimately have "server_inv ?t" using inv ss by (auto simp: server_inv_def task_inv_def)
    then have "server_inv (clear_session_timer ?n (emit es ?t))" for es
      by (intro inv_clear_session_timer) simp
    moreover have comm: "upd ?n f (emit es u) = emit es (upd ?n f u)" for f es u
      by (simp add: upd_def emit_def)
    ultimately show ?thesis using Some True
      by (simp only: on_pty_exit_def option.case if_False comm not_True_eq_False)
  qed (use inv Some in \<open>simp add: on_pty_exit_def\<close>)
qed (simp add: on_pty_exit_def)

lemma inv_heartbeat: "server_inv s \<Longrightarrow> server_inv (heartbeat cs s)"
proof -
  have "server_inv s \<Longrightarrow> server_inv (heartbeat_one n s)" for n s
    by (auto simp: heartbeat_one_def same_core_def intro!: inv_upd split: option.splits)
  then show "server_inv s \<Longrightarrow> server_inv (heartbeat cs s)"
    unfolding heartbeat_def by (induction cs arbitrary: s) auto
qed

lemma inv_event: "server_inv s \<Longrightarrow> server_inv (server_event_step s e)"
proof (cases e)
  case (KillTimer n a k)
  assume inv: "server_inv s"
  show ?thesis
  proof (cases "KillWait n a k \<in> set (tasks s)")
    case True
    with inv have "task_ok s (KillWait n a k)" by (auto simp: server_inv_def task_inv_def simp del: task_ok.simps)
    then have "task_ok (drop_task (KillWait n a k) s) (KillWait n a k)"
      using task_ok_objs [of "drop_task (KillWait n a k) s" s] by (simp add: drop_task_def del: task_ok.simps)
    then show ?thesis using inv True KillTimer inv_kill_check [OF inv_drop_task [OF inv]] by simp
  qed (simp add: KillTimer inv)
next
  case (SessionTimeout i)
  assume "server_inv s"
  with SessionTimeout show ?thesis
    by (auto simp: on_session_timeout_def intro!: inv_killPtyProcess inv_timers split: option.splits)
next
  case (Message n m)
  assume "server_inv s"
  with Message show ?thesis
    by (auto simp: on_message_def inv_handleMessage inv_pending split: option.splits)
next
  case (Pong n)
  assume "server_inv s"
  with Pong show ?thesis by (auto intro!: inv_upd simp: same_core_def)
qed (auto simp: inv_on_connection inv_ips_settled inv_token_settled inv_drop_task inv_on_pty_exit
    inv_heartbeat on_pty_data_def handleError_def handleClose_def
    intro!: inv_killPtyProcess split: option.splits)

lemma inv_start_state: "server_inv server_start"
  by (simp add: server_inv_def pty_inv_def task_inv_def server_start_def)

text \<open>The server keeps the contract of an event-driven component for the invariant.\<close>

interpretation srv: event_machine "\<lambda>s. s = server_start" "\<lambda>_ _. True" server_step server_inv
  by unfold_locales (simp_all add: inv_start_state inv_event server_step_def)

lemma server_run_inv: "server_inv (run server_step server_start es)"
  by (rule srv.inv_run) (simp_all add: inv_start_state)

section \<open>A session that runs a command\<close>

text \<open>When parsing and validation succeed, \<open>handleCommand\<close> starts the terminal with the sanitised
  arguments and the here-document.\<close>

lemma run_command_spawns:
  assumes "objs s n = Some ss" "extractSshArgs (newline_to_space c) = args"
    and "validateSshArgs args (authorizedIPs ss)"
  shows "run_command ws n c s =
    spawn_terminal ws n (sanitizeSshArgs args @ [extractHereDocContent (newline_to_space c)])
      (clear_session_timer n s)"
proof -
  let ?s = "clear_session_timer n s"
  obtain ss' where ss': "objs ?s n = Some ss'" "authorizedIPs ss' = authorizedIPs ss"
    using assms(1) by (simp add: clear_session_timer_def upd_def)
  have auth: "isAuthorizedTargetHost (extractTargetHost args) (authorizedIPs ss)"
    using gate.spawned_authorized [OF assms(3)] validate_sanitized [OF assms(3)] by simp
  obtain t where t: "extractTargetHost args = Some t" "t \<noteq> []"
  proof -
    obtain its where "args = concat (map render its)" "valid_items its (authorizedIPs ss)"
      using assms(3) validate_iff_items by blast
    with auth that show ?thesis
      by (auto simp: isAuthorizedTargetHost_def normalizeHostForAuthorization_def split: option.splits if_splits)
  qed
  show ?thesis
    unfolding run_command_def Let_def assms(2) ss' option.case
    using auth t assms(3) by (simp add: truthy_def)
qed

text \<open>The command line the generator writes: each ssh argument single-quoted, then the remote
  shell and the script as a here-document with delimiter \<open>d\<close>.\<close>

definition command_for :: "string list \<Rightarrow> string \<Rightarrow> string \<Rightarrow> string" where
  "command_for args d script =
     ''timeout 3600 '' @ ''ssh '' @ js_join '' '' (map word_src (map (\<lambda>a. [Quoted sq a]) args))
       @ CHR '' '' # sq # ''bash -se'' @ sq # '' << '' @ bsl # d @ lf # (script @ [lf]) @ d"

definition flatten_lines :: "string \<Rightarrow> string" where
  "flatten_lines = map (\<lambda>c. if c = lf then CHR '' '' else c)"

lemma newline_to_space_map: "newline_to_space c = flatten_lines c"
  unfolding newline_to_space_def flatten_lines_def
proof (induction c)
  case (Cons a c)
  obtain x xs where x: "js_split lf c = x # xs" by (cases "js_split lf c") auto
  with Cons show ?case by (cases xs) (auto simp: js_join_Cons)
qed simp

lemma flatten_lines_id: "lf \<notin> set c \<Longrightarrow> flatten_lines c = c"
  unfolding flatten_lines_def by (rule map_idI) auto

abbreviation plain_args :: "string list \<Rightarrow> bool" where
  "plain_args \<equiv> list_all (list_all (\<lambda>c. c \<noteq> lf \<and> c \<noteq> cr \<and> c \<noteq> sq \<and> c \<noteq> dq \<and> c \<noteq> CHR ''<''))"

lemma quoted_words: "plain_args args \<Longrightarrow> list_all wf_word (map (\<lambda>a. [Quoted sq a]) args)"
  by (simp add: list_all_iff wf_word_def)

lemma words_chars:
  assumes "plain_args args" "c = lf \<or> c = CHR ''<''"
  shows "c \<notin> set (js_join '' '' (map word_src (map (\<lambda>a. [Quoted sq a]) args)))"
proof
  assume "c \<in> set (js_join '' '' (map word_src (map (\<lambda>a. [Quoted sq a]) args)))"
  from set_js_join [OF this] show False
  proof
    assume "\<exists>x\<in>set (map word_src (map (\<lambda>a. [Quoted sq a]) args)). c \<in> set x"
    then obtain a where "a \<in> set args" "c \<in> set (word_src [Quoted sq a])" by auto
    with assms(2) have "c \<in> set a" by (auto simp: word_src_def)
    with \<open>a \<in> set args\<close> assms show False by (auto simp: list_all_iff)
  qed (use assms(2) in auto)
qed

lemma flatten_command_for:
  assumes "plain_args args" "lf \<notin> set d"
  shows "flatten_lines (command_for args d script) =
    ''timeout 3600 '' @ ''ssh '' @ js_join '' '' (map word_src (map (\<lambda>a. [Quoted sq a]) args))
       @ CHR '' '' # sq # ''bash -se'' @ sq # '' << '' @ bsl # d @ CHR '' '' # (flatten_lines script @ '' '') @ d"
proof -
  have w: "flatten_lines (js_join '' '' (map word_src (map (\<lambda>a. [Quoted sq a]) args)))
      = js_join '' '' (map word_src (map (\<lambda>a. [Quoted sq a]) args))"
    by (rule flatten_lines_id) (rule words_chars [OF assms(1)], simp)
  have f: "flatten_lines (xs @ ys) = flatten_lines xs @ flatten_lines ys"
    "flatten_lines (c # xs) = (if c = lf then CHR '' '' else c) # flatten_lines xs"
    "flatten_lines [] = []" for xs ys c
    by (simp_all add: flatten_lines_def)
  show ?thesis unfolding command_for_def by (simp only: f w flatten_lines_id [OF assms(2)]) simp
qed

lemma extractSshArgs_command_for:
  assumes "plain_args args" "args \<noteq> []" "lf \<notin> set d"
  shows "extractSshArgs (newline_to_space (command_for args d script)) = tty_default (map force_tty args)"
proof -
  have "js_indexOf (''timeout 3600 '' @ ''ssh '') ''ssh '' = Some (length ''timeout 3600 '')"
    by (simp add: js_startsWith_def)
  from extractSshArgs_words_lemma [OF quoted_words [OF assms(1)] _ this, of "''bash -se''"] assms(2)
  show ?thesis
    unfolding newline_to_space_map flatten_command_for [OF assms(1,3)] by (simp add: word_text_def comp_def)
qed

definition sample_command :: string where
  "sample_command = command_for sample_args ''EOF-HERE'' ''exec sh''"

lemma sample_chars: "plain_args sample_args"
  by (simp add: sample_args_def sample_items_def)

lemma sample_extract: "extractSshArgs (newline_to_space sample_command) = sample_args"
proof -
  have "tty_default (map force_tty sample_args) = sample_args"
    by (simp add: sample_args_def sample_items_def tty_default_def force_tty_def js_defs)
  moreover have "sample_args \<noteq> []" by (simp add: sample_args_def sample_items_def)
  ultimately show ?thesis
    using sample_chars by (simp add: sample_command_def extractSshArgs_command_for)
qed

section \<open>A sample history\<close>

definition sample_cookie :: session_cookie where
  "sample_cookie = \<lparr>laravelSession = Some ''s'', xsrfToken = Some ''x'', sessionCookieName = ''c''\<rparr>"

definition sample_token :: json where
  "sample_token = JStr (replicate 64 CHR ''a'')"

definition sample_history :: "server_event list" where
  "sample_history =
     [Connection ''1'' sample_cookie, IpsSettled 0 (IpsReply 200 (Some (Some [''H1'']))),
      Message 0 (JsonText (JObj [(''terminalToken'', sample_token)])),
      TokenSettled 0 (TokenReply 200 (Some sample_command))]"

lemma sample_is_token: "is_token sample_token"
  by (simp add: is_token_def sample_token_def list_all_iff is_alnum_def is_alpha_def code_def)

definition sample_ready :: session where
  "sample_ready = (new_session ''1'' sample_cookie)\<lparr>authorizedIPs := [''H1''], authReady := True\<rparr>"

lemma sample_prefix:
  "\<exists>s. run server_step server_start (take 3 sample_history) = s \<and> objs s 0 = Some sample_ready
     \<and> userSessions s ''1'' = Some 0 \<and> \<not> crashed s \<and> AwaitToken 0 \<in> set (tasks s)
     \<and> nextPty s = 0 \<and> ptys s = (\<lambda>_. None)"
  unfolding sample_history_def run_def
  by (simp add: server_step_def on_connection_def server_start_def sample_cookie_def truthy_def Let_def
      new_session_def sample_ready_def drop_task_def ips_settled_def on_message_def handleMessage_def
      parseMessage_def handle_entry_def messageHandlers_def open_keys_def call_handler_def
      handleTerminalToken_def sample_is_token)

definition sample_args_spawned :: "string list" where
  "sample_args_spawned =
     sanitizeSshArgs sample_args @ [extractHereDocContent (newline_to_space sample_command)]"

lemma spawn_terminal_sel:
  "objs s n = Some ss \<Longrightarrow>
   ptys (spawn_terminal ws n args s) = (ptys s)(nextPty s \<mapsto>
      \<lparr>pty_owner = n, pty_ws = ws, pty_args = args, pty_alive = True\<rparr>)
   \<and> (\<exists>x. objs (spawn_terminal ws n args s) n = Some x \<and> isActive x \<and> ptyProcess x = Some (nextPty s)
        \<and> userId x = userId ss \<and> authReady x = authReady ss \<and> authorizedIPs x = authorizedIPs ss)
   \<and> userSessions (spawn_terminal ws n args s) = userSessions s
   \<and> tasks (spawn_terminal ws n args s) = tasks s
   \<and> crashed (spawn_terminal ws n args s) = crashed s"
  by (simp add: spawn_terminal_def Let_def split: prod.splits)

lemma sample_run:
  "\<exists>s x. run server_step server_start sample_history = s \<and> objs s 0 = Some x \<and> isActive x
     \<and> userId x = ''1'' \<and> userSessions s ''1'' = Some 0 \<and> ptyProcess x = Some 0 \<and> \<not> crashed s
     \<and> ptys s 0 = Some \<lparr>pty_owner = 0, pty_ws = 0, pty_args = sample_args_spawned, pty_alive = True\<rparr>"
proof -
  let ?p = "take 3 sample_history"
  let ?e = "TokenSettled 0 (TokenReply 200 (Some sample_command))"
  obtain s where s: "run server_step server_start ?p = s" "objs s 0 = Some sample_ready"
    "userSessions s ''1'' = Some 0" "\<not> crashed s" "AwaitToken 0 \<in> set (tasks s)" "nextPty s = 0"
    using sample_prefix by blast
  have h: "run server_step server_start sample_history = server_step s ?e"
    using s(1) by (simp add: run_def sample_history_def)
  have r: "userId sample_ready = ''1''" "isActive sample_ready = False"
    "authorizedIPs sample_ready = [''H1'']"
    by (simp_all add: sample_ready_def new_session_def sample_cookie_def)
  let ?d = "drop_task (AwaitToken 0) s"
  have d: "objs ?d 0 = Some sample_ready" "userSessions ?d ''1'' = Some 0" "\<not> crashed ?d" "nextPty ?d = 0"
    using s by (simp_all add: drop_task_def)
  let ?c = "clear_session_timer 0 ?d"
  have c: "\<exists>x. objs ?c 0 = Some x \<and> userId x = ''1''" "userSessions ?c ''1'' = Some 0" "\<not> crashed ?c" "nextPty ?c = 0"
    using d r by (simp_all add: clear_session_timer_def upd_def)
  have "server_step s ?e = run_command 0 0 sample_command ?d"
    using s d r by (simp add: server_step_def token_settled_def handleCommand_def)
  also have "\<dots> = spawn_terminal 0 0 sample_args_spawned ?c"
    unfolding sample_args_spawned_def
    using run_command_spawns [OF d(1) sample_extract] sample_valid r(3) by simp
  finally show ?thesis unfolding h using c spawn_terminal_sel by fastforce
qed

lemma sample_closing:
  "KillWait 0 1 (AfterClose ''1'') \<in> set (tasks (run server_step server_start (sample_history @ [WsClosed 0])))"
proof -
  obtain s x where s: "run server_step server_start sample_history = s" "objs s 0 = Some x"
    "userId x = ''1''" "userSessions s ''1'' = Some 0" "ptyProcess x = Some 0" "\<not> crashed s"
    using sample_run by blast
  then show ?thesis
    by (simp add: server_step_def handleClose_def killPtyProcess_def attemptKill_def)
qed

lemma run_active_iff:
  assumes "objs (run server_step server_start es) n = Some ss"
  shows "isActive ss \<longleftrightarrow>
    (\<exists>p y. ptyProcess ss = Some p \<and> ptys (run server_step server_start es) p = Some y
       \<and> pty_alive y \<and> pty_owner y = n)"
proof -
  have inv: "pty_inv (run server_step server_start es)"
    using server_run_inv by (simp add: server_inv_def)
  show ?thesis
  proof
    assume "isActive ss"
    with inv assms show "\<exists>p y. ptyProcess ss = Some p \<and> ptys (run server_step server_start es) p = Some y
       \<and> pty_alive y \<and> pty_owner y = n" unfolding pty_inv_def by blast
  next
    assume "\<exists>p y. ptyProcess ss = Some p \<and> ptys (run server_step server_start es) p = Some y
       \<and> pty_alive y \<and> pty_owner y = n"
    then obtain p y where "ptys (run server_step server_start es) p = Some y" "pty_alive y" "pty_owner y = n"
      by blast
    with inv obtain x where "objs (run server_step server_start es) n = Some x" "isActive x"
      unfolding pty_inv_def by blast
    with assms show "isActive ss" by simp
  qed
qed

lemma run_one_live:
  assumes "ptys (run server_step server_start es) p = Some y" "pty_alive y"
    and "ptys (run server_step server_start es) q = Some z" "pty_alive z" "pty_owner y = pty_owner z"
  shows "p = q"
proof -
  have inv: "pty_inv (run server_step server_start es)"
    using server_run_inv by (simp add: server_inv_def)
  with assms(1,2) obtain a where a: "objs (run server_step server_start es) (pty_owner y) = Some a"
    "ptyProcess a = Some p" unfolding pty_inv_def by blast
  from inv assms(3,4) obtain b where "objs (run server_step server_start es) (pty_owner z) = Some b"
    "ptyProcess b = Some q" unfolding pty_inv_def by blast
  with a assms(5) show ?thesis by simp
qed

section \<open>Claims\<close>

text \<open>C2: Only authorised commands run. Whatever the clients, Coolify and the terminals do, every
  pseudo terminal ever spawned belongs to a session whose authorisation data arrived, and its
  arguments are the sanitised form of validated ssh arguments whose target is on that session's
  authorised list, followed by one here-document argument.\<close>

theorem spawned_terminals_authorized:
  "ptys (run server_step server_start es) p = Some y \<Longrightarrow>
   \<exists>ss. objs (run server_step server_start es) (pty_owner y) = Some ss \<and> authReady ss
     \<and> args_ok (authorizedIPs ss) (pty_args y)"
  using server_run_inv [of es] unfolding server_inv_def pty_inv_def by blast

theorem spawned_terminals_authorized_witness:
  "\<exists>ips. args_ok ips sample_args_spawned"
proof -
  obtain y where "ptys (run server_step server_start sample_history) 0 = Some y"
    "pty_args y = sample_args_spawned" using sample_run by fastforce
  from spawned_terminals_authorized [OF this(1)] this(2) show ?thesis by auto
qed

text \<open>C3: One live terminal per session. In every history, a session is active exactly when there
  is a live terminal of its own, that terminal is the one its object names, and no session ever
  owns two live terminals.\<close>

theorem one_live_terminal:
  "(objs (run server_step server_start es) n = Some ss \<longrightarrow>
      (isActive ss \<longleftrightarrow> (\<exists>p y. ptyProcess ss = Some p \<and> ptys (run server_step server_start es) p = Some y
          \<and> pty_alive y \<and> pty_owner y = n)))
   \<and> (ptys (run server_step server_start es) p = Some y \<and> pty_alive y
      \<and> ptys (run server_step server_start es) q = Some z \<and> pty_alive z
      \<and> pty_owner y = pty_owner z \<longrightarrow> p = q)"
  using run_active_iff run_one_live by blast

theorem one_live_terminal_witness:
  "\<exists>ss y. objs (run server_step server_start sample_history) 0 = Some ss \<and> ptyProcess ss = Some 0
     \<and> ptys (run server_step server_start sample_history) 0 = Some y \<and> pty_alive y \<and> pty_owner y = 0"
proof -
  obtain s x where s: "run server_step server_start sample_history = s" "objs s 0 = Some x" "isActive x"
    "ptyProcess x = Some 0" using sample_run by blast
  with one_live_terminal [of sample_history 0 x] show ?thesis by auto
qed

text \<open>A kill loop is bounded. In every history each pending kill loop belongs to an authorised
  session and has made between one and five attempts.\<close>

theorem kill_attempts_bounded:
  "KillWait n a k \<in> set (tasks (run server_step server_start es)) \<Longrightarrow>
   1 \<le> a \<and> a \<le> max_kill_attempts \<and> ready (run server_step server_start es) n"
proof -
  assume "KillWait n a k \<in> set (tasks (run server_step server_start es))"
  then have "task_ok (run server_step server_start es) (KillWait n a k)"
    using server_run_inv [of es] unfolding server_inv_def task_inv_def by blast
  then show ?thesis by simp
qed

theorem kill_attempts_bounded_witness:
  "ready (run server_step server_start (sample_history @ [WsClosed 0])) 0"
  using kill_attempts_bounded [OF sample_closing] by blast

end
