(* ===== verification/ServerBehaviour.thy ===== *)
theory ServerBehaviour
  imports ServerSafety
begin

text \<open>
  What the terminal server does with frames: the input of a client reaches only the terminal
  of its own session, buffering frames until the authorisation data arrives is transparent, a
  kill loop ends after five ticks, only redeemable tokens are sent to Coolify, and which frames
  end the process with an uncaught exception.
\<close>

section \<open>Handling a frame leaves the sessions alone\<close>

lemma killPty_frame [simp]:
  "objs (killPtyProcess uid NoCont s) = objs s" "userSessions (killPtyProcess uid NoCont s) = userSessions s"
  "ptys (killPtyProcess uid NoCont s) = ptys s" "crashed (killPtyProcess uid NoCont s) = crashed s"
  by (simp_all add: killPtyProcess_def attemptKill_def resume_kill_def split: option.splits)

lemma rejectToken_frame [simp]:
  "objs (rejectTerminalToken n m s) = objs s" "userSessions (rejectTerminalToken n m s) = userSessions s"
  "ptys (rejectTerminalToken n m s) = ptys s" "crashed (rejectTerminalToken n m s) = crashed s"
  by (simp_all add: rejectTerminalToken_def emit_def)

lemma handleToken_frame [simp]:
  "objs (handleTerminalToken n t s) = objs s" "userSessions (handleTerminalToken n t s) = userSessions s"
  "ptys (handleTerminalToken n t s) = ptys s" "crashed (handleTerminalToken n t s) = crashed s"
  by (simp_all add: handleTerminalToken_def emit_def add_task_def)

lemma with_pty_frame [simp]:
  "objs (with_pty ss f s) = objs s" "userSessions (with_pty ss f s) = userSessions s"
  "ptys (with_pty ss f s) = ptys s"
  by (simp_all add: with_pty_def uncaught_def split: option.splits)

lemma call_handler_frame [simp]:
  "objs (call_handler n ss h v s) = objs s" "userSessions (call_handler n ss h v s) = userSessions s"
  "ptys (call_handler n ss h v s) = ptys s"
  by (simp_all add: call_handler_def Let_def uncaught_def split: handler.splits)

lemma handle_entry_frame [simp]:
  "objs (handle_entry n e s) = objs s" "userSessions (handle_entry n e s) = userSessions s"
  "ptys (handle_entry n e s) = ptys s"
  by (simp_all add: handle_entry_def split: option.splits)

lemma handle_entries_frame [simp]:
  "objs (handle_entries n es s) = objs s" "userSessions (handle_entries n es s) = userSessions s"
  "ptys (handle_entries n es s) = ptys s"
  by (induction n es s rule: handle_entries.induct) simp_all

lemma handleMessage_frame [simp]:
  "objs (handleMessage n m s) = objs s" "userSessions (handleMessage n m s) = userSessions s"
  "ptys (handleMessage n m s) = ptys s"
  by (simp_all add: handleMessage_def split: option.splits)

section \<open>What is emitted\<close>

text \<open>\<open>emits P s t\<close>: going from \<open>s\<close> to \<open>t\<close> only appends effects with \<open>P\<close>.\<close>

definition emits :: "(effect \<Rightarrow> bool) \<Rightarrow> server \<Rightarrow> server \<Rightarrow> bool" where
  "emits P s t \<longleftrightarrow> (\<exists>es. out t = out s @ es \<and> list_all P es)"

lemma emits_refl [simp]: "out t = out s \<Longrightarrow> emits P s t"
  by (simp add: emits_def)

lemma emits_trans: "emits P s t \<Longrightarrow> emits P t u \<Longrightarrow> emits P s u"
  unfolding emits_def by force

lemma emits_emit: "list_all P es \<Longrightarrow> emits P s (emit es s)"
  by (auto simp: emits_def)

lemma emits_mem: "emits P s t \<Longrightarrow> e \<in> set (out t) \<Longrightarrow> e \<in> set (out s) \<or> P e"
  by (auto simp: emits_def list_all_iff)

text \<open>The terminal that input from a frame goes to.\<close>

fun input_of :: "effect \<Rightarrow> nat option" where
  "input_of (PtyWrite p v) = Some p"
| "input_of (PtyResize p c r) = Some p"
| "input_of (PtyPause p) = Some p"
| "input_of (PtyResume p) = Some p"
| "input_of _ = None"

definition own_input :: "session \<Rightarrow> effect \<Rightarrow> bool" where
  "own_input ss e \<longleftrightarrow> (\<forall>p. input_of e = Some p \<longrightarrow> isActive ss \<and> ptyProcess ss = Some p)"

lemma emits_killPty: "(\<And>p. P (PtyWriteText p kill_text)) \<Longrightarrow> emits P s (killPtyProcess uid NoCont s)"
  by (auto simp: killPtyProcess_def attemptKill_def resume_kill_def emits_def split: option.splits)

lemma open_key_handler:
  "map_of messageHandlers k = Some h \<Longrightarrow> k \<in> set open_keys \<Longrightarrow>
   h = HCheckActive \<or> h = HTerminalToken \<or> h = HPing"
  by (auto simp: open_keys_def messageHandlers_def)

lemma emits_handleToken: "emits (own_input ss) s (handleTerminalToken n v s)"
  by (simp add: handleTerminalToken_def rejectTerminalToken_def emits_def own_input_def)

lemma emits_with_pty:
  assumes "isActive ss" "\<And>p. input_of (f p) = Some p"
  shows "emits (own_input ss) s (with_pty ss f s)"
  using assms by (simp add: with_pty_def emits_emit own_input_def split: option.splits)

lemma emits_call_handler:
  assumes "isActive ss \<or> h = HCheckActive \<or> h = HTerminalToken \<or> h = HPing"
  shows "emits (own_input ss) s (call_handler n ss h v s)"
proof (cases h)
  case HCheckActive
  have "emits (own_input ss) s (killPtyProcess (userId ss) NoCont s)"
    by (rule emits_killPty) (simp add: own_input_def)
  with HCheckActive show ?thesis by (simp add: call_handler_def emits_emit own_input_def)
qed (use assms in \<open>simp_all add: call_handler_def emits_with_pty emits_handleToken emits_emit own_input_def Let_def\<close>)

lemma emits_handle_entry:
  assumes "objs s n = Some ss"
  shows "emits (own_input ss) s (handle_entry n e s)"
proof (cases "map_of messageHandlers (fst e)")
  case (Some h)
  with assms emits_call_handler [of ss h] open_key_handler [OF Some] show ?thesis
    by (auto simp: handle_entry_def)
qed (use assms in \<open>simp add: handle_entry_def\<close>)

lemma emits_handle_entries:
  "objs s n = Some ss \<Longrightarrow> emits (own_input ss) s (handle_entries n es s)"
proof (induction n es s rule: handle_entries.induct)
  case (2 n e es s)
  have "emits (own_input ss) (handle_entry n e s) (handle_entries n es (handle_entry n e s))"
    if "\<not> crashed s" by (rule 2(1) [OF that]) (use 2 in simp)
  from emits_trans [OF emits_handle_entry [OF 2(2)] this] show ?case by simp
qed simp

lemma emits_handleMessage:
  "objs s n = Some ss \<Longrightarrow> emits (own_input ss) s (handleMessage n m s)"
  by (auto simp: handleMessage_def emits_handle_entries split: option.splits)

lemma emits_message_step:
  assumes "objs s n = Some ss" "authReady ss"
  shows "emits (own_input ss) s (server_step s (Message n m))"
  using assms emits_handleMessage [OF assms(1)] by (auto simp: server_step_def on_message_def)

section \<open>Which frames crash the server\<close>

definition safe_entry :: "string \<times> json \<Rightarrow> bool" where
  "safe_entry e \<longleftrightarrow> map_of messageHandlers (fst e) \<noteq> Some InheritedThrows
     \<and> \<not> (fst e = ''resize'' \<and> snd e = JNull)"

lemma resize_key: "map_of messageHandlers k = Some HResize \<longleftrightarrow> k = ''resize''"
  by (auto simp: messageHandlers_def)

lemma crash_handle_entry:
  assumes "objs s n = Some ss" "ptyProcess ss \<noteq> None \<or> \<not> isActive ss" "\<not> crashed s"
  shows "crashed (handle_entry n e s) \<longleftrightarrow> isActive ss \<and> \<not> safe_entry e"
proof (cases "map_of messageHandlers (fst e)")
  case (Some h)
  show ?thesis
  proof (cases "isActive ss")
    case True
    then obtain p where "ptyProcess ss = Some p" using assms(2) by blast
    with assms Some True show ?thesis
      using resize_key [of "fst e"]
      by (cases h) (auto simp: handle_entry_def safe_entry_def call_handler_def with_pty_def Let_def)
  next
    case False
    with assms Some open_key_handler [OF Some] show ?thesis
      by (auto simp: handle_entry_def call_handler_def)
  qed
qed (use assms resize_key [of "fst e"] in \<open>auto simp: handle_entry_def safe_entry_def messageHandlers_def\<close>)

lemma crash_handle_entries:
  assumes "objs s n = Some ss" "ptyProcess ss \<noteq> None \<or> \<not> isActive ss" "\<not> crashed s"
  shows "crashed (handle_entries n es s) \<longleftrightarrow> isActive ss \<and> \<not> list_all safe_entry es"
  using assms(1,3)
proof (induction es arbitrary: s)
  case (Cons e es)
  note e = crash_handle_entry [OF Cons.prems(1) assms(2) Cons.prems(2), of e]
  have "crashed t \<Longrightarrow> crashed (handle_entries n es t)" for t by (cases es) simp_all
  with Cons e show ?case by (cases "crashed (handle_entry n e s)") auto
qed simp

definition safe_frame :: "wire \<Rightarrow> bool" where
  "safe_frame m = (case parseMessage m of None \<Rightarrow> True
     | Some j \<Rightarrow> json_truthy j \<longrightarrow> list_all safe_entry (entries j))"

lemma crash_handleMessage:
  assumes "objs s n = Some ss" "ptyProcess ss \<noteq> None \<or> \<not> isActive ss" "\<not> crashed s"
  shows "crashed (handleMessage n m s) \<longleftrightarrow> isActive ss \<and> \<not> safe_frame m"
  using assms crash_handle_entries [OF assms]
  by (auto simp: handleMessage_def safe_frame_def split: option.splits)

lemma active_has_pty:
  assumes "server_inv s" "objs s n = Some ss"
  shows "ptyProcess ss \<noteq> None \<or> \<not> isActive ss"
  using assms unfolding server_inv_def pty_inv_def by blast

lemma not_ready_not_active:
  assumes "server_inv s" "objs s n = Some ss" "\<not> authReady ss"
  shows "\<not> isActive ss"
proof
  assume "isActive ss"
  with assms(1,2) obtain p y where "ptys s p = Some y" "pty_owner y = n"
    unfolding server_inv_def pty_inv_def by blast
  with assms show False unfolding server_inv_def pty_inv_def by fastforce
qed

lemma crash_drain:
  assumes "objs s n = Some ss" "\<not> isActive ss" "\<not> crashed s"
  shows "\<not> crashed (drain n ms s)"
  using assms
proof (induction ms arbitrary: s ss)
  case (Cons m ms)
  let ?t = "upd n (\<lambda>x. x\<lparr>pendingMessages := ms\<rparr>) s"
  have t: "objs ?t n = Some (ss\<lparr>pendingMessages := ms\<rparr>)" "\<not> crashed ?t" using Cons.prems by simp_all
  moreover have "\<not> crashed (handleMessage n m ?t)"
    using crash_handleMessage [OF t(1) _ t(2)] Cons.prems by simp
  ultimately show ?case using Cons by simp
qed simp

text \<open>Apart from frames, no callback ends the process.\<close>

lemma crashed_run_command: "crashed (run_command ws n c s) = crashed s"
proof -
  have sp: "crashed (spawn_terminal ws n a t) = crashed t" for a t
    by (simp add: spawn_terminal_def Let_def split: prod.splits)
  have cl: "crashed (clear_session_timer n s) = crashed s"
    by (simp add: clear_session_timer_def split: option.splits)
  show ?thesis unfolding run_command_def Let_def by (simp add: sp cl)
qed

lemma crashed_resume_kill: "crashed (resume_kill k r s) = crashed s"
  by (simp add: resume_kill_def crashed_run_command split: cont.splits)

lemma crashed_killPty: "crashed (killPtyProcess uid k s) = crashed s"
  by (simp add: killPtyProcess_def attemptKill_def crashed_resume_kill split: option.splits)

lemma crashed_clear: "crashed (clear_session_timer n s) = crashed s"
  by (simp add: clear_session_timer_def split: option.splits)

lemma crashed_kill_check: "crashed (kill_check n a k s) = crashed s"
  by (simp add: kill_check_def attemptKill_def crashed_resume_kill crashed_clear split: option.splits)

lemma crashed_token_settled: "crashed (token_settled n r s) = crashed s"
  by (simp add: token_settled_def handleCommand_def crashed_killPty crashed_run_command
      split: token_reply.splits option.splits)

lemma crashed_heartbeat: "crashed (heartbeat cs s) = crashed s"
proof -
  have "crashed (heartbeat_one n s) = crashed s" for n s
    by (simp add: heartbeat_one_def split: option.splits)
  then show ?thesis unfolding heartbeat_def by (induction cs arbitrary: s) auto
qed

lemmas crashed_ops = crashed_run_command crashed_resume_kill crashed_killPty crashed_clear crashed_kill_check
  crashed_token_settled crashed_heartbeat

lemma crashed_ips_settled:
  assumes "server_inv s" "AwaitIPs n \<in> set (tasks s)" "\<not> crashed s"
  shows "\<not> crashed (ips_settled n r (drop_task (AwaitIPs n) s))"
proof -
  let ?s = "drop_task (AwaitIPs n) s"
  have d: "objs ?s = objs s" "\<not> crashed ?s" using assms(3) by (simp_all add: drop_task_def)
  from assms(1,2) obtain ss where ss: "objs s n = Some ss" "\<not> authReady ss"
    unfolding server_inv_def task_inv_def by fastforce
  have "\<not> isActive ss" by (rule not_ready_not_active [OF assms(1) ss])
  then show ?thesis
    using d ss by (auto simp: ips_settled_def Let_def crash_drain split: ips_reply.splits option.splits)
qed

definition safe_event :: "server_event \<Rightarrow> bool" where
  "safe_event e = (case e of Message n m \<Rightarrow> safe_frame m | _ \<Rightarrow> True)"

lemma crash_step:
  assumes "server_inv s" "\<not> crashed s" "safe_event e"
  shows "\<not> crashed (server_step s e)"
proof (cases e)
  case (Message n m)
  with assms crash_handleMessage [OF _ active_has_pty [OF assms(1)] assms(2)] show ?thesis
    by (auto simp: server_step_def on_message_def safe_event_def split: option.splits)
next
  case (IpsSettled n r)
  with assms crashed_ips_settled [OF assms(1) _ assms(2)] show ?thesis
    by (simp add: server_step_def)
qed (use assms(2) in \<open>simp_all add: server_step_def crashed_ops on_connection_def Let_def
    drop_task_def on_session_timeout_def on_pty_data_def on_pty_exit_def handleError_def handleClose_def
    split: option.splits\<close>)

section \<open>Buffering\<close>

text \<open>Replacing the buffer of a session; frame handling neither reads nor writes it.\<close>

abbreviation buffer :: "conn \<Rightarrow> wire list \<Rightarrow> server \<Rightarrow> server" where
  "buffer n ms \<equiv> upd n (\<lambda>x. x\<lparr>pendingMessages := ms\<rparr>)"

lemma upd_emit: "emit es (upd n f s) = upd n f (emit es s)"
  by (simp add: upd_def emit_def)

lemma upd_add_task: "add_task t (upd n f s) = upd n f (add_task t s)"
  by (simp add: upd_def add_task_def)

lemma buffer_killPty: "killPtyProcess uid NoCont (buffer n ms s) = buffer n ms (killPtyProcess uid NoCont s)"
  by (auto simp: killPtyProcess_def resume_kill_def attemptKill_def upd_emit upd_add_task split: option.splits)

lemma buffer_handleToken: "handleTerminalToken k t (buffer n ms s) = buffer n ms (handleTerminalToken k t s)"
  by (auto simp: handleTerminalToken_def rejectTerminalToken_def upd_emit upd_add_task split: option.splits)

lemma buffer_with_pty: "with_pty ss f (buffer n ms s) = buffer n ms (with_pty ss f s)"
  by (auto simp: with_pty_def uncaught_def upd_def emit_def split: option.splits)

lemma buffer_call_handler:
  "call_handler k (ss\<lparr>pendingMessages := xs\<rparr>) h v (buffer n ms s) = buffer n ms (call_handler k ss h v s)"
proof -
  have "with_pty (ss\<lparr>pendingMessages := xs\<rparr>) f t = with_pty ss f t" for f t
    by (simp add: with_pty_def)
  moreover have "uncaught (buffer n ms s) = buffer n ms (uncaught s)" by (simp add: uncaught_def upd_def)
  ultimately show ?thesis
    by (cases h) (simp_all add: call_handler_def Let_def buffer_with_pty buffer_killPty buffer_handleToken upd_emit)
qed

lemma buffer_handle_entry: "handle_entry n e (buffer n ms s) = buffer n ms (handle_entry n e s)"
  by (auto simp: handle_entry_def buffer_call_handler split: option.splits)

lemma buffer_handle_entries: "handle_entries n es (buffer n ms s) = buffer n ms (handle_entries n es s)"
  by (induction es arbitrary: s) (simp_all add: buffer_handle_entry)

lemma buffer_handleMessage: "handleMessage n m (buffer n ms s) = buffer n ms (handleMessage n m s)"
  by (simp add: handleMessage_def buffer_handle_entries split: option.splits)

lemma buffer_buffer [simp]: "buffer n xs (buffer n ys s) = buffer n xs s"
  by (simp add: upd_def option.map_comp comp_def)

text \<open>Frames handled one after the other, as the message listener does.\<close>

definition deliver :: "conn \<Rightarrow> wire list \<Rightarrow> server \<Rightarrow> server" where
  "deliver n ms s = fold (\<lambda>m s. if crashed s then s else handleMessage n m s) ms s"

lemma buffer_deliver: "deliver n ms (buffer n xs s) = buffer n xs (deliver n ms s)"
  unfolding deliver_def by (induction ms arbitrary: s) (simp_all add: buffer_handleMessage)

lemma drain_deliver: "\<not> crashed (deliver n ms s) \<Longrightarrow> drain n ms (buffer n ms s) = buffer n [] (deliver n ms s)"
proof (induction ms arbitrary: s)
  case Nil
  then show ?case by (simp add: deliver_def)
next
  case (Cons m ms)
  have stuck: "crashed t \<Longrightarrow> deliver n xs t = t" for xs t
    unfolding deliver_def by (induction xs) auto
  have nc: "\<not> crashed s"
    using Cons.prems stuck [of s "m # ms"] by auto
  then have d: "deliver n (m # ms) s = deliver n ms (handleMessage n m s)" by (simp add: deliver_def)
  have "drain n (m # ms) (buffer n (m # ms) s) = drain n ms (buffer n ms (handleMessage n m s))"
    using nc by (simp add: buffer_handleMessage)
  also have "\<dots> = buffer n [] (deliver n ms (handleMessage n m s))"
    using Cons.IH [of "handleMessage n m s"] Cons.prems d by simp
  finally show ?case using d by simp
qed

lemma run_messages_ready:
  assumes "objs s n = Some ss" "authReady ss"
  shows "run server_step s (map (Message n) ms) = deliver n ms s"
  using assms
proof (induction ms arbitrary: s)
  case Nil
  then show ?case by (simp add: deliver_def)
next
  case (Cons m ms)
  show ?case
  proof (cases "crashed s")
    case True
    have "crashed t \<Longrightarrow> run server_step t xs = t" for t xs
      by (induction xs) (simp_all add: server_step_def)
    moreover have "crashed t \<Longrightarrow> deliver n xs t = t" for t xs
      unfolding deliver_def by (induction xs) auto
    ultimately show ?thesis using True by metis
  next
    case False
    with Cons show ?thesis by (simp add: server_step_def on_message_def deliver_def)
  qed
qed

lemma run_messages_buffered:
  assumes "objs s n = Some ss" "\<not> authReady ss" "\<not> crashed s"
  shows "run server_step s (map (Message n) ms) = buffer n (pendingMessages ss @ ms) s"
  using assms
proof (induction ms arbitrary: s ss)
  case Nil
  then have "objs s = (objs s)(n := map_option (\<lambda>x. x\<lparr>pendingMessages := pendingMessages ss\<rparr>) (objs s n))"
    by (simp add: fun_upd_idem)
  then show ?case by (simp add: upd_def)
next
  case (Cons m ms)
  let ?t = "buffer n (pendingMessages ss @ [m]) s"
  have "server_step s (Message n m) = ?t"
    using Cons.prems by (simp add: server_step_def on_message_def upd_def)
  moreover have "run server_step ?t (map (Message n) ms) = buffer n ((pendingMessages ss @ [m]) @ ms) ?t"
    using Cons.IH [of ?t "ss\<lparr>pendingMessages := pendingMessages ss @ [m]\<rparr>"] Cons.prems by simp
  ultimately show ?case by simp
qed

definition registered :: "conn \<Rightarrow> session \<Rightarrow> string list option \<Rightarrow> server \<Rightarrow> server" where
  "registered n ss ips s =
     upd n (\<lambda>x. x\<lparr>authorizedIPs := (case ips of Some xs \<Rightarrow> xs | None \<Rightarrow> []), authReady := True\<rparr>)
       ((drop_task (AwaitIPs n) s)\<lparr>userSessions := (userSessions s)(userId ss \<mapsto> n)\<rparr>)"

lemma settle_buffered:
  assumes "objs s n = Some ss" "AwaitIPs n \<in> set (tasks s)" "\<not> crashed s"
    and "\<not> crashed (deliver n ms (registered n ss ips s))"
  shows "server_step (buffer n ms s) (IpsSettled n (IpsReply 200 (Some ips)))
    = buffer n [] (deliver n ms (registered n ss ips s))"
proof -
  have "server_step (buffer n ms s) (IpsSettled n (IpsReply 200 (Some ips)))
      = drain n ms (buffer n ms (registered n ss ips s))"
    using assms(1-3)
    by (cases ss) (simp add: server_step_def ips_settled_def registered_def drop_task_def upd_def Let_def)
  with drain_deliver [OF assms(4)] show ?thesis by simp
qed

lemma deliver_append: "deliver n (xs @ ys) s = deliver n ys (deliver n xs s)"
  by (simp add: deliver_def)

lemma deliver_stuck: "crashed s \<Longrightarrow> deliver n ms s = s"
  unfolding deliver_def by (induction ms) auto

lemma deliver_objs: "objs (deliver n ms s) = objs s"
  unfolding deliver_def by (induction ms arbitrary: s) auto

lemma buffering_lemma:
  assumes "objs s n = Some ss" "\<not> authReady ss" "AwaitIPs n \<in> set (tasks s)" "\<not> crashed s"
    and nc: "\<not> crashed (deliver n (pendingMessages ss @ ms) (registered n ss ips s))"
  shows "run server_step s (map (Message n) ms @ [IpsSettled n (IpsReply 200 (Some ips))])
    = run server_step s (IpsSettled n (IpsReply 200 (Some ips)) # map (Message n) ms)"
proof -
  let ?e = "IpsSettled n (IpsReply 200 (Some ips))" and ?p = "pendingMessages ss"
  let ?R = "registered n ss ips s"
  have nc': "\<not> crashed (deliver n ?p ?R)"
    using nc deliver_stuck [of "deliver n ?p ?R" n ms] by (auto simp: deliver_append)
  have b: "buffer n ?p s = s"
    using run_messages_buffered [OF assms(1,2,4), of "[]"] by simp
  have e: "server_step s ?e = buffer n [] (deliver n ?p ?R)"
    using settle_buffered [OF assms(1,3,4) nc'] unfolding b .
  have "run server_step s (map (Message n) ms @ [?e]) = server_step (buffer n (?p @ ms) s) ?e"
    using run_messages_buffered [OF assms(1,2,4)] by simp
  also have "\<dots> = buffer n [] (deliver n (?p @ ms) ?R)"
    by (rule settle_buffered) (use assms in simp_all)
  also have "\<dots> = deliver n ms (buffer n [] (deliver n ?p ?R))"
    by (simp add: buffer_deliver deliver_append)
  also have "\<dots> = deliver n ms (server_step s ?e)" unfolding e ..
  also have "deliver n ms (server_step s ?e) = run server_step (server_step s ?e) (map (Message n) ms)"
  proof -
    from assms(1) obtain x where "objs (server_step s ?e) n = Some x" "authReady x"
      unfolding e by (simp add: deliver_objs registered_def drop_task_def)
    from run_messages_ready [OF this] show ?thesis by simp
  qed
  finally show ?thesis by simp
qed

text \<open>In every reachable state nothing delivered here can crash: the session is not active yet.\<close>

lemma crash_deliver:
  assumes "objs s n = Some ss" "\<not> isActive ss" "\<not> crashed s"
  shows "\<not> crashed (deliver n ms s)"
  using assms
proof (induction ms arbitrary: s)
  case (Cons m ms)
  then have "\<not> crashed (handleMessage n m s)" using crash_handleMessage by blast
  with Cons show ?case by (simp add: deliver_def)
qed (simp add: deliver_def)

lemma buffering_reachable:
  assumes inv: "server_inv s" and "AwaitIPs n \<in> set (tasks s)" "\<not> crashed s"
  shows "run server_step s (map (Message n) ms @ [IpsSettled n (IpsReply 200 (Some ips))])
    = run server_step s (IpsSettled n (IpsReply 200 (Some ips)) # map (Message n) ms)"
proof -
  from inv assms(2) obtain ss where ss: "objs s n = Some ss" "\<not> authReady ss"
    unfolding server_inv_def task_inv_def by fastforce
  obtain x where "objs (registered n ss ips s) n = Some x" "\<not> isActive x"
    using ss not_ready_not_active [OF inv ss] by (simp add: registered_def drop_task_def)
  moreover have "\<not> crashed (registered n ss ips s)" using assms(3) by (simp add: registered_def drop_task_def)
  ultimately show ?thesis using buffering_lemma [OF ss assms(2,3)] crash_deliver by blast
qed

section \<open>Closing ends the kill loop\<close>

lemma kill_tick_keeps_dropped:
  "userSessions s uid = None \<Longrightarrow> userSessions (server_step s (KillTimer n a (AfterClose uid))) uid = None"
  by (auto simp: server_step_def kill_check_def drop_task_def resume_kill_def attemptKill_def
      clear_session_timer_def split: option.splits)

lemma kill_ticks_keep_dropped:
  "userSessions s uid = None \<Longrightarrow>
   userSessions (run server_step s (map (\<lambda>i. KillTimer n i (AfterClose uid)) is)) uid = None"
  by (induction "is" arbitrary: s) (simp_all add: kill_tick_keeps_dropped)

lemma kill_tick:
  assumes "KillWait n a (AfterClose uid) \<in> set (tasks s)" "a \<le> max_kill_attempts" "\<not> crashed s"
    and "objs s n = Some ss"
  shows "userSessions (server_step s (KillTimer n a (AfterClose uid))) uid = None
    \<or> (a < max_kill_attempts
       \<and> KillWait n (Suc a) (AfterClose uid) \<in> set (tasks (server_step s (KillTimer n a (AfterClose uid))))
       \<and> \<not> crashed (server_step s (KillTimer n a (AfterClose uid)))
       \<and> objs (server_step s (KillTimer n a (AfterClose uid))) n = Some ss)"
  using assms
  by (auto simp: server_step_def kill_check_def drop_task_def resume_kill_def attemptKill_def)

lemma kill_loop_ends:
  assumes "KillWait n a (AfterClose uid) \<in> set (tasks s)" "a \<le> max_kill_attempts" "\<not> crashed s"
    and "objs s n = Some ss"
  shows "userSessions (run server_step s
      (map (\<lambda>i. KillTimer n i (AfterClose uid)) [a..<Suc max_kill_attempts])) uid = None"
  using assms
proof (induction "max_kill_attempts - a" arbitrary: a s)
  case 0
  then have a: "a = max_kill_attempts" by simp
  then show ?case using kill_tick [OF 0(2-5)] by simp
next
  case (Suc d)
  let ?t = "server_step s (KillTimer n a (AfterClose uid))"
  have up: "[a..<Suc max_kill_attempts] = a # [Suc a..<Suc max_kill_attempts]"
    using Suc.prems(2) by (simp add: upt_conv_Cons)
  from kill_tick [OF Suc.prems] show ?case
  proof
    assume "userSessions ?t uid = None"
    then show ?thesis unfolding up by (simp add: kill_ticks_keep_dropped del: upt_Suc)
  next
    assume "a < max_kill_attempts \<and> KillWait n (Suc a) (AfterClose uid) \<in> set (tasks ?t)
      \<and> \<not> crashed ?t \<and> objs ?t n = Some ss"
    moreover have "d = max_kill_attempts - Suc a" using Suc.hyps(2) by simp
    ultimately show ?thesis using Suc.hyps(1) [of "Suc a" ?t] unfolding up by (simp del: upt_Suc)
  qed
qed

section \<open>Requests to Coolify and rejections\<close>

text \<open>The rejections of the server: close code, reason, and the message sent before.\<close>

definition rejections :: "(nat \<times> string \<times> string option) list" where
  "rejections =
     [(AUTH_REJECTED, ''Unauthorized: Missing required tokens'', None),
      (TOKEN_REJECTED, ''Unauthorized: Invalid terminal token'', Some ''Unauthorized: Invalid terminal token''),
      (TOKEN_REJECTED, ''Unauthorized: Terminal token was rejected'',
        Some ''Unauthorized: Terminal token was rejected'')]"

definition rejection_effects :: "ws_effect list list" where
  "rejection_effects = map (\<lambda>(c, why, m). rejectTerminalSocket (Some c) (Some why) m
     TERMINAL_REJECTED_SOCKET_TERMINATE_MS) rejections"

definition effect_ok :: "effect \<Rightarrow> bool" where
  "effect_ok e = (case e of
     PostCoolify url h b \<Rightarrow>
       (url = ''/terminal/auth/ips'' \<and> b = None)
       \<or> (url = ''/terminal/session'' \<and> (\<exists>t. b = Some (JObj [(''token'', JStr t)])
            \<and> length t = 64 \<and> list_all is_alnum t))
   | RejectSocket n ws \<Rightarrow> ws \<in> set rejection_effects
   | CloseWs n c why \<Rightarrow> c = 1011
   | _ \<Rightarrow> True)"

lemma rejection_missing: "rejectTerminalSocket (Some AUTH_REJECTED) (Some ''Unauthorized: Missing required tokens'') None
    TERMINAL_REJECTED_SOCKET_TERMINATE_MS \<in> set rejection_effects"
  by (simp add: rejection_effects_def rejections_def)

lemma post_run_command: "emits effect_ok s (run_command ws n c s)"
proof -
  have cl: "out (clear_session_timer n s) = out s" for s
    by (simp add: clear_session_timer_def split: option.splits)
  have sp: "emits effect_ok s (spawn_terminal ws n a (clear_session_timer n s))" for a
    unfolding spawn_terminal_def Let_def
    by (simp add: emits_def cl effect_ok_def split: prod.splits)
  show ?thesis
    unfolding run_command_def Let_def using sp by (auto simp: emits_def cl effect_ok_def)
qed

lemma post_resume_kill: "emits effect_ok s (resume_kill k r s)"
  by (auto simp: resume_kill_def post_run_command emits_emit effect_ok_def split: cont.splits)

lemma post_attemptKill: "emits effect_ok s (attemptKill n a k s)"
  by (simp add: attemptKill_def emits_def effect_ok_def split: option.splits)

lemma post_killPty: "emits effect_ok s (killPtyProcess uid k s)"
  by (simp add: killPtyProcess_def post_attemptKill post_resume_kill split: option.splits)

lemma post_clear: "emits effect_ok s t \<Longrightarrow> emits effect_ok s (clear_session_timer n t)"
  by (simp add: clear_session_timer_def emits_def split: option.splits)

lemma post_kill_check: "emits effect_ok s (kill_check n a k s)"
proof -
  have "emits effect_ok s (resume_kill k True (clear_session_timer n s))"
    by (rule emits_trans [OF post_clear post_resume_kill]) simp
  then show ?thesis
    by (simp add: kill_check_def post_attemptKill post_resume_kill split: option.splits)
qed

lemma post_reject:
  "emits effect_ok s (rejectTerminalToken n ''Unauthorized: Invalid terminal token'' s)"
  "emits effect_ok s (rejectTerminalToken n ''Unauthorized: Terminal token was rejected'' s)"
  by (simp_all add: rejectTerminalToken_def emits_emit effect_ok_def rejection_effects_def rejections_def)

lemma post_token_settled: "emits effect_ok s (token_settled n r s)"
  by (simp add: token_settled_def handleCommand_def post_reject post_killPty post_run_command
      split: token_reply.splits option.splits)

lemma post_handleToken: "emits effect_ok s (handleTerminalToken n t s)"
proof (cases "is_token t")
  case True
  then obtain x where "t = JStr x" "length x = 64" "list_all is_alnum x"
    by (auto simp: is_token_def split: json.splits)
  with True show ?thesis by (simp add: handleTerminalToken_def emits_def effect_ok_def)
qed (simp add: handleTerminalToken_def post_reject)

lemma post_call_handler: "emits effect_ok s (call_handler n ss h v s)"
proof -
  have "(\<And>p. effect_ok (f p)) \<Longrightarrow> emits effect_ok s (with_pty ss f s)" for f
    by (simp add: with_pty_def emits_emit split: option.splits)
  then show ?thesis
    by (cases h) (simp_all add: call_handler_def Let_def post_handleToken post_killPty emits_emit effect_ok_def)
qed

lemma post_handle_entries: "emits effect_ok s (handle_entries n es s)"
proof (induction es arbitrary: s)
  case (Cons e es)
  have "emits effect_ok s (handle_entry n e s)"
    by (simp add: handle_entry_def post_call_handler split: option.splits)
  from emits_trans [OF this Cons.IH] show ?case by simp
qed simp

lemma post_handleMessage: "emits effect_ok s (handleMessage n m s)"
  by (simp add: handleMessage_def post_handle_entries split: option.splits)

lemma post_drain: "emits effect_ok s (drain n ms s)"
proof (induction n ms s rule: drain.induct)
  case (2 n m ms s)
  show ?case
  proof (cases "crashed s")
    case False
    have "emits effect_ok s (handleMessage n m (buffer n ms s))"
      by (rule emits_trans [OF _ post_handleMessage]) simp
    from emits_trans [OF this 2 [OF False]] False show ?thesis by simp
  qed simp
qed simp

lemma post_ips_settled: "emits effect_ok s (ips_settled n r s)"
proof -
  have "out t = out s \<Longrightarrow> emits effect_ok s (drain n ms t)" for t ms
    by (rule emits_trans [OF _ post_drain]) simp
  then show ?thesis
    by (simp add: ips_settled_def Let_def emits_emit effect_ok_def split: ips_reply.splits option.splits)
qed

lemma post_heartbeat: "emits effect_ok s (heartbeat cs s)"
proof -
  have one: "emits effect_ok s (heartbeat_one n s)" for n s
    by (simp add: heartbeat_one_def emits_def effect_ok_def split: option.splits)
  show ?thesis unfolding heartbeat_def
  proof (induction cs arbitrary: s)
    case (Cons c cs)
    from emits_trans [OF one Cons.IH] show ?case by simp
  qed simp
qed

lemma emits_from: "out t = out s \<Longrightarrow> emits P t u \<Longrightarrow> emits P s u"
  by (simp add: emits_def)

lemma post_step: "emits effect_ok s (server_step s e)"
proof -
  have "emits effect_ok s (server_event_step s e)"
  proof (cases e)
    case (SessionTimeout i)
    then show ?thesis
      by (auto simp: on_session_timeout_def intro: emits_from [OF _ post_killPty] split: option.splits)
  next
    case (PtyExit p)
    then show ?thesis
      by (auto simp: on_pty_exit_def emits_def effect_ok_def clear_session_timer_def split: option.splits)
  qed (auto simp: on_connection_def Let_def emits_def effect_ok_def rejection_missing on_message_def on_pty_data_def
      handleError_def handleClose_def drop_task_def split: option.splits
      intro!: emits_from [OF _ post_ips_settled, unfolded emits_def] emits_from [OF _ post_token_settled, unfolded emits_def]
        emits_from [OF _ post_kill_check, unfolded emits_def] post_handleMessage [unfolded emits_def]
        post_killPty [unfolded emits_def] post_heartbeat [unfolded emits_def])
  then show ?thesis by (simp add: server_step_def)
qed

interpretation srv_log: logging_machine "\<lambda>s. s = server_start" "\<lambda>_ _. True" server_step server_inv out effect_ok
  by unfold_locales (use post_step in \<open>auto simp: server_start_def emits_def\<close>)

lemma posts_of_run: "list_all effect_ok (out (run server_step server_start es))"
  by (rule srv_log.log_allowed) simp_all

section \<open>A closed session whose terminal survives\<close>

definition survivor_history :: "server_event list" where
  "survivor_history = sample_history @ WsClosed 0
     # map (\<lambda>i. KillTimer 0 i (AfterClose ''1'')) [1, 2, 3, 4, 5]"

lemma kill_tick_ptys: "ptys (server_step s (KillTimer n a (AfterClose uid))) = ptys s"
  by (simp add: server_step_def kill_check_def drop_task_def resume_kill_def attemptKill_def
      clear_session_timer_def split: option.splits)

lemma kill_ticks_ptys:
  "ptys (run server_step s (map (\<lambda>i. KillTimer n i (AfterClose uid)) is)) = ptys s"
  by (induction "is" arbitrary: s) (simp_all add: kill_tick_ptys)

lemma five_ticks: "[1..<Suc max_kill_attempts] = [1, 2, 3, 4, 5]"
  by (simp add: max_kill_attempts_def upt_rec)

lemma survivor_run:
  "\<exists>s y. run server_step server_start survivor_history = s \<and> ptys s 0 = Some y \<and> pty_alive y
     \<and> userSessions s ''1'' = None"
proof -
  obtain s x where s: "run server_step server_start sample_history = s" "objs s 0 = Some x" "userId x = ''1''"
    "userSessions s ''1'' = Some 0" "ptyProcess x = Some 0" "\<not> crashed s"
    "ptys s 0 = Some \<lparr>pty_owner = 0, pty_ws = 0, pty_args = sample_args_spawned, pty_alive = True\<rparr>"
    using sample_run by blast
  let ?t = "server_step s (WsClosed 0)"
  have t: "KillWait 0 1 (AfterClose ''1'') \<in> set (tasks ?t)" "\<not> crashed ?t" "objs ?t 0 = Some x" "ptys ?t = ptys s"
    using s by (simp_all add: server_step_def handleClose_def killPtyProcess_def attemptKill_def)
  have "userSessions (run server_step ?t (map (\<lambda>i. KillTimer 0 i (AfterClose ''1'')) [1..<Suc max_kill_attempts])) ''1'' = None"
    by (rule kill_loop_ends [OF t(1) _ t(2,3)]) (simp add: max_kill_attempts_def)
  with s t(4) show ?thesis
    unfolding survivor_history_def five_ticks
    using kill_ticks_ptys [of ?t 0 "''1''" "[1, 2, 3, 4, 5]"] by simp
qed

section \<open>The generated command, from token to terminal\<close>

lemma js_indexOf_fresh:
  assumes "hd p \<notin> set pre" "p \<noteq> []"
  shows "js_indexOf (pre @ p) p = Some (length pre)"
  using assms(1)
proof (induction pre)
  case Nil
  have "js_startsWith p p" by (simp add: js_startsWith_def)
  with assms(2) show ?case by (cases p) simp_all
next
  case (Cons c pre)
  then have "\<not> js_startsWith ((c # pre) @ p) p"
    using assms(2) by (cases p) (auto simp: js_startsWith_def)
  with Cons show ?case by simp
qed

lemma heredoc_command_for:
  assumes "plain_args args" "d \<noteq> []" "list_all (\<lambda>c. \<not> is_ws c) d"
    and "js_indexOf (CHR '' '' # (flatten_lines script @ '' '') @ d) d = Some (Suc (length script + 1))"
  shows "extractHereDocContent (newline_to_space (command_for args d script)) = CHR '' '' # flatten_lines script @ '' ''"
proof -
  let ?w = "js_join '' '' (map word_src (map (\<lambda>a. [Quoted sq a]) args))"
  let ?pre = "''timeout 3600 '' @ ''ssh '' @ ?w @ CHR '' '' # sq # ''bash -se'' @ sq # '' ''"
  have lf: "lf \<notin> set d" using assms(3) not_ws_consts by (auto simp: list_all_iff)
  have "CHR ''<'' \<notin> set ?w" by (rule words_chars [OF assms(1)]) simp
  then have "js_indexOf (?pre @ ''<< '') ''<< '' = Some (length ?pre)"
    by (intro js_indexOf_fresh) simp_all
  moreover have "is_ws (CHR '' '')" using not_ws_consts by simp
  ultimately have "extractHereDocContent (?pre @ ''<< '' @ bsl # d @ CHR '' '' # (flatten_lines script @ '' '') @ d)
      = CHR '' '' # (flatten_lines script @ '' '')"
    using assms(2-) by (intro heredoc_content) (simp_all add: flatten_lines_def)
  then show ?thesis unfolding newline_to_space_map flatten_command_for [OF assms(1) lf] by simp
qed

lemma generated_args:
  assumes "validateSshArgs args ips" "''RequestTTY=no'' \<notin> set args" "plain_args args" "lf \<notin> set d"
  shows "extractSshArgs (newline_to_space (command_for args d script)) = args"
proof -
  obtain its where i: "args = concat (map render its)" "valid_items its ips"
    using assms(1) validate_iff_items by blast
  have "''RequestTTY'' \<in> set (opt_names its)"
    using i(2) by (auto simp: valid_items_def REQUIRED_SSH_OPTIONS_def list_all_iff)
  then have "\<exists>v. ''RequestTTY='' @ v \<in> set args" unfolding i(1)
  proof (induction its rule: opt_names.induct)
    case (2 n v its)
    then show ?case by auto
  qed auto
  then obtain v where v: "''RequestTTY='' @ v \<in> set args" by blast
  have "js_includes (''RequestTTY='' @ v) ''RequestTTY=''"
    unfolding js_includes_iff by (metis append_Nil)
  with v have "tty_default args = args" unfolding tty_default_def list_ex_iff by auto
  moreover have "map force_tty args = args"
    using assms(2) by (intro map_idI) (auto simp: force_tty_def)
  moreover have "args \<noteq> []" using v by auto
  ultimately show ?thesis using extractSshArgs_command_for [OF assms(3) _ assms(4)] by simp
qed

section \<open>Claims\<close>

text \<open>C16: A client types only into its own terminal. In every history, whatever frame a connection
  sends, the input, resize, pause and resume calls it causes all go to a live terminal owned by that
  connection's session.\<close>

theorem frame_input_own_terminal:
  assumes "objs (run server_step server_start es) n = Some ss"
  shows "\<exists>fx. out (server_step (run server_step server_start es) (Message n m))
        = out (run server_step server_start es) @ fx
    \<and> (\<forall>e p. e \<in> set fx \<and> input_of e = Some p \<longrightarrow>
         (\<exists>y. ptys (run server_step server_start es) p = Some y \<and> pty_alive y \<and> pty_owner y = n))"
proof (cases "authReady ss")
  case True
  from emits_message_step [OF assms True, of m] obtain fx where
    fx: "out (server_step (run server_step server_start es) (Message n m)) = out (run server_step server_start es) @ fx"
      "list_all (own_input ss) fx" by (auto simp: emits_def)
  have "\<exists>y. ptys (run server_step server_start es) p = Some y \<and> pty_alive y \<and> pty_owner y = n"
    if "e \<in> set fx" "input_of e = Some p" for e p
    using fx(2) that run_active_iff [OF assms] by (fastforce simp: list_all_iff own_input_def)
  with fx(1) show ?thesis by blast
next
  case False
  with assms show ?thesis by (simp add: server_step_def on_message_def)
qed

theorem frame_input_own_terminal_witness:
  "\<exists>fx. out (server_step (run server_step server_start sample_history) (Message 0 (JsonText (JObj [(''message'', JStr ''ls'')]))))
        = out (run server_step server_start sample_history) @ fx"
proof -
  obtain x where "objs (run server_step server_start sample_history) 0 = Some x" using sample_run by blast
  from frame_input_own_terminal [OF this] show ?thesis by blast
qed

text \<open>C17: Buffering is transparent. In every reachable state where a connection still waits for its
  authorisation data, frames that arrive before the data have exactly the effect they would have had
  arriving after it, in the same order.\<close>

theorem buffering_transparent:
  assumes "AwaitIPs n \<in> set (tasks (run server_step server_start es))"
    and "\<not> crashed (run server_step server_start es)"
  shows "run server_step server_start (es @ map (Message n) ms @ [IpsSettled n (IpsReply 200 (Some ips))])
    = run server_step server_start (es @ IpsSettled n (IpsReply 200 (Some ips)) # map (Message n) ms)"
  using buffering_reachable [OF server_run_inv assms] by simp

theorem buffering_transparent_witness:
  "run server_step server_start ([Connection ''1'' sample_cookie] @
      map (Message 0) [JsonText (JObj [(''terminalToken'', sample_token)])] @ [IpsSettled 0 (IpsReply 200 (Some (Some [''H1''])))])
   = run server_step server_start (take 3 sample_history)"
proof -
  have "AwaitIPs 0 \<in> set (tasks (run server_step server_start [Connection ''1'' sample_cookie]))"
    "\<not> crashed (run server_step server_start [Connection ''1'' sample_cookie])"
    by (simp_all add: server_step_def on_connection_def server_start_def sample_cookie_def truthy_def Let_def)
  from buffering_transparent [OF this, of "[JsonText (JObj [(''terminalToken'', sample_token)])]" "Some [''H1'']"]
  show ?thesis by (simp add: sample_history_def)
qed

text \<open>C22: Closing a connection ends its session. In every reachable state in which the kill loop of
  a closing connection is pending, the remaining ticks of its timer, five in all, drop the session
  from the table, whether or not the terminal exits.\<close>

theorem close_drops_session:
  assumes "KillWait n a (AfterClose uid) \<in> set (tasks (run server_step server_start es))"
    and "\<not> crashed (run server_step server_start es)"
  shows "userSessions (run server_step server_start (es @
      map (\<lambda>i. KillTimer n i (AfterClose uid)) [a..<Suc max_kill_attempts])) uid = None"
proof -
  have t: "task_ok (run server_step server_start es) (KillWait n a (AfterClose uid))"
    using assms(1) server_run_inv [of es] unfolding server_inv_def task_inv_def by blast
  then obtain ss where "objs (run server_step server_start es) n = Some ss" by (auto simp: ready_def)
  with kill_loop_ends [OF assms(1) _ assms(2) this] t show ?thesis by simp
qed

theorem close_drops_session_witness:
  "userSessions (run server_step server_start ((sample_history @ [WsClosed 0]) @
      map (\<lambda>i. KillTimer 0 i (AfterClose ''1'')) [1..<Suc max_kill_attempts])) ''1'' = None"
proof -
  have "\<not> crashed (run server_step server_start (sample_history @ [WsClosed 0]))"
    using sample_run by (auto simp: server_step_def handleClose_def crashed_killPty split: option.splits)
  from close_drops_session [OF sample_closing this] show ?thesis .
qed


text \<open>Only well-formed tokens are redeemed. In every history, each request to Coolify is either
  the fetch of the authorised hosts, without a body, or the redemption of a token of exactly 64
  letters and digits; every socket the server rejects is rejected with one of its three code and
  message pairs, and every other close has code 1011.\<close>

theorem coolify_requests_well_formed:
  "list_all effect_ok (out (run server_step server_start es))"
  by (rule posts_of_run)



lemma safe_run_alive: "list_all safe_event es \<Longrightarrow> \<not> crashed (run server_step server_start es)"
proof (induction es rule: rev_induct)
  case (snoc e es)
  then show ?case using crash_step [OF server_run_inv] by simp
qed (simp add: server_start_def)

text \<open>Nothing else ends the process. A server whose clients never send such a frame runs
  forever: no reply of Coolify, no order of closes, kills, timeouts and terminal exits makes it
  throw outside a handler.\<close>

theorem server_never_crashes:
  "list_all safe_event es \<Longrightarrow> \<not> crashed (run server_step server_start es)"
  by (rule safe_run_alive)

theorem server_never_crashes_witness:
  "\<not> crashed (run server_step server_start sample_history)"
  by (rule server_never_crashes)
    (simp add: sample_history_def safe_event_def safe_frame_def parseMessage_def safe_entry_def messageHandlers_def)

text \<open>Redeeming a token for a generated command line.\<close>

lemma generated_spawn:
  assumes "objs s n = Some ss" "\<not> isActive ss" "userSessions s (userId ss) = Some n"
    and "AwaitToken n \<in> set (tasks s)" "\<not> crashed s"
    and "validateSshArgs args (authorizedIPs ss)" "''RequestTTY=no'' \<notin> set args" "plain_args args"
    and "d \<noteq> []" "list_all (\<lambda>c. \<not> is_ws c) d"
    and "js_indexOf (CHR '' '' # (flatten_lines script @ '' '') @ d) d = Some (Suc (length script + 1))"
  shows "server_step s (TokenSettled n (TokenReply 200 (Some (command_for args d script)))) =
    spawn_terminal n n (sanitizeSshArgs args @ [CHR '' '' # flatten_lines script @ '' ''])
      (clear_session_timer n (drop_task (AwaitToken n) s))"
proof -
  let ?c = "command_for args d script" and ?d = "drop_task (AwaitToken n) s"
  have lf: "lf \<notin> set d" using assms(10) not_ws_consts by (auto simp: list_all_iff)
  have d: "objs ?d = objs s" "userSessions ?d = userSessions s" "nextPty ?d = nextPty s"
    by (simp_all add: drop_task_def)
  have "server_step s (TokenSettled n (TokenReply 200 (Some ?c))) = run_command n n ?c ?d"
    using assms(1-5) d by (simp add: server_step_def token_settled_def handleCommand_def)
  also have "\<dots> = spawn_terminal n n (sanitizeSshArgs args @ [CHR '' '' # flatten_lines script @ '' ''])
      (clear_session_timer n ?d)"
    using run_command_spawns [of ?d n ss ?c args n] assms(1,6) d generated_args [OF assms(6-8) lf, of script]
      heredoc_command_for [OF assms(8-11)] by simp
  finally show ?thesis .
qed

text \<open>A generated command runs. Whenever a connection with no running terminal redeems a token
  for the command line of valid arguments (each single-quoted, a script in a here-document), the
  server starts a terminal for it whose arguments are the sanitised arguments followed by the script
  with its newlines replaced by spaces.\<close>

theorem generated_command_runs:
  assumes "objs s n = Some ss" "\<not> isActive ss" "userSessions s (userId ss) = Some n"
    and "AwaitToken n \<in> set (tasks s)" "\<not> crashed s"
    and "validateSshArgs args (authorizedIPs ss)" "''RequestTTY=no'' \<notin> set args" "plain_args args"
    and "d \<noteq> []" "list_all (\<lambda>c. \<not> is_ws c) d"
    and "js_indexOf (CHR '' '' # (flatten_lines script @ '' '') @ d) d = Some (Suc (length script + 1))"
  shows "ptys (server_step s (TokenSettled n (TokenReply 200 (Some (command_for args d script))))) (nextPty s) =
    Some \<lparr>pty_owner = n, pty_ws = n,
      pty_args = sanitizeSshArgs args @ [CHR '' '' # flatten_lines script @ '' ''], pty_alive = True\<rparr>"
proof -
  have "objs (drop_task (AwaitToken n) s) = objs s" "nextPty (drop_task (AwaitToken n) s) = nextPty s"
    by (simp_all add: drop_task_def)
  then show ?thesis
    using generated_spawn [OF assms] spawn_terminal_sel [of "clear_session_timer n (drop_task (AwaitToken n) s)" n] assms(1)
    by (auto simp: clear_session_timer_def upd_def split: option.splits)
qed

theorem generated_command_runs_witness:
  "\<exists>s. ptys (server_step s (TokenSettled 0 (TokenReply 200 (Some sample_command)))) 0 =
    Some \<lparr>pty_owner = 0, pty_ws = 0, pty_args = sanitizeSshArgs sample_args @ ['' exec sh ''], pty_alive = True\<rparr>"
proof -
  obtain s :: server where s: "objs s 0 = Some sample_ready" "userSessions s ''1'' = Some 0" "\<not> crashed s"
    "AwaitToken 0 \<in> set (tasks s)" "nextPty s = 0" using sample_prefix by auto
  have r: "\<not> isActive sample_ready" "userId sample_ready = ''1''" "authorizedIPs sample_ready = [''H1'']"
    by (simp_all add: sample_ready_def new_session_def sample_cookie_def)
  have "''RequestTTY=no'' \<notin> set sample_args" by (simp add: sample_args_def sample_items_def)
  moreover have "list_all (\<lambda>c. \<not> is_ws c) ''EOF-HERE''" by (simp add: is_ws_def code_def)
  moreover have "js_indexOf (CHR '' '' # (flatten_lines ''exec sh'' @ '' '') @ ''EOF-HERE'') ''EOF-HERE''
      = Some (Suc (length ''exec sh'' + 1))"
    by (simp add: flatten_lines_def js_startsWith_def)
  ultimately show ?thesis
    using generated_command_runs [OF s(1) r(1) _ s(4,3) _ _ sample_chars, of "''EOF-HERE''" "''exec sh''"]
      s(2,5) r(2,3) sample_valid
    by (intro exI [of _ s]) (simp add: sample_command_def flatten_lines_def)
qed

section \<open>A close that comes too early\<close>

lemma sessions_drain: "userSessions (drain n ms s) = userSessions s"
  by (induction n ms s rule: drain.induct) simp_all

lemma close_unregistered:
  "objs s n = Some ss \<Longrightarrow> userSessions s (userId ss) = None \<Longrightarrow> server_step s (WsClosed n) = s"
  by (simp add: server_step_def handleClose_def killPtyProcess_def resume_kill_def fun_upd_idem)

text \<open>C25: A close during the authorisation request is forgotten. While the hosts of a connection
  are being fetched its session is not registered, so the close handler finds nothing to end: from then
  on everything happens as if the connection were still open, and the answer registers the session
  of the closed connection, whose frames and terminals no later close will end.\<close>

theorem early_close_forgotten:
  assumes "objs (run server_step server_start es) n = Some ss" "userSessions (run server_step server_start es) (userId ss) = None"
    and "AwaitIPs n \<in> set (tasks (run server_step server_start es))" "\<not> crashed (run server_step server_start es)"
  shows "run server_step server_start (es @ WsClosed n # fs) = run server_step server_start (es @ fs)
    \<and> userSessions (run server_step server_start (es @ [WsClosed n, IpsSettled n (IpsReply 200 (Some ips))])) (userId ss) = Some n"
proof -
  let ?s = "run server_step server_start es"
  note same = close_unregistered [OF assms(1,2)]
  have "userSessions (server_step ?s (IpsSettled n (IpsReply 200 (Some ips)))) (userId ss) = Some n"
    using assms by (simp add: server_step_def ips_settled_def drop_task_def Let_def sessions_drain)
  with same show ?thesis by simp
qed

theorem early_close_forgotten_witness:
  "\<exists>y. ptys (run server_step server_start [Connection ''1'' sample_cookie,
        Message 0 (JsonText (JObj [(''terminalToken'', sample_token)])), WsClosed 0,
        IpsSettled 0 (IpsReply 200 (Some (Some [''H1'']))), TokenSettled 0 (TokenReply 200 (Some sample_command))]) 0 = Some y
     \<and> pty_alive y"
proof -
  let ?c = "[Connection ''1'' sample_cookie, Message 0 (JsonText (JObj [(''terminalToken'', sample_token)]))]"
  let ?f = "[IpsSettled 0 (IpsReply 200 (Some (Some [''H1'']))), TokenSettled 0 (TokenReply 200 (Some sample_command))]"
  let ?o = "run server_step server_start [Connection ''1'' sample_cookie]"
  have "\<exists>ss. objs (run server_step server_start ?c) 0 = Some ss \<and> userSessions (run server_step server_start ?c) (userId ss) = None
      \<and> AwaitIPs 0 \<in> set (tasks (run server_step server_start ?c)) \<and> \<not> crashed (run server_step server_start ?c)"
    by (simp add: server_step_def server_start_def on_connection_def new_session_def sample_cookie_def truthy_def Let_def
        on_message_def)
  then have "run server_step server_start (?c @ WsClosed 0 # ?f) = run server_step server_start (?c @ ?f)"
    using early_close_forgotten by blast
  also have "\<dots> = run server_step server_start sample_history"
  proof -
    have "AwaitIPs 0 \<in> set (tasks ?o)" "\<not> crashed ?o"
      by (simp_all add: server_step_def on_connection_def server_start_def sample_cookie_def truthy_def Let_def)
    from buffering_reachable [OF server_run_inv this, of "[JsonText (JObj [(''terminalToken'', sample_token)])]" "Some [''H1'']"]
    show ?thesis by (simp add: sample_history_def)
  qed
  finally show ?thesis using sample_run by auto
qed

end
