(* ===== verification/ServerTraffic.thy ===== *)
theory ServerTraffic
  imports ServerBehaviour "HOL-Library.Multiset"
begin

text \<open>
  What becomes of the frames a terminal server receives, over all histories: the tokens it redeems
  are, with multiplicity, tokens of received frames, and what a connection types into its terminals is
  a subsequence of the input of its frames. Frames that wait for the authorisation data count as
  held.
\<close>

section \<open>Frames and effects\<close>

definition values_of :: "string \<Rightarrow> (string \<times> json) list \<Rightarrow> json list" where
  "values_of k es = map snd (filter (\<lambda>e. fst e = k) es)"

definition frame_entries :: "wire \<Rightarrow> (string \<times> json) list" where
  "frame_entries m = (case parseMessage m of None \<Rightarrow> [] | Some j \<Rightarrow> if json_truthy j then entries j else [])"

definition frame_tokens :: "wire \<Rightarrow> json list" where
  "frame_tokens m = values_of ''terminalToken'' (frame_entries m)"

definition frame_inputs :: "wire \<Rightarrow> json list" where
  "frame_inputs m = values_of ''message'' (frame_entries m)"

fun frames_to :: "conn \<Rightarrow> server_event list \<Rightarrow> wire list" where
  "frames_to n [] = []"
| "frames_to n (Message k m # es) = (if k = n then m # frames_to n es else frames_to n es)"
| "frames_to n (_ # es) = frames_to n es"

text \<open>Tokens redeemed with Coolify, and input for terminals.\<close>

fun token_posted :: "effect \<Rightarrow> json option" where
  "token_posted (PostCoolify url h (Some (JObj [(k, t)]))) =
     (if url = ''/terminal/session'' \<and> k = ''token'' then Some t else None)"
| "token_posted _ = None"

fun input_written :: "effect \<Rightarrow> (nat \<times> json) option" where
  "input_written (PtyWrite p v) = Some (p, v)"
| "input_written _ = None"

definition redeemed :: "effect list \<Rightarrow> json list" where
  "redeemed es = List.map_filter token_posted es"

definition written :: "effect list \<Rightarrow> (nat \<times> json) list" where
  "written es = List.map_filter input_written es"

text \<open>What has been typed into the terminals of a connection.\<close>

definition owner_of :: "server \<Rightarrow> nat \<Rightarrow> conn option" where
  "owner_of s p = map_option pty_owner (ptys s p)"

definition typed :: "server \<Rightarrow> conn \<Rightarrow> json list" where
  "typed s n = map snd (filter (\<lambda>(p, v). owner_of s p = Some n) (written (out s)))"

definition held :: "server \<Rightarrow> conn \<Rightarrow> wire list" where
  "held s n = (case objs s n of None \<Rightarrow> [] | Some ss \<Rightarrow> if authReady ss then [] else pendingMessages ss)"

lemma logs_append [simp]:
  "redeemed (es @ fs) = redeemed es @ redeemed fs" "written (es @ fs) = written es @ written fs"
  "redeemed [] = []" "written [] = []"
  by (simp_all add: redeemed_def written_def List.map_filter_def)

lemma values_of_Cons: "values_of k (e # es) = (if fst e = k then snd e # values_of k es else values_of k es)"
  by (simp add: values_of_def)

lemma values_of_Nil [simp]: "values_of k [] = []"
  by (simp add: values_of_def)

section \<open>Operations that neither redeem nor type\<close>

definition calm_effect :: "effect \<Rightarrow> bool" where
  "calm_effect e \<longleftrightarrow> token_posted e = None \<and> input_written e = None"

definition pty_bound :: "server \<Rightarrow> bool" where
  "pty_bound s \<longleftrightarrow> (\<forall>p y. ptys s p = Some y \<longrightarrow> p < nextPty s)"

definition calm :: "server \<Rightarrow> server \<Rightarrow> bool" where
  "calm s t \<longleftrightarrow> nextConn t = nextConn s \<and> held t = held s
     \<and> (\<exists>es. out t = out s @ es \<and> list_all calm_effect es)
     \<and> (\<forall>p. ptys s p \<noteq> None \<longrightarrow> owner_of t p = owner_of s p \<and> ptys t p \<noteq> None)"

lemma held_cong: "objs t = objs s \<Longrightarrow> held t = held s"
  by (simp add: held_def fun_eq_iff)

lemma calm_refl [simp]:
  "nextConn t = nextConn s \<Longrightarrow> held t = held s \<Longrightarrow> out t = out s \<Longrightarrow> ptys t = ptys s \<Longrightarrow> calm s t"
  by (simp add: calm_def owner_of_def)

lemma calm_trans: "calm s t \<Longrightarrow> calm t u \<Longrightarrow> calm s u"
  unfolding calm_def by (elim conjE exE) (auto simp: list_all_append)

lemma held_upd [simp]:
  "(\<And>x. authReady (f x) = authReady x \<and> pendingMessages (f x) = pendingMessages x) \<Longrightarrow> held (upd n f s) = held s"
  by (auto simp: held_def fun_eq_iff split: option.splits)

lemma held_sel [simp]:
  "held (emit es s) = held s" "held (add_task k s) = held s" "held (uncaught s) = held s"
  "held (drop_task k s) = held s" "held (clear_session_timer n s) = held s"
  "held (s\<lparr>userSessions := u\<rparr>) = held s" "held (s\<lparr>session_timers := ts\<rparr>) = held s"
  by (auto simp: held_def fun_eq_iff drop_task_def clear_session_timer_def split: option.splits)

lemma calm_emit: "list_all calm_effect es \<Longrightarrow> calm s (emit es s)"
  by (simp add: calm_def owner_of_def)

lemma effects_calm [simp]:
  "calm_effect (SendStr n x)" "calm_effect (SendBool n b)" "calm_effect (CloseWs n c x)" "calm_effect (RejectSocket n w)"
  "calm_effect (TerminateConn n)" "calm_effect (PingConn n)" "calm_effect (PostCoolify u h None)" "calm_effect (SpawnPty p x a)"
  "calm_effect (PtyWriteText p x)" "calm_effect (PtyResize p j k)" "calm_effect (PtyPause p)" "calm_effect (PtyResume p)"
  by (simp_all add: calm_effect_def)

lemma clear_sel [simp]:
  "nextConn (clear_session_timer n s) = nextConn s" "out (clear_session_timer n s) = out s"
  "ptys (clear_session_timer n s) = ptys s" "nextPty (clear_session_timer n s) = nextPty s"
  "pty_bound (clear_session_timer n s) = pty_bound s"
  by (simp_all add: clear_session_timer_def pty_bound_def split: option.splits)

lemma calm_from: "calm t u \<Longrightarrow> nextConn t = nextConn s \<Longrightarrow> held t = held s \<Longrightarrow> out t = out s \<Longrightarrow> ptys t = ptys s \<Longrightarrow> calm s u"
  by (rule calm_trans [OF calm_refl])

lemma calm_spawn: "pty_bound s \<Longrightarrow> calm s (spawn_terminal ws n args s)"
  by (auto simp: spawn_terminal_def Let_def calm_def owner_of_def pty_bound_def held_def fun_eq_iff
      split: prod.splits option.splits)

lemma calm_run_command: "pty_bound s \<Longrightarrow> calm s (run_command ws n c s)"
proof -
  assume b: "pty_bound s"
  have "calm s (spawn_terminal ws n args (clear_session_timer n s))" for args
    by (rule calm_from [OF calm_spawn]) (use b in simp_all)
  moreover have "calm s (emit [SendStr ws x] (clear_session_timer n s))" for x
    by (rule calm_from [OF calm_emit]) simp_all
  ultimately show ?thesis by (simp add: run_command_def Let_def)
qed

lemma calm_resume_kill: "pty_bound s \<Longrightarrow> calm s (resume_kill k r s)"
  by (simp add: resume_kill_def calm_run_command calm_emit split: cont.splits)

lemma calm_attemptKill: "calm s (attemptKill n a k s)"
proof -
  have "calm s (add_task t (emit [PtyWriteText p x] s))" for t p x
    by (rule calm_trans [OF calm_emit calm_refl]) simp_all
  then show ?thesis by (simp add: attemptKill_def split: option.splits)
qed

lemma calm_killPty: "pty_bound s \<Longrightarrow> calm s (killPtyProcess uid k s)"
  by (simp add: killPtyProcess_def calm_attemptKill calm_resume_kill split: option.splits)

lemma calm_kill_check: "pty_bound s \<Longrightarrow> calm s (kill_check n a k s)"
proof -
  assume b: "pty_bound s"
  have "calm s (resume_kill k True (clear_session_timer n s))"
    by (rule calm_from [OF calm_resume_kill]) (use b in simp_all)
  with b show ?thesis by (simp add: kill_check_def calm_attemptKill calm_resume_kill split: option.splits)
qed

lemma calm_reject: "calm s (rejectTerminalToken n m s)"
  by (simp add: rejectTerminalToken_def calm_emit)

lemma calm_token_settled: "pty_bound s \<Longrightarrow> calm s (token_settled n r s)"
  by (simp add: token_settled_def handleCommand_def calm_reject calm_killPty calm_run_command
      split: token_reply.splits option.splits)

lemma calm_pty_exit: "calm s (on_pty_exit p s)"
  by (auto simp: on_pty_exit_def calm_def owner_of_def held_def fun_eq_iff clear_session_timer_def split: option.splits)

lemma calm_heartbeat: "calm s (heartbeat cs s)"
proof -
  have one: "calm s (heartbeat_one n s)" for n s
    by (auto simp: heartbeat_one_def calm_def owner_of_def held_def fun_eq_iff split: option.splits)
  show ?thesis unfolding heartbeat_def
  proof (induction cs arbitrary: s)
    case (Cons c cs)
    from calm_trans [OF one Cons.IH] show ?case by simp
  qed simp
qed

section \<open>What one frame does\<close>

definition answers :: "session \<Rightarrow> (string \<times> json) list \<Rightarrow> server \<Rightarrow> server \<Rightarrow> bool" where
  "answers ss es s t \<longleftrightarrow>
     (\<exists>fx. out t = out s @ fx \<and> subseq (redeemed fx) (values_of ''terminalToken'' es)
        \<and> subseq (map snd (written fx)) (values_of ''message'' es)
        \<and> list_all (\<lambda>(p, v). isActive ss \<and> ptyProcess ss = Some p) (written fx))"

lemma handler_keys:
  "map_of messageHandlers k = Some HMessage \<longleftrightarrow> k = ''message''"
  "map_of messageHandlers k = Some HTerminalToken \<longleftrightarrow> k = ''terminalToken''"
  by (auto simp: messageHandlers_def)

lemma answers_calm: "calm s t \<Longrightarrow> answers ss es s t"
proof -
  assume "calm s t"
  then obtain fx where fx: "out t = out s @ fx" "list_all calm_effect fx" unfolding calm_def by blast
  have "redeemed fx = [] \<and> written fx = []"
    using fx(2) by (induction fx) (simp_all add: redeemed_def written_def List.map_filter_def calm_effect_def)
  with fx(1) show ?thesis by (auto simp: answers_def)
qed

lemma answers_trans:
  "answers ss es s t \<Longrightarrow> answers ss es' t u \<Longrightarrow> answers ss (es @ es') s u"
  unfolding answers_def values_of_def
  by (elim exE conjE) (auto simp: list_all_append intro: list_emb_append_mono exI)

lemma nextConn_frame [simp]:
  "nextConn (attemptKill n a k s) = nextConn s" "nextConn (killPtyProcess uid NoCont s) = nextConn s"
  "nextConn (handleTerminalToken n v s) = nextConn s" "nextConn (with_pty ss f s) = nextConn s"
  "nextConn (call_handler n ss h v s) = nextConn s" "nextConn (handle_entry n e s) = nextConn s"
proof -
  show a: "nextConn (attemptKill n a k s) = nextConn s" for n a k s
    by (simp add: attemptKill_def split: option.splits)
  show b: "nextConn (killPtyProcess uid NoCont s) = nextConn s" for uid s
    by (simp add: killPtyProcess_def resume_kill_def a split: option.splits)
  show c: "nextConn (handleTerminalToken n v s) = nextConn s" for v s
    by (simp add: handleTerminalToken_def rejectTerminalToken_def)
  show d: "nextConn (with_pty ss f s) = nextConn s" for ss f s
    by (simp add: with_pty_def split: option.splits)
  show e: "nextConn (call_handler n ss h v s) = nextConn s" for ss h v s
    by (simp add: call_handler_def Let_def b c d split: handler.splits)
  show "nextConn (handle_entry n e s) = nextConn s"
    by (simp add: handle_entry_def e split: option.splits)
qed

lemma nextConn_entries [simp]: "nextConn (handle_entries n es s) = nextConn s"
  by (induction n es s rule: handle_entries.induct) simp_all

lemma nextConn_message [simp]: "nextConn (handleMessage n m s) = nextConn s"
  by (simp add: handleMessage_def split: option.splits)

lemma calm_with_pty: "(\<And>p. calm_effect (f p)) \<Longrightarrow> calm s (with_pty ss f s)"
  by (simp add: with_pty_def calm_emit split: option.splits)

lemma calm_killPty_frame: "calm s (killPtyProcess uid NoCont s)"
  by (simp add: killPtyProcess_def resume_kill_def calm_attemptKill split: option.splits)

lemma answers_entry:
  assumes "objs s n = Some ss" "ptyProcess ss \<noteq> None \<or> \<not> isActive ss"
  shows "answers ss [e] s (handle_entry n e s)"
proof (cases "map_of messageHandlers (fst e)")
  case (Some h)
  show ?thesis
  proof (cases "isActive ss \<or> fst e \<in> set open_keys")
    case True
    then have step: "handle_entry n e s = call_handler n ss h (snd e) s" using assms(1) Some by (simp add: handle_entry_def)
    show ?thesis
    proof (cases h)
      case HMessage
      then have k: "fst e = ''message''" using Some handler_keys(1) by simp
      then have "isActive ss" using True by (simp add: open_keys_def)
      with assms(2) obtain p where "ptyProcess ss = Some p" by blast
      with step HMessage k \<open>isActive ss\<close> show ?thesis
        by (auto simp: call_handler_def with_pty_def answers_def values_of_def written_def redeemed_def List.map_filter_def)
    next
      case HTerminalToken
      then have k: "fst e = ''terminalToken''" using Some handler_keys(2) by simp
      have "answers ss [e] s (handleTerminalToken n (snd e) s)"
      proof (cases "is_token (snd e)")
        case True
        with k show ?thesis
          by (auto simp: handleTerminalToken_def answers_def values_of_def written_def redeemed_def List.map_filter_def)
      next
        case False
        then show ?thesis by (simp add: handleTerminalToken_def answers_calm calm_reject)
      qed
      with step HTerminalToken show ?thesis by (simp add: call_handler_def)
    qed (use step in \<open>auto simp: call_handler_def Let_def intro!: answers_calm calm_with_pty calm_killPty_frame calm_emit\<close>)
  next
    case False
    with Some assms(1) show ?thesis by (simp add: handle_entry_def answers_calm)
  qed
qed (use assms(1) in \<open>simp add: handle_entry_def answers_calm\<close>)

lemma answers_entries:
  assumes "ptyProcess ss \<noteq> None \<or> \<not> isActive ss"
  shows "objs s n = Some ss \<Longrightarrow> answers ss es s (handle_entries n es s)"
proof (induction n es s rule: handle_entries.induct)
  case (2 n e es s)
  show ?case
  proof (cases "crashed s")
    case False
    have "answers ss es (handle_entry n e s) (handle_entries n es (handle_entry n e s))"
      by (rule "2.IH" [OF False]) (use "2.prems" in simp)
    from answers_trans [OF answers_entry [OF "2.prems" assms, of e] this] False show ?thesis by simp
  qed (simp add: answers_calm)
qed (simp add: answers_calm)

lemma answers_message:
  assumes "objs s n = Some ss" "ptyProcess ss \<noteq> None \<or> \<not> isActive ss"
  shows "answers ss (frame_entries m) s (handleMessage n m s)"
  using answers_entries [OF assms(2,1)]
  by (simp add: handleMessage_def frame_entries_def answers_calm split: option.splits)

section \<open>Histories\<close>

definition count_tokens :: "json \<Rightarrow> wire list \<Rightarrow> nat" where
  "count_tokens t ms = count_list (concat (map frame_tokens ms)) t"

definition account_ok :: "server_event list \<Rightarrow> server \<Rightarrow> bool" where
  "account_ok es s \<longleftrightarrow>
     (\<forall>t. count_list (redeemed (out s)) t + (\<Sum>n<nextConn s. count_tokens t (held s n))
        \<le> (\<Sum>n<nextConn s. count_tokens t (frames_to n es)))
     \<and> (\<forall>n. subseq (typed s n @ concat (map frame_inputs (held s n))) (concat (map frame_inputs (frames_to n es))))
     \<and> (\<forall>(p, v)\<in>set (written (out s)). ptys s p \<noteq> None)"

lemma count_tokens_append [simp]: "count_tokens t (ms @ ms') = count_tokens t ms + count_tokens t ms'"
  by (simp add: count_tokens_def)

lemma count_tokens_Nil [simp]: "count_tokens t [] = 0"
  by (simp add: count_tokens_def)

lemma frames_to_append [simp]: "frames_to n (es @ fs) = frames_to n es @ frames_to n fs"
  by (induction n es rule: frames_to.induct) simp_all

lemma subseq_count: "subseq xs ys \<Longrightarrow> count_list xs t \<le> count_list ys t"
  by (induction rule: list_emb.induct) auto

lemma subseq_extend: "subseq xs ys \<Longrightarrow> subseq xs (ys @ zs)"
  using list_emb_append_mono [of "(=)" xs ys "[]" zs] by simp

lemma subseq_front: "subseq (xs @ ys) zs \<Longrightarrow> subseq xs zs"
  using subseq_extend [of xs xs ys] subseq_order.order_trans by blast

lemma calm_typed:
  assumes "calm s t" "\<forall>(p, v)\<in>set (written (out s)). ptys s p \<noteq> None"
  shows "typed t n = typed s n" "\<forall>(p, v)\<in>set (written (out t)). ptys t p \<noteq> None" "redeemed (out t) = redeemed (out s)"
proof -
  obtain fx where fx: "out t = out s @ fx" "list_all calm_effect fx" using assms(1) unfolding calm_def by blast
  have e: "redeemed fx = [] \<and> written fx = []"
    using fx(2) by (induction fx) (simp_all add: redeemed_def written_def List.map_filter_def calm_effect_def)
  have o: "ptys s p \<noteq> None \<Longrightarrow> owner_of t p = owner_of s p \<and> ptys t p \<noteq> None" for p
    using assms(1) unfolding calm_def by blast
  have "filter (\<lambda>(p, v). owner_of t p = Some n) (written (out s)) = filter (\<lambda>(p, v). owner_of s p = Some n) (written (out s))"
    by (rule filter_cong) (use assms(2) o in auto)
  with fx(1) e show "typed t n = typed s n" by (simp add: typed_def)
  show "\<forall>(p, v)\<in>set (written (out t)). ptys t p \<noteq> None" using fx(1) e o assms(2) by fastforce
  show "redeemed (out t) = redeemed (out s)" using fx(1) e by simp
qed

lemma account_calm:
  assumes "account_ok es s" "calm s t" shows "account_ok (es @ [e]) t"
proof -
  have h: "nextConn t = nextConn s" "held t = held s" using assms(2) unfolding calm_def by blast+
  have w: "\<forall>(p, v)\<in>set (written (out s)). ptys s p \<noteq> None" using assms(1) unfolding account_ok_def by blast
  note c = calm_typed [OF assms(2) w]
  have "(\<Sum>n<nextConn s. count_tokens x (frames_to n es)) \<le> (\<Sum>n<nextConn s. count_tokens x (frames_to n (es @ [e])))" for x
    by (rule sum_mono) simp
  with assms(1) c h show ?thesis
    unfolding account_ok_def by (auto intro: subseq_extend order_trans)
qed

lemma frames_to_other [simp]: "\<not> (\<exists>m. e = Message n m) \<Longrightarrow> frames_to n [e] = []"
  by (cases e) simp_all

text \<open>A frame handled by a ready session, and a frame that is held.\<close>

lemma sum_at:
  fixes f g :: "nat \<Rightarrow> nat"
  assumes "n < k" "\<And>m. m \<noteq> n \<Longrightarrow> f m = g m" "f n = g n + d"
  shows "(\<Sum>m<k. f m) = (\<Sum>m<k. g m) + d"
proof -
  have "(\<Sum>m<k. f m) = f n + (\<Sum>m\<in>{..<k} - {n}. f m)" using assms(1) by (simp add: sum.remove)
  also have "(\<Sum>m\<in>{..<k} - {n}. f m) = (\<Sum>m\<in>{..<k} - {n}. g m)" using assms(2) by (intro sum.cong) auto
  also have "f n + (\<Sum>m\<in>{..<k} - {n}. g m) = (\<Sum>m<k. g m) + d" using assms(1,3) by (simp add: sum.remove)
  finally show ?thesis .
qed

lemma own_pty: "server_inv s \<Longrightarrow> objs s n = Some ss \<Longrightarrow> isActive ss \<Longrightarrow> ptyProcess ss = Some p \<Longrightarrow> owner_of s p = Some n"
  unfolding server_inv_def pty_inv_def owner_of_def by fastforce

lemma account_handled:
  assumes tr: "account_ok es s" and inv: "server_inv s" and n: "objs s n = Some ss" and r: "authReady ss"
  shows "account_ok (es @ [Message n m]) (handleMessage n m s)"
proof -
  let ?t = "handleMessage n m s"
  obtain fx where fx: "out ?t = out s @ fx" "subseq (redeemed fx) (frame_tokens m)"
    "subseq (map snd (written fx)) (frame_inputs m)" "list_all (\<lambda>(p, v). isActive ss \<and> ptyProcess ss = Some p) (written fx)"
    using answers_message [OF n active_has_pty [OF inv n], of m]
    unfolding answers_def frame_tokens_def frame_inputs_def by blast
  have lt: "n < nextConn s" using inv n unfolding server_inv_def task_inv_def by blast
  have h: "held ?t = held s" "held s n = []" using n r by (auto simp: held_def fun_eq_iff)
  have own: "owner_of ?t p = owner_of s p" for p by (simp add: owner_of_def)
  have new: "list_all (\<lambda>(p, v). owner_of s p = Some n) (written fx)"
    using fx(4) own_pty [OF inv n] by (auto simp: list_all_iff)
  have tn: "typed ?t n = typed s n @ map snd (written fx)"
    using new by (auto simp: typed_def own fx(1) list_all_iff filter_id_conv)
  have tk: "typed ?t k = typed s k" if "k \<noteq> n" for k
    using new that by (auto simp: typed_def own fx(1) list_all_iff filter_empty_conv)
  have a: "count_list (redeemed fx) x \<le> count_tokens x [m]" for x
    using subseq_count [OF fx(2)] by (simp add: count_tokens_def)
  have b: "(\<Sum>k<nextConn s. count_tokens x (frames_to k (es @ [Message n m])))
      = (\<Sum>k<nextConn s. count_tokens x (frames_to k es)) + count_tokens x [m]" for x
    by (rule sum_at [OF lt]) simp_all
  have c: "count_list (redeemed (out s)) x + (\<Sum>k<nextConn s. count_tokens x (held s k))
      \<le> (\<Sum>k<nextConn s. count_tokens x (frames_to k es))" for x
    using tr unfolding account_ok_def by blast
  have tok: "count_list (redeemed (out ?t)) x + (\<Sum>k<nextConn ?t. count_tokens x (held ?t k))
      \<le> (\<Sum>k<nextConn ?t. count_tokens x (frames_to k (es @ [Message n m])))" for x
    using a [of x] c [of x] by (simp add: fx(1) h(1) b del: frames_to_append frames_to.simps)
  have sub: "subseq (typed s k @ concat (map frame_inputs (held s k))) (concat (map frame_inputs (frames_to k es)))" for k
    using tr unfolding account_ok_def by blast
  have "subseq (typed ?t k @ concat (map frame_inputs (held ?t k))) (concat (map frame_inputs (frames_to k (es @ [Message n m]))))" for k
  proof (cases "k = n")
    case True
    have "subseq (typed s n @ map snd (written fx)) (concat (map frame_inputs (frames_to n es)) @ frame_inputs m)"
      using sub [of n] h(2) fx(3) by (intro list_emb_append_mono) simp_all
    with True tn h show ?thesis by simp
  next
    case False
    with sub [of k] tk h(1) show ?thesis by simp
  qed
  moreover have "\<forall>(p, v)\<in>set (written (out ?t)). ptys ?t p \<noteq> None"
    using tr new unfolding account_ok_def by (auto simp: fx(1) list_all_iff owner_of_def)
  ultimately show ?thesis using tok unfolding account_ok_def by blast
qed

lemma account_held:
  assumes tr: "account_ok es s" and inv: "server_inv s" and n: "objs s n = Some ss" and r: "\<not> authReady ss"
  shows "account_ok (es @ [Message n m]) (upd n (\<lambda>x. x\<lparr>pendingMessages := pendingMessages x @ [m]\<rparr>) s)"
proof -
  let ?t = "upd n (\<lambda>x. x\<lparr>pendingMessages := pendingMessages x @ [m]\<rparr>) s"
  have lt: "n < nextConn s" using inv n unfolding server_inv_def task_inv_def by blast
  have h: "held ?t n = held s n @ [m]" "k \<noteq> n \<Longrightarrow> held ?t k = held s k" for k using n r by (simp_all add: held_def)
  have ty: "typed ?t k = typed s k" for k by (simp add: typed_def owner_of_def)
  have "(\<Sum>k<nextConn s. count_tokens x (held ?t k)) = (\<Sum>k<nextConn s. count_tokens x (held s k)) + count_tokens x [m]" for x
    by (rule sum_at [OF lt]) (simp_all add: h)
  moreover have "(\<Sum>k<nextConn s. count_tokens x (frames_to k (es @ [Message n m])))
      = (\<Sum>k<nextConn s. count_tokens x (frames_to k es)) + count_tokens x [m]" for x
    by (rule sum_at [OF lt]) simp_all
  moreover have "count_list (redeemed (out s)) x + (\<Sum>k<nextConn s. count_tokens x (held s k))
      \<le> (\<Sum>k<nextConn s. count_tokens x (frames_to k es))" for x
    using tr unfolding account_ok_def by blast
  ultimately have tok: "count_list (redeemed (out ?t)) x + (\<Sum>k<nextConn ?t. count_tokens x (held ?t k))
      \<le> (\<Sum>k<nextConn ?t. count_tokens x (frames_to k (es @ [Message n m])))" for x
    by simp
  have sub: "subseq (typed s k @ concat (map frame_inputs (held s k))) (concat (map frame_inputs (frames_to k es)))" for k
    using tr unfolding account_ok_def by blast
  have "subseq (typed ?t k @ concat (map frame_inputs (held ?t k))) (concat (map frame_inputs (frames_to k (es @ [Message n m]))))" for k
  proof (cases "k = n")
    case True
    have "subseq ((typed s n @ concat (map frame_inputs (held s n))) @ frame_inputs m)
        (concat (map frame_inputs (frames_to n es)) @ frame_inputs m)"
      using sub [of n] by (intro list_emb_append_mono) simp_all
    with True ty h(1) show ?thesis by simp
  next
    case False
    with sub [of k] ty h(2) [OF False] show ?thesis by simp
  qed
  moreover have "\<forall>(p, v)\<in>set (written (out ?t)). ptys ?t p \<noteq> None" using tr unfolding account_ok_def by simp
  ultimately show ?thesis using tok unfolding account_ok_def by blast
qed

text \<open>Draining the buffer of a session without a terminal.\<close>

lemma written_none: "list_all (\<lambda>(p, v). False) (written fx) \<Longrightarrow> written fx = []"
  by (cases "written fx") auto

lemma drain_traffic:
  assumes "objs s n = Some ss" "\<not> isActive ss" "authReady ss"
  shows "\<exists>fx. out (drain n ms s) = out s @ fx \<and> subseq (redeemed fx) (concat (map frame_tokens ms)) \<and> written fx = []
    \<and> held (drain n ms s) = held s \<and> nextConn (drain n ms s) = nextConn s \<and> ptys (drain n ms s) = ptys s"
  using assms
proof (induction n ms s arbitrary: ss rule: drain.induct)
  case (2 n m ms s)
  show ?case
  proof (cases "crashed s")
    case False
    let ?b = "upd n (\<lambda>x. x\<lparr>pendingMessages := ms\<rparr>) s"
    let ?h = "handleMessage n m ?b"
    have b: "objs ?b n = Some (ss\<lparr>pendingMessages := ms\<rparr>)" using "2.prems" by simp
    obtain fx where fx: "out ?h = out s @ fx" "subseq (redeemed fx) (frame_tokens m)" "written fx = []"
      using answers_message [OF b, of m] "2.prems"(2) written_none unfolding answers_def frame_tokens_def by auto
    have h: "objs ?h n = Some (ss\<lparr>pendingMessages := ms\<rparr>)" using "2.prems"(1) by simp
    obtain gx where gx: "out (drain n ms ?h) = out ?h @ gx" "subseq (redeemed gx) (concat (map frame_tokens ms))"
      "written gx = []" "held (drain n ms ?h) = held ?h" "nextConn (drain n ms ?h) = nextConn ?h" "ptys (drain n ms ?h) = ptys ?h"
      using "2.IH" [OF False h] "2.prems"(2,3) by auto
    have "held ?h = held s" using "2.prems" by (auto simp: held_def fun_eq_iff)
    with fx gx False show ?thesis by (auto intro: list_emb_append_mono)
  qed (simp add: exI [of _ "[]"])
qed simp

lemma account_ips:
  assumes tr: "account_ok es s" and inv: "server_inv s" and n: "objs s n = Some ss" and r: "\<not> authReady ss"
  shows "account_ok (es @ [IpsSettled n rep]) (ips_settled n rep s)"
proof (cases "\<exists>ips. rep = IpsReply 200 (Some ips)")
  case False
  then have "calm s (ips_settled n rep s)"
    by (auto simp: ips_settled_def calm_emit split: ips_reply.splits option.splits)
  then show ?thesis by (rule account_calm [OF tr])
next
  case True
  then obtain ips where rep: "rep = IpsReply 200 (Some ips)" by blast
  let ?x = "ss\<lparr>authorizedIPs := (case ips of Some xs \<Rightarrow> xs | None \<Rightarrow> []), authReady := True\<rparr>"
  let ?s = "upd n (\<lambda>x. x\<lparr>authorizedIPs := (case ips of Some xs \<Rightarrow> xs | None \<Rightarrow> []), authReady := True\<rparr>)
      (s\<lparr>userSessions := (userSessions s)(userId ss \<mapsto> n)\<rparr>)"
  let ?t = "drain n (pendingMessages ss) ?s"
  have t: "ips_settled n rep s = ?t" using n by (simp add: ips_settled_def rep Let_def)
  have lt: "n < nextConn s" using inv n unfolding server_inv_def task_inv_def by blast
  have x: "objs ?s n = Some ?x" "\<not> isActive ?x" "authReady ?x"
    using n not_ready_not_active [OF inv n r] by simp_all
  obtain fx where fx: "out ?t = out s @ fx" "subseq (redeemed fx) (concat (map frame_tokens (pendingMessages ss)))"
    "written fx = []" "held ?t = held ?s" "nextConn ?t = nextConn s" "ptys ?t = ptys s"
    using drain_traffic [OF x, of "pendingMessages ss"] by auto
  have hs: "held s n = pendingMessages ss" "held ?s n = []" "k \<noteq> n \<Longrightarrow> held ?s k = held s k" for k
    using n r by (simp_all add: held_def)
  have ty: "typed ?t k = typed s k" for k by (simp add: typed_def owner_of_def fx)
  have a: "(\<Sum>k<nextConn s. count_tokens y (held s k)) = (\<Sum>k<nextConn s. count_tokens y (held ?s k)) + count_tokens y (pendingMessages ss)" for y
    by (rule sum_at [OF lt]) (simp_all add: hs)
  have b: "count_list (redeemed fx) y \<le> count_tokens y (pendingMessages ss)" for y
    using subseq_count [OF fx(2)] by (simp add: count_tokens_def)
  have c: "count_list (redeemed (out s)) y + (\<Sum>k<nextConn s. count_tokens y (held s k))
      \<le> (\<Sum>k<nextConn s. count_tokens y (frames_to k es))" for y
    using tr unfolding account_ok_def by blast
  have tok: "count_list (redeemed (out ?t)) y + (\<Sum>k<nextConn ?t. count_tokens y (held ?t k))
      \<le> (\<Sum>k<nextConn ?t. count_tokens y (frames_to k (es @ [IpsSettled n rep])))" for y
  proof -
    from a [of y] b [of y] c [of y] have "count_list (redeemed (out s)) y + count_list (redeemed fx) y
        + (\<Sum>k<nextConn s. count_tokens y (held ?s k)) \<le> (\<Sum>k<nextConn s. count_tokens y (frames_to k es))" by linarith
    then show ?thesis by (simp add: fx)
  qed
  have "subseq (typed s k @ concat (map frame_inputs (held s k))) (concat (map frame_inputs (frames_to k es)))" for k
    using tr unfolding account_ok_def by blast
  then have "subseq (typed ?t k @ concat (map frame_inputs (held ?t k))) (concat (map frame_inputs (frames_to k (es @ [IpsSettled n rep]))))" for k
    using hs(2) hs(3) [of k] by (cases "k = n") (auto simp: ty fx dest: subseq_front)
  moreover have "\<forall>(p, v)\<in>set (written (out ?t)). ptys ?t p \<noteq> None"
    using tr unfolding account_ok_def by (simp add: fx)
  ultimately show ?thesis using tok unfolding account_ok_def t by blast
qed

text \<open>A connection is new; its frames so far, if any, were dropped.\<close>

lemma account_connection:
  assumes tr: "account_ok es s" and inv: "server_inv s"
  shows "account_ok (es @ [Connection uid sc]) (on_connection uid sc s)"
proof -
  let ?t = "on_connection uid sc s"
  have fresh: "objs s (nextConn s) = None" using inv unfolding server_inv_def task_inv_def by fastforce
  have "\<exists>e. out ?t = out s @ [e] \<and> calm_effect e"
    by (simp add: on_connection_def Let_def)
  then obtain fx where fx: "out ?t = out s @ fx" "redeemed fx = []" "written fx = []"
    by (auto simp: calm_effect_def redeemed_def written_def List.map_filter_def)
  have h: "nextConn ?t = Suc (nextConn s)" "ptys ?t = ptys s" "held ?t = held s"
    using fresh by (auto simp: on_connection_def Let_def held_def fun_eq_iff new_session_def)
  have "held s (nextConn s) = []" using fresh by (simp add: held_def)
  moreover have "typed ?t k = typed s k" for k by (simp add: typed_def owner_of_def fx h)
  ultimately show ?thesis using tr unfolding account_ok_def by (auto simp: fx h intro: trans_le_add1)
qed

lemma account_ips_event:
  assumes tr: "account_ok es s" and inv: "server_inv s"
  shows "account_ok (es @ [IpsSettled n r]) (server_event_step s (IpsSettled n r))"
proof (cases "AwaitIPs n \<in> set (tasks s)")
  case True
  then have "task_ok s (AwaitIPs n)" using inv unfolding server_inv_def task_inv_def by blast
  then obtain ss where ss: "objs s n = Some ss" "\<not> authReady ss" by auto
  have drop: "nextConn (drop_task k s) = nextConn s" "out (drop_task k s) = out s" "ptys (drop_task k s) = ptys s" for k
    by (simp_all add: drop_task_def)
  have "account_ok es (drop_task (AwaitIPs n) s)"
    using tr by (simp add: account_ok_def typed_def owner_of_def drop)
  from account_ips [OF this inv_drop_task [OF inv], of n ss r] ss True show ?thesis by (simp add: drop_task_def)
qed (use account_calm [OF tr] in simp)

lemma account_message:
  assumes tr: "account_ok es s" and inv: "server_inv s"
  shows "account_ok (es @ [Message n m]) (on_message n m s)"
proof (cases "objs s n")
  case (Some ss)
  with account_handled [OF tr inv Some] account_held [OF tr inv Some] show ?thesis by (simp add: on_message_def)
qed (use account_calm [OF tr] in \<open>simp add: on_message_def\<close>)

text \<open>All other events leave the accounts alone.\<close>

lemma calm_event:
  assumes pb: "pty_bound s"
    and e: "\<And>uid sc. e \<noteq> Connection uid sc" "\<And>n r. e \<noteq> IpsSettled n r" "\<And>n m. e \<noteq> Message n m"
  shows "calm s (server_event_step s e)"
proof -
  have drop: "pty_bound (drop_task k s)" "nextConn (drop_task k s) = nextConn s" "out (drop_task k s) = out s"
    "ptys (drop_task k s) = ptys s" for k using pb by (simp_all add: drop_task_def pty_bound_def)
  show ?thesis
  proof (cases e)
    case (TokenSettled n r)
    have "calm s (token_settled n r (drop_task k s))" for k by (rule calm_from [OF calm_token_settled]) (simp_all add: drop)
    with TokenSettled show ?thesis by simp
  next
    case (KillTimer n a k)
    have "calm s (kill_check n a k (drop_task x s))" for x by (rule calm_from [OF calm_kill_check]) (simp_all add: drop)
    with KillTimer show ?thesis by simp
  next
    case (SessionTimeout i)
    have "calm s (killPtyProcess u NoCont (s\<lparr>session_timers := x\<rparr>))" for u x
      by (rule calm_from [OF calm_killPty_frame]) simp_all
    with SessionTimeout show ?thesis by (simp add: on_session_timeout_def split: option.split)
  qed (use e pb in \<open>simp_all add: on_pty_data_def calm_emit calm_pty_exit calm_heartbeat handleError_def handleClose_def
      calm_killPty split: option.split\<close>)
qed

lemma account_step:
  assumes tr: "account_ok es s" and inv: "server_inv s"
  shows "account_ok (es @ [e]) (server_step s e)"
proof -
  have pb: "pty_bound s" using inv unfolding server_inv_def pty_inv_def pty_bound_def by blast
  have "account_ok (es @ [e]) (server_event_step s e)"
  proof (cases e)
    case (Connection uid sc)
    with account_connection [OF tr inv] show ?thesis by simp
  next
    case (IpsSettled n r)
    with account_ips_event [OF tr inv] show ?thesis by simp
  next
    case (Message n m)
    with account_message [OF tr inv] show ?thesis by simp
  qed (rule account_calm [OF tr calm_event [OF pb]]; simp)+
  then show ?thesis using account_calm [OF tr, of s] by (simp add: server_step_def)
qed

lemma account_run: "account_ok es (run server_step server_start es)"
proof (induction es rule: rev_induct)
  case Nil
  show ?case by (simp add: account_ok_def server_start_def typed_def held_def)
next
  case (snoc e es)
  from account_step [OF snoc server_run_inv] show ?case by simp
qed

lemma nextConn_drain [simp]: "nextConn (drain n ms s) = nextConn s"
  by (induction n ms s rule: drain.induct) simp_all

lemma nextConn_step: "nextConn s \<le> nextConn (server_step s e)"
proof -
  have pty: "nextConn (spawn_terminal ws n args s) = nextConn s" for ws n args s
    by (simp add: spawn_terminal_def Let_def split: prod.splits)
  have run: "nextConn (run_command ws n c s) = nextConn s" for ws n c s
    by (simp add: run_command_def Let_def pty)
  have resume: "nextConn (resume_kill k r s) = nextConn s" for k r s
    by (simp add: resume_kill_def run split: cont.splits)
  have kill: "nextConn (killPtyProcess uid k s) = nextConn s" for uid k s
    by (simp add: killPtyProcess_def resume split: option.splits)
  have check: "nextConn (kill_check n a k s) = nextConn s" for n a k s
    by (simp add: kill_check_def resume split: option.splits)
  have token: "nextConn (token_settled n r s) = nextConn s" for n r s
    by (simp add: token_settled_def handleCommand_def rejectTerminalToken_def run kill
        split: token_reply.splits option.splits)
  have beat: "nextConn (heartbeat cs s) = nextConn s" for cs s
    using calm_heartbeat [of s cs] by (simp add: calm_def)
  have quit: "nextConn (on_pty_exit p s) = nextConn s" for p s
    using calm_pty_exit [of s p] by (simp add: calm_def)
  show ?thesis
    by (cases e) (auto simp: server_step_def on_connection_def Let_def ips_settled_def on_message_def token check
        drop_task_def on_session_timeout_def on_pty_data_def handleError_def handleClose_def kill beat quit
        split: option.splits ips_reply.splits)
qed

end
