(* ===== verification/TerminalSystem.thy ===== *)
theory TerminalSystem
  imports ClientClaims ServerTraffic
begin

text \<open>
  The terminal components of the open pages and the terminal server, joined by WebSocket connections.
  A configuration is the history of every component and of the server, which socket of which
  component a connection belongs to, and how many frames of each connection have arrived on either
  side. Frames travel in order and may be lost only with everything behind them, so the frames in
  flight are the sent ones beyond that number. The relation \<open>network\<close> says which configurations can
  come about.
\<close>

section \<open>Frames of the component\<close>

text \<open>A frame that some history of the component sends.\<close>

definition component_sends :: "json \<Rightarrow> bool" where
  "component_sends m \<longleftrightarrow>
     (\<exists>c es i. client_start c \<and> Send i m \<in> set (fx (run client_step c es)))"

definition from_component :: "server_event \<Rightarrow> bool" where
  "from_component e \<longleftrightarrow>
     (case e of Message n w \<Rightarrow> (\<exists>m. w = JsonText m \<and> component_sends m) | _ \<Rightarrow> True)"

lemma plain_frame_safe: "plain_frame m \<Longrightarrow> safe_frame (JsonText m)"
  by (auto simp: plain_frame_def obj_def safe_frame_def parseMessage_def safe_entry_def messageHandlers_def)

lemma token_frame_safe: "token_in m \<noteq> None \<Longrightarrow> safe_frame (JsonText m)"
  by (auto simp: token_in_def safe_frame_def parseMessage_def safe_entry_def messageHandlers_def
      split: json.splits list.splits prod.splits if_splits)

lemma component_sends_safe: "component_sends m \<Longrightarrow> safe_frame (JsonText m)"
proof -
  assume "component_sends m"
  then obtain c es i where c: "client_start c" and m: "Send i m \<in> set (fx (run client_step c es))"
    unfolding component_sends_def by blast
  have "traffic (mset (tokens_issued es)) (run client_step c es)"
    using traffic_run [OF traffic_start [OF c], of es] by simp
  with m have "frame_ok (Send i m)" unfolding traffic_def list_all_iff by blast
  then show ?thesis using plain_frame_safe token_frame_safe by (auto simp: frame_ok_def)
qed

lemma component_events_safe: "list_all from_component es \<Longrightarrow> list_all safe_event es"
  unfolding list_all_iff from_component_def safe_event_def
  using component_sends_safe by (fastforce split: server_event.splits)

section \<open>Configurations\<close>

record config =
  page_history :: "nat \<Rightarrow> client_event list"
  server_history :: "server_event list"
  link :: "conn \<Rightarrow> (nat \<times> nat) option"
  arrived_up :: "conn \<Rightarrow> nat"
  arrived_down :: "conn \<Rightarrow> nat"

text \<open>The state of a page's component and of the server.\<close>

definition component :: "(nat \<Rightarrow> client) \<Rightarrow> config \<Rightarrow> nat \<Rightarrow> client" where
  "component c0 x k = run client_step (c0 k) (page_history x k)"

definition server_of :: "config \<Rightarrow> server" where
  "server_of x = run server_step server_start (server_history x)"

text \<open>What a component sent on a socket, and what the server sent on a connection; \<open>bool_frame\<close> is the
  frame the socket library makes of a boolean.\<close>

definition sent_on :: "nat \<Rightarrow> client_effect list \<Rightarrow> json list" where
  "sent_on i es = List.map_filter (\<lambda>e. case e of Send j m \<Rightarrow> if j = i then Some m else None | _ \<Rightarrow> None) es"

definition server_frames :: "(bool \<Rightarrow> ws_data) \<Rightarrow> conn \<Rightarrow> effect \<Rightarrow> ws_data list" where
  "server_frames bool_frame n e =
     (case e of
        SendStr m t \<Rightarrow> if m = n then [TextFrame t] else []
      | SendBool m b \<Rightarrow> if m = n then [bool_frame b] else []
      | RejectSocket m ws \<Rightarrow>
          if m = n then concat (map (\<lambda>w. case w of SendText t \<Rightarrow> [TextFrame t] | _ \<Rightarrow> []) ws) else []
      | _ \<Rightarrow> [])"

definition sent_to :: "(bool \<Rightarrow> ws_data) \<Rightarrow> conn \<Rightarrow> effect list \<Rightarrow> ws_data list" where
  "sent_to bool_frame n es = concat (map (server_frames bool_frame n) es)"

definition up_frames :: "(nat \<Rightarrow> client) \<Rightarrow> config \<Rightarrow> conn \<Rightarrow> json list" where
  "up_frames c0 x n = (case link x n of None \<Rightarrow> [] | Some (k, i) \<Rightarrow> sent_on i (fx (component c0 x k)))"

definition down_frames :: "(bool \<Rightarrow> ws_data) \<Rightarrow> config \<Rightarrow> conn \<Rightarrow> ws_data list" where
  "down_frames bool_frame x n = sent_to bool_frame n (out (server_of x))"

definition config_start :: config where
  "config_start = \<lparr>page_history = (\<lambda>_. []), server_history = [], link = (\<lambda>_. None),
     arrived_up = (\<lambda>_. 0), arrived_down = (\<lambda>_. 0)\<rparr>"

text \<open>Events that do not come over the network.\<close>

definition page_event :: "client_event \<Rightarrow> bool" where
  "page_event e = (case e of SocketMessage v i d \<Rightarrow> False | _ \<Rightarrow> True)"

definition host_event :: "server_event \<Rightarrow> bool" where
  "host_event e = (case e of Message n m \<Rightarrow> False | Connection uid sc \<Rightarrow> False | _ \<Rightarrow> True)"

definition page_step :: "nat \<Rightarrow> client_event \<Rightarrow> config \<Rightarrow> config" where
  "page_step k e x = x\<lparr>page_history := (page_history x)(k := page_history x k @ [e])\<rparr>"

definition host_step :: "server_event \<Rightarrow> config \<Rightarrow> config" where
  "host_step e x = x\<lparr>server_history := server_history x @ [e]\<rparr>"

text \<open>A connection is made, a frame arrives at the server, a frame arrives at a page.\<close>

definition connect_step :: "nat \<Rightarrow> nat \<Rightarrow> string \<Rightarrow> session_cookie \<Rightarrow> config \<Rightarrow> config" where
  "connect_step k i uid sc x =
     (host_step (Connection uid sc) x)\<lparr>link := (link x)(nextConn (server_of x) \<mapsto> (k, i))\<rparr>"

definition up_step :: "(nat \<Rightarrow> client) \<Rightarrow> conn \<Rightarrow> config \<Rightarrow> config" where
  "up_step c0 n x = (host_step (Message n (JsonText (up_frames c0 x n ! arrived_up x n))) x)
     \<lparr>arrived_up := (arrived_up x)(n := Suc (arrived_up x n))\<rparr>"

definition down_step :: "(bool \<Rightarrow> ws_data) \<Rightarrow> conn \<Rightarrow> nat \<Rightarrow> nat \<Rightarrow> env \<Rightarrow> config \<Rightarrow> config" where
  "down_step bool_frame n k i v x = (page_step k (SocketMessage v i (down_frames bool_frame x n ! arrived_down x n)) x)
     \<lparr>arrived_down := (arrived_down x)(n := Suc (arrived_down x n))\<rparr>"

text \<open>\<open>N\<close> pages are open. A socket that a component opened becomes a connection at most once.\<close>

inductive network :: "nat \<Rightarrow> (nat \<Rightarrow> client) \<Rightarrow> (bool \<Rightarrow> ws_data) \<Rightarrow> config \<Rightarrow> bool" for N c0 bool_frame where
  net_start: "network N c0 bool_frame config_start"
| net_page: "network N c0 bool_frame x \<Longrightarrow> k < N \<Longrightarrow> page_event e \<Longrightarrow> network N c0 bool_frame (page_step k e x)"
| net_host: "network N c0 bool_frame x \<Longrightarrow> host_event e \<Longrightarrow> network N c0 bool_frame (host_step e x)"
| net_connect: "network N c0 bool_frame x \<Longrightarrow> k < N \<Longrightarrow> i < nextSocket (component c0 x k) \<Longrightarrow> (k, i) \<notin> ran (link x) \<Longrightarrow>
    network N c0 bool_frame (connect_step k i uid sc x)"
| net_up: "network N c0 bool_frame x \<Longrightarrow> arrived_up x n < length (up_frames c0 x n) \<Longrightarrow>
    network N c0 bool_frame (up_step c0 n x)"
| net_down: "network N c0 bool_frame x \<Longrightarrow> link x n = Some (k, i) \<Longrightarrow> arrived_down x n < length (down_frames bool_frame x n) \<Longrightarrow>
    network N c0 bool_frame (down_step bool_frame n k i v x)"

section \<open>Logs only grow\<close>

lemma fx_quiet: "quiet W b s t \<Longrightarrow> \<exists>es. fx t = fx s @ es"
  by (auto simp: quiet_def)

interpretation log_host: session_host "\<lambda>t. \<exists>es. fx t = fx s @ es" "\<lambda>_. True" ensureWebSocketConnection for s
proof unfold_locales
  show "\<exists>es. fx (ensureWebSocketConnection v t) = fx s @ es" if "\<exists>es. fx t = fx s @ es" for v t
    using that fx_quiet [OF quiet_ensure [of UNIV t v]] by auto
qed (auto simp: effect_def)

lemma fx_begin: "\<exists>es. fx (beginTerminalSessionStart (ensureWebSocketConnection v) s) = fx s @ es"
  by (rule log_host.keeps_begin) simp_all

lemma fx_sendMessage: "\<exists>es. fx (sendMessage m s) = fx s @ es"
  by (cases rule: send_cases [of m s]) simp_all

lemma fx_opened: "\<exists>es. fx (handleSocketOpen v s) = fx s @ es"
  by (auto simp: handleSocketOpen_def Let_def resetPingTimeout_def arm_eq sendMessage_def split: option.split)

lemma fx_step: "\<exists>es. fx (client_step s e) = fx s @ es"
proof (cases "opens_or_tokens e")
  case False
  from fx_quiet [OF quiet_step [OF this, of UNIV False s]] show ?thesis by simp
next
  case True
  show ?thesis
  proof (cases e)
    case (SocketOpened v i)
    with fx_opened [of v "s\<lparr>readyState := (readyState s)(i := WsOpen)\<rparr>"] show ?thesis by simp
  next
    case (TokenIssued v t)
    let ?b = "beginTerminalSessionStart (ensureWebSocketConnection v) s"
    obtain es where es: "fx ?b = fx s @ es" using fx_begin by blast
    obtain es' where es': "fx (sendMessage (obj ''terminalToken'' t) ?b) = fx ?b @ es'" using fx_sendMessage by blast
    show ?thesis using TokenIssued es es' by (simp add: onTerminalToken_def sendCommandWhenReady_def)
  next
    case (StartRequested v)
    with fx_begin show ?thesis by simp
  qed (use True in \<open>simp_all add: opens_or_tokens_def\<close>)
qed

lemma sent_on_append [simp]: "sent_on i (es @ es') = sent_on i es @ sent_on i es'"
  by (simp add: sent_on_def List.map_filter_def)

lemma sent_on_member: "m \<in> set (sent_on i es) \<longleftrightarrow> Send i m \<in> set es"
  by (induction es) (auto simp: sent_on_def List.map_filter_def split: client_effect.splits)

section \<open>What holds of every configuration\<close>

definition linked_ok :: "nat \<Rightarrow> (nat \<Rightarrow> client) \<Rightarrow> config \<Rightarrow> bool" where
  "linked_ok N c0 x \<longleftrightarrow>
     dom (link x) \<subseteq> {..<nextConn (server_of x)} \<and> inj_on (link x) (dom (link x))
     \<and> (\<forall>n k i. link x n = Some (k, i) \<longrightarrow> k < N)
     \<and> (\<forall>n. arrived_up x n \<le> length (up_frames c0 x n)
          \<and> frames_to n (server_history x) = map JsonText (take (arrived_up x n) (up_frames c0 x n)))
     \<and> list_all from_component (server_history x)"

lemma page_sel [simp]:
  "server_history (page_step k e x) = server_history x" "link (page_step k e x) = link x"
  "arrived_up (page_step k e x) = arrived_up x" "arrived_down (page_step k e x) = arrived_down x"
  "server_of (page_step k e x) = server_of x"
  "page_history (page_step k e x) = (page_history x)(k := page_history x k @ [e])"
  by (simp_all add: page_step_def server_of_def)

lemma host_sel [simp]:
  "page_history (host_step e x) = page_history x" "link (host_step e x) = link x"
  "arrived_up (host_step e x) = arrived_up x" "arrived_down (host_step e x) = arrived_down x"
  "server_history (host_step e x) = server_history x @ [e]" "component c0 (host_step e x) = component c0 x"
  "server_of (host_step e x) = server_step (server_of x) e"
  by (simp_all add: host_step_def server_of_def component_def fun_eq_iff)

lemma config_sel [simp]:
  "component c0 (x\<lparr>link := l\<rparr>) = component c0 x" "component c0 (x\<lparr>arrived_up := a\<rparr>) = component c0 x"
  "component c0 (x\<lparr>arrived_down := a\<rparr>) = component c0 x" "server_of (x\<lparr>link := l\<rparr>) = server_of x"
  "server_of (x\<lparr>arrived_up := a\<rparr>) = server_of x" "server_of (x\<lparr>arrived_down := a\<rparr>) = server_of x"
  by (simp_all add: component_def server_of_def fun_eq_iff)

lemma up_host [simp]: "up_frames c0 (host_step e x) n = up_frames c0 x n"
  by (simp add: up_frames_def split: option.split prod.split)

lemma up_page: "\<exists>ms. up_frames c0 (page_step k e x) n = up_frames c0 x n @ ms"
proof (cases "link x n")
  case (Some p)
  obtain j i where p: "p = (j, i)" by (cases p)
  have "\<exists>es. fx (component c0 (page_step k e x) j) = fx (component c0 x j) @ es"
    using fx_step [of "component c0 x k" e] by (simp add: component_def)
  then show ?thesis using Some p by (auto simp: up_frames_def)
qed (simp add: up_frames_def)

lemma up_sent: "m \<in> set (up_frames c0 x n) \<Longrightarrow>
    \<exists>k i. link x n = Some (k, i) \<and> Send i m \<in> set (fx (component c0 x k))"
  by (cases "link x n") (auto simp: up_frames_def sent_on_member)

lemma up_component: "(\<And>k. client_start (c0 k)) \<Longrightarrow> m \<in> set (up_frames c0 x n) \<Longrightarrow> component_sends m"
  unfolding component_sends_def component_def [symmetric] using up_sent
  by (metis component_def)

lemma linked_alive: "linked_ok N c0 x \<Longrightarrow> \<not> crashed (server_of x)"
  unfolding linked_ok_def server_of_def using safe_run_alive component_events_safe by blast

lemma linked_page: "linked_ok N c0 x \<Longrightarrow> linked_ok N c0 (page_step k e x)"
proof -
  assume ok: "linked_ok N c0 x"
  have "arrived_up x n \<le> length (up_frames c0 (page_step k e x) n)
      \<and> take (arrived_up x n) (up_frames c0 (page_step k e x) n) = take (arrived_up x n) (up_frames c0 x n)" for n
  proof -
    obtain ms where "up_frames c0 (page_step k e x) n = up_frames c0 x n @ ms" using up_page by blast
    moreover have "arrived_up x n \<le> length (up_frames c0 x n)" using ok unfolding linked_ok_def by blast
    ultimately show ?thesis by simp
  qed
  with ok show ?thesis by (simp add: linked_ok_def)
qed

lemma linked_host: "linked_ok N c0 x \<Longrightarrow> host_event e \<Longrightarrow> linked_ok N c0 (host_step e x)"
proof -
  assume ok: "linked_ok N c0 x" and e: "host_event e"
  have f: "frames_to n [e] = []" "from_component e" for n
    using e by (cases e; simp add: host_event_def from_component_def)+
  have "dom (link x) \<subseteq> {..<nextConn (server_step (server_of x) e)}"
    using ok nextConn_step [of "server_of x" e] unfolding linked_ok_def by auto
  with ok f show ?thesis by (simp add: linked_ok_def list_all_append)
qed

lemma linked_connect:
  assumes ok: "linked_ok N c0 x" and k: "k < N" and free: "(k, i) \<notin> ran (link x)"
  shows "linked_ok N c0 (connect_step k i uid sc x)"
proof -
  let ?n = "nextConn (server_of x)" and ?y = "connect_step k i uid sc x"
  have new: "link x ?n = None" using ok unfolding linked_ok_def by blast
  have grown: "nextConn (server_of ?y) = Suc ?n"
    using linked_alive [OF ok] by (simp add: connect_step_def server_step_def on_connection_def Let_def)
  have up: "up_frames c0 ?y n = (if n = ?n then sent_on i (fx (component c0 x k)) else up_frames c0 x n)" for n
    by (simp add: up_frames_def connect_step_def split: option.split prod.split)
  have old: "arrived_up x ?n = 0" "frames_to ?n (server_history x) = []"
  proof -
    have "arrived_up x ?n \<le> length (up_frames c0 x ?n)" "frames_to ?n (server_history x) = map JsonText (take (arrived_up x ?n) (up_frames c0 x ?n))"
      using ok unfolding linked_ok_def by blast+
    moreover have "up_frames c0 x ?n = []" using new by (simp add: up_frames_def)
    ultimately show "arrived_up x ?n = 0" "frames_to ?n (server_history x) = []" by simp_all
  qed
  have "dom (link ?y) \<subseteq> {..<nextConn (server_of ?y)}"
    unfolding grown using ok unfolding linked_ok_def by (auto simp: connect_step_def less_Suc_eq)
  moreover have "inj_on (link ?y) (dom (link ?y))"
  proof -
    have "inj_on (link x) (dom (link x))" using ok unfolding linked_ok_def by blast
    moreover have "link x j \<noteq> Some (k, i)" for j using free by (auto simp: ran_def)
    moreover from this have "Some (k, i) \<noteq> link x j" for j by metis
    ultimately show ?thesis using new by (auto simp: connect_step_def inj_on_def split: if_splits)
  qed
  moreover have "arrived_up ?y n \<le> length (up_frames c0 ?y n)
      \<and> frames_to n (server_history ?y) = map JsonText (take (arrived_up ?y n) (up_frames c0 ?y n))" for n
  proof (cases "n = ?n")
    case True
    with old show ?thesis by (simp add: up) (simp add: connect_step_def)
  next
    case False
    with ok show ?thesis by (simp add: up) (simp add: connect_step_def linked_ok_def)
  qed
  moreover have "\<forall>n j l. link ?y n = Some (j, l) \<longrightarrow> j < N"
    using ok k unfolding linked_ok_def by (simp add: connect_step_def)
  moreover have "list_all from_component (server_history ?y)"
    using ok unfolding linked_ok_def by (simp add: connect_step_def from_component_def list_all_append)
  ultimately show ?thesis unfolding linked_ok_def by blast
qed

lemma linked_up:
  assumes ok: "linked_ok N c0 x" and start: "\<And>k. client_start (c0 k)" and more: "arrived_up x n < length (up_frames c0 x n)"
  shows "linked_ok N c0 (up_step c0 n x)"
proof -
  let ?m = "up_frames c0 x n ! arrived_up x n" and ?y = "up_step c0 n x"
  have "component_sends ?m" using up_component [of c0, OF start nth_mem [OF more]] .
  then have origin: "from_component (Message n (JsonText ?m))" by (simp add: from_component_def)
  have up: "up_frames c0 ?y j = up_frames c0 x j" for j by (simp add: up_step_def up_frames_def split: option.split prod.split)
  have "arrived_up ?y j \<le> length (up_frames c0 ?y j)
      \<and> frames_to j (server_history ?y) = map JsonText (take (arrived_up ?y j) (up_frames c0 ?y j))" for j
  proof (cases "j = n")
    case True
    have "frames_to n (server_history x) = map JsonText (take (arrived_up x n) (up_frames c0 x n))"
      using ok unfolding linked_ok_def by blast
    with True more show ?thesis by (simp add: up) (simp add: up_step_def take_Suc_conv_app_nth)
  next
    case False
    with ok show ?thesis by (simp add: up) (simp add: up_step_def linked_ok_def)
  qed
  moreover have "dom (link ?y) \<subseteq> {..<nextConn (server_of ?y)}"
    using ok nextConn_step [of "server_of x" "Message n (JsonText ?m)"] unfolding linked_ok_def by (auto simp: up_step_def)
  moreover have "link ?y = link x" "list_all from_component (server_history ?y)"
    using ok origin unfolding linked_ok_def by (simp_all add: up_step_def list_all_append)
  ultimately show ?thesis using ok unfolding linked_ok_def by simp
qed

lemma linked_network:
  assumes "network N c0 bool_frame x" "\<And>k. client_start (c0 k)"
  shows "linked_ok N c0 x"
  using assms(1)
proof induction
  case net_start
  show ?case by (simp add: linked_ok_def config_start_def up_frames_def)
next
  case (net_down x n k i v)
  have "linked_ok N c0 (y\<lparr>arrived_down := a\<rparr>) = linked_ok N c0 y" for y a
    by (simp add: linked_ok_def up_frames_def cong: option.case_cong prod.case_cong)
  with linked_page [OF net_down.IH] show ?case by (simp add: down_step_def)
qed (use linked_page linked_host linked_connect linked_up assms(2) in blast)+

section \<open>Tokens and input through the system\<close>

definition tokens_on :: "json \<Rightarrow> json list \<Rightarrow> nat" where
  "tokens_on t ms = count_tokens t (map JsonText ms)"

lemma frame_tokens_ok: "frame_ok (Send i m) \<Longrightarrow> frame_tokens (JsonText m) = (case token_in m of None \<Rightarrow> [] | Some t \<Rightarrow> [t])"
proof -
  assume "frame_ok (Send i m)"
  then consider "plain_frame m" | t where "token_in m = Some t" by (auto simp: frame_ok_def)
  then show ?thesis
  proof cases
    case 1
    then show ?thesis
      by (auto simp: plain_frame_def obj_def frame_tokens_def frame_entries_def parseMessage_def values_of_def token_in_def)
  next
    case 2
    then have "m = JObj [(''terminalToken'', t)]"
      by (auto simp: token_in_def split: json.splits list.splits prod.splits if_splits)
    then show ?thesis
      by (simp add: frame_tokens_def frame_entries_def parseMessage_def values_of_def token_in_def)
  qed
qed

lemma tokens_by_socket:
  assumes "finite S" "list_all frame_ok es"
  shows "(\<Sum>i\<in>S. tokens_on t (sent_on i es)) \<le> count_list (tokens_sent es) t"
  using assms(2)
proof (induction es)
  case Nil
  show ?case by (simp add: tokens_on_def sent_on_def List.map_filter_def)
next
  case (Cons e es)
  have split: "sent_on i (e # es) = sent_on i [e] @ sent_on i es" "tokens_sent (e # es) = tokens_sent [e] @ tokens_sent es" for i
    by (simp_all add: sent_on_def tokens_sent_def List.map_filter_def)
  have "(\<Sum>i\<in>S. tokens_on t (sent_on i [e])) \<le> count_list (tokens_sent [e]) t"
  proof (cases "\<exists>j m. e = Send j m")
    case True
    then obtain j m where e: "e = Send j m" by blast
    have ft: "frame_tokens (JsonText m) = (case token_in m of None \<Rightarrow> [] | Some t \<Rightarrow> [t])"
      by (rule frame_tokens_ok [of j]) (use Cons.prems e in simp)
    have "tokens_on t (sent_on i [e]) = (if i = j then count_list (tokens_sent [e]) t else 0)" for i
      by (simp add: e sent_on_def tokens_sent_def List.map_filter_def tokens_on_def count_tokens_def ft token_of_def split: option.split)
    then show ?thesis using assms(1) by (simp add: sum.delta)
  next
    case False
    then have "sent_on i [e] = []" for i
      by (cases e) (simp_all add: sent_on_def List.map_filter_def)
    then show ?thesis by (simp add: tokens_on_def)
  qed
  moreover have "tokens_on t (sent_on i (e # es)) = tokens_on t (sent_on i [e]) + tokens_on t (sent_on i es)" for i
    by (simp add: split tokens_on_def)
  ultimately show ?case using Cons by (simp add: split sum.distrib)
qed

text \<open>The tokens on all connections are among those the components sent.\<close>

lemma tokens_by_page:
  assumes ok: "linked_ok N c0 x" and fr: "\<And>k. list_all frame_ok (fx (component c0 x k))"
  shows "(\<Sum>n<nextConn (server_of x). tokens_on t (up_frames c0 x n)) \<le> (\<Sum>k<N. count_list (tokens_sent (fx (component c0 x k))) t)"
proof -
  define D where "D = dom (link x)"
  define h where "h = (\<lambda>(k, i). tokens_on t (sent_on i (fx (component c0 x k))))"
  define S where "S = snd ` (\<lambda>n. the (link x n)) ` D"
  have D: "D \<subseteq> {..<nextConn (server_of x)}" using ok unfolding linked_ok_def D_def by blast
  from this have fin: "finite D" by (rule finite_subset) simp
  have one: "inj_on (link x) D" using ok unfolding linked_ok_def D_def by blast
  have inj: "inj_on (\<lambda>n. the (link x n)) D"
  proof (rule inj_onI)
    fix m n assume mn: "m \<in> D" "n \<in> D" and eq: "the (link x m) = the (link x n)"
    obtain p q where "link x m = Some p" "link x n = Some q" using mn unfolding D_def dom_def by blast
    with eq have "link x m = link x n" by simp
    then show "m = n" using inj_onD [OF one] mn by blast
  qed
  have "(\<Sum>n<nextConn (server_of x). tokens_on t (up_frames c0 x n)) = (\<Sum>n\<in>D. tokens_on t (up_frames c0 x n))"
    by (rule sum.mono_neutral_right)
      (use D in \<open>auto simp: D_def up_frames_def tokens_on_def split: option.splits\<close>)
  also have "\<dots> = (\<Sum>n\<in>D. h (the (link x n)))"
    by (rule sum.cong) (auto simp: D_def h_def up_frames_def)
  also have "\<dots> = (\<Sum>p\<in>(\<lambda>n. the (link x n)) ` D. h p)"
    using sum.reindex [OF inj, of h] by (simp add: comp_def)
  also have "\<dots> \<le> (\<Sum>p\<in>{..<N} \<times> S. h p)"
  proof (rule sum_mono2)
    show "finite ({..<N} \<times> S)" using fin by (simp add: S_def)
    show "(\<lambda>n. the (link x n)) ` D \<subseteq> {..<N} \<times> S"
    proof
      fix p assume "p \<in> (\<lambda>n. the (link x n)) ` D"
      then obtain n where n: "n \<in> D" "p = the (link x n)" by blast
      then obtain k i where l: "link x n = Some (k, i)" unfolding D_def by auto
      then have "k < N" using ok unfolding linked_ok_def by blast
      moreover have "i \<in> S" unfolding S_def using n l by (force intro: image_eqI)
      ultimately show "p \<in> {..<N} \<times> S" using n l by simp
    qed
  qed simp
  also have "\<dots> = (\<Sum>k<N. \<Sum>i\<in>S. tokens_on t (sent_on i (fx (component c0 x k))))"
    by (simp add: sum.cartesian_product h_def)
  also have "\<dots> \<le> (\<Sum>k<N. count_list (tokens_sent (fx (component c0 x k))) t)"
    by (rule sum_mono) (use tokens_by_socket fr fin in \<open>simp add: S_def\<close>)
  finally show ?thesis .
qed

lemma component_traffic: "client_start (c0 k) \<Longrightarrow>
    traffic (mset (tokens_issued (page_history x k))) (component c0 x k)"
  using traffic_run [OF traffic_start, of "c0 k" "page_history x k"] by (simp add: component_def)

lemma tokens_issued_bound:
  assumes "client_start (c0 k)"
  shows "count_list (tokens_sent (fx (component c0 x k))) t \<le> count_list (tokens_issued (page_history x k)) t"
proof -
  have "mset (tokens_sent (fx (component c0 x k))) \<subseteq># mset (tokens_issued (page_history x k))"
    using component_traffic [of c0, OF assms] unfolding traffic_def
    by (blast intro: subset_mset.order_trans mset_subset_eq_add_left)
  then have "count (mset (tokens_sent (fx (component c0 x k)))) t \<le> count (mset (tokens_issued (page_history x k))) t"
    by (simp add: mset_subset_eq_count)
  then show ?thesis by (simp add: count_mset)
qed

lemma redeemed_bound:
  assumes ok: "linked_ok N c0 x" and start: "\<And>k. client_start (c0 k)"
  shows "count_list (redeemed (out (server_of x))) t \<le> (\<Sum>k<N. count_list (tokens_issued (page_history x k)) t)"
proof -
  let ?s = "server_of x"
  have "account_ok (server_history x) ?s" unfolding server_of_def by (rule account_run)
  then have "count_list (redeemed (out ?s)) t \<le> (\<Sum>n<nextConn ?s. count_tokens t (frames_to n (server_history x)))"
    unfolding account_ok_def by (meson add_leD1 le_trans)
  also have "\<dots> \<le> (\<Sum>n<nextConn ?s. tokens_on t (up_frames c0 x n))"
  proof (rule sum_mono)
    fix n
    have "frames_to n (server_history x) = map JsonText (take (arrived_up x n) (up_frames c0 x n))"
      using ok unfolding linked_ok_def by blast
    moreover have "tokens_on t (up_frames c0 x n) = tokens_on t (take (arrived_up x n) (up_frames c0 x n))
        + tokens_on t (drop (arrived_up x n) (up_frames c0 x n))"
      unfolding tokens_on_def by (simp flip: count_tokens_append map_append)
    ultimately show "count_tokens t (frames_to n (server_history x)) \<le> tokens_on t (up_frames c0 x n)"
      by (simp add: tokens_on_def)
  qed
  also have "\<dots> \<le> (\<Sum>k<N. count_list (tokens_sent (fx (component c0 x k))) t)"
    by (rule tokens_by_page [OF ok]) (use component_traffic [of c0, OF start] in \<open>simp add: traffic_def\<close>)
  also have "\<dots> \<le> (\<Sum>k<N. count_list (tokens_issued (page_history x k)) t)"
    by (rule sum_mono) (rule tokens_issued_bound [of c0, OF start])
  finally show ?thesis .
qed

lemma typed_in_order:
  assumes ok: "linked_ok N c0 x"
  shows "subseq (typed (server_of x) n) (concat (map (\<lambda>m. frame_inputs (JsonText m)) (up_frames c0 x n)))"
proof -
  have "account_ok (server_history x) (server_of x)" unfolding server_of_def by (rule account_run)
  then have "subseq (typed (server_of x) n) (concat (map frame_inputs (frames_to n (server_history x))))"
    unfolding account_ok_def by (blast intro: subseq_front)
  moreover have "frames_to n (server_history x) = map JsonText (take (arrived_up x n) (up_frames c0 x n))"
    using ok unfolding linked_ok_def by blast
  moreover have "subseq (concat (map f (take i xs))) (concat (map f xs))" for f :: "json \<Rightarrow> json list" and i xs
  proof -
    have "subseq (concat (map f (take i xs))) (concat (map f (take i xs)) @ concat (map f (drop i xs)))"
      by (rule subseq_extend) simp
    then show ?thesis by (simp flip: concat_append map_append)
  qed
  ultimately show ?thesis by (simp add: comp_def) (meson subseq_order.order_trans)
qed

section \<open>A page that types\<close>

definition sample_page_events :: "client_event list" where
  "sample_page_events = [TimerFires sample_env 1, TokenIssued sample_env sample_token, SocketOpened sample_env 0]"

lemma sample_page_sends:
  "sent_on 0 (fx (run client_step sample_client sample_page_events)) = [obj ''terminalToken'' sample_token]"
  "sent_on 0 (fx (run client_step sample_client (sample_page_events @ [TermData ''l'']))) =
     [obj ''terminalToken'' sample_token, obj ''message'' (JStr ''l'')]"
  "nextSocket (run client_step sample_client (take 2 sample_page_events)) = 1"
proof -
  have one: "client_step sample_connecting (TokenIssued sample_env sample_token) =
      sample_connecting\<lparr>timers := \<lparr>armed = [(3, TSessionStart), (2, TConnect 15000)], nextId = 4\<rparr>, starting := True,
        sessionStartTimeoutId := Some 3, pendingCommand := Some (obj ''terminalToken'' sample_token)\<rparr>"
    by (simp add: sample_connecting_def sample_calm_def client_eval socketIs_def)
  show "sent_on 0 (fx (run client_step sample_client sample_page_events)) = [obj ''terminalToken'' sample_token]"
    "sent_on 0 (fx (run client_step sample_client (sample_page_events @ [TermData ''l'']))) =
       [obj ''terminalToken'' sample_token, obj ''message'' (JStr ''l'')]"
    "nextSocket (run client_step sample_client (take 2 sample_page_events)) = 1"
    by (simp_all add: sample_page_events_def sample_first one del: client_step.simps One_nat_def)
      (simp_all add: sample_connecting_def sample_calm_def client_eval handleSocketOpen_def resetPingTimeout_def
        sendMessage_def on_term_data_def sent_on_def List.map_filter_def)
qed

text \<open>One page; its token is redeemed, its terminal starts and it types a letter.\<close>

abbreviation sample_pages :: "nat \<Rightarrow> client" where
  "sample_pages \<equiv> \<lambda>_. sample_client"

definition sample_linked :: config where
  "sample_linked = page_step 0 (SocketOpened sample_env 0) (connect_step 0 0 ''1'' sample_cookie
     (page_step 0 (TokenIssued sample_env sample_token) (page_step 0 (TimerFires sample_env 1) config_start)))"

definition sample_started :: config where
  "sample_started = host_step (TokenSettled 0 (TokenReply 200 (Some sample_command)))
     (up_step sample_pages 0 (host_step (IpsSettled 0 (IpsReply 200 (Some (Some [''H1''])))) sample_linked))"

definition sample_typing :: config where
  "sample_typing = up_step sample_pages 0 (page_step 0 (TermData ''l'') sample_started)"

lemma sample_config:
  "page_history sample_started 0 = sample_page_events" "server_history sample_started = sample_history"
  "link sample_started 0 = Some (0, 0)" "arrived_up sample_started 0 = 1"
  "page_history sample_typing 0 = sample_page_events @ [TermData ''l'']"
  "server_history sample_typing = sample_history @ [Message 0 (JsonText (obj ''message'' (JStr ''l'')))]"
proof -
  have h: "page_history sample_linked 0 = sample_page_events" "link sample_linked 0 = Some (0, 0)"
    "arrived_up sample_linked 0 = 0" "server_history sample_linked = [Connection ''1'' sample_cookie]"
    by (simp_all add: sample_linked_def connect_step_def config_start_def sample_page_events_def server_of_def server_start_def
        fun_upd_def)
  then have up: "up_frames sample_pages sample_linked 0 = [obj ''terminalToken'' sample_token]"
    using sample_page_sends(1) by (simp add: up_frames_def component_def)
  show st: "page_history sample_started 0 = sample_page_events" "server_history sample_started = sample_history"
    "link sample_started 0 = Some (0, 0)" "arrived_up sample_started 0 = 1"
    using h up by (simp_all add: sample_started_def up_step_def sample_history_def obj_def)
  then have up': "up_frames sample_pages (page_step 0 (TermData ''l'') sample_started) 0
      = [obj ''terminalToken'' sample_token, obj ''message'' (JStr ''l'')]"
    using sample_page_sends(2) by (simp add: up_frames_def component_def)
  show "page_history sample_typing 0 = sample_page_events @ [TermData ''l'']"
    "server_history sample_typing = sample_history @ [Message 0 (JsonText (obj ''message'' (JStr ''l'')))]"
    using st up' by (simp_all add: sample_typing_def up_step_def)
qed

lemma sample_network: "network 1 sample_pages b sample_started" "network 1 sample_pages b sample_typing"
proof -
  let ?x = "page_step 0 (TokenIssued sample_env sample_token) (page_step 0 (TimerFires sample_env 1) config_start)"
  have x: "network 1 sample_pages b ?x" by (intro net_page net_start) (simp_all add: page_event_def)
  have "page_history ?x 0 = take 2 sample_page_events" "link ?x = (\<lambda>_. None)"
    by (simp_all add: config_start_def sample_page_events_def)
  then have "0 < nextSocket (component sample_pages ?x 0)" "(0, 0) \<notin> ran (link ?x)"
    using sample_page_sends(3) by (simp_all add: component_def)
  then have "network 1 sample_pages b (connect_step 0 0 ''1'' sample_cookie ?x)"
    by (intro net_connect [OF x]) simp_all
  then have linked: "network 1 sample_pages b sample_linked"
    unfolding sample_linked_def by (rule net_page) (simp_all add: page_event_def)
  have u: "up_frames sample_pages sample_linked 0 = [obj ''terminalToken'' sample_token]" "arrived_up sample_linked 0 = 0"
    using sample_page_sends(1)
    by (simp_all add: up_frames_def component_def sample_linked_def connect_step_def config_start_def sample_page_events_def
        server_of_def server_start_def)
  then show started: "network 1 sample_pages b sample_started"
    unfolding sample_started_def by (intro net_host net_up linked) (simp_all add: host_event_def)
  let ?y = "page_step 0 (TermData ''l'') sample_started"
  have "network 1 sample_pages b ?y" by (rule net_page [OF started]) (simp_all add: page_event_def)
  moreover have "arrived_up ?y 0 < length (up_frames sample_pages ?y 0)"
    using sample_config sample_page_sends(2) by (simp add: up_frames_def component_def)
  ultimately show "network 1 sample_pages b sample_typing" unfolding sample_typing_def by (rule net_up)
qed

lemma sample_typed: "typed (server_of sample_typing) 0 = [JStr ''l'']"
proof -
  let ?m = "JsonText (obj ''message'' (JStr ''l''))"
  obtain s x where s: "run server_step server_start sample_history = s" "objs s 0 = Some x" "isActive x" "authReady x"
    "ptyProcess x = Some 0" "\<not> crashed s" "owner_of s 0 = Some 0"
  proof -
    obtain s x where r: "run server_step server_start sample_history = s" "objs s 0 = Some x" "isActive x"
      "ptyProcess x = Some 0" "\<not> crashed s"
      "ptys s 0 = Some \<lparr>pty_owner = 0, pty_ws = 0, pty_args = sample_args_spawned, pty_alive = True\<rparr>"
      using sample_run by blast
    moreover have "authReady x"
      using not_ready_not_active [OF server_run_inv [of sample_history]] r by blast
    ultimately show thesis using that by (simp add: owner_of_def)
  qed
  have quiet: "typed s 0 = []"
  proof -
    have "account_ok sample_history s" using account_run [of sample_history] s(1) by simp
    then have "subseq (typed s 0) (concat (map frame_inputs (frames_to 0 sample_history)))"
      unfolding account_ok_def by (blast intro: subseq_front)
    then show ?thesis
      by (simp add: sample_history_def frame_inputs_def frame_entries_def parseMessage_def values_of_def)
  qed
  have "server_of sample_typing = server_step s (Message 0 ?m)"
    using s(1) by (simp add: server_of_def sample_config)
  also have "\<dots> = emit [PtyWrite 0 (JStr ''l'')] s"
    using s by (simp add: server_step_def on_message_def handleMessage_def parseMessage_def obj_def handle_entry_def
        messageHandlers_def call_handler_def with_pty_def)
  finally show ?thesis
    using quiet s(7) by (simp add: typed_def owner_of_def written_def List.map_filter_def)
qed

section \<open>Claims\<close>

text \<open>C7: Pages never bring the server down. In every configuration of the network, with any number of
  pages whose components started as the code starts them, any timing of connections and frames, and
  any behaviour of Coolify, the hosts and the terminals, the server has thrown out of no callback.\<close>

theorem pages_never_crash_server:
  assumes "network N c0 bool_frame x" "\<And>k. client_start (c0 k)"
  shows "\<not> crashed (server_of x)"
  by (rule linked_alive [OF linked_network [OF assms]])

theorem pages_never_crash_server_witness: "\<not> crashed (server_of sample_typing)"
  by (rule pages_never_crash_server [OF sample_network(2) sample_client_start])

text \<open>C8: A token is used at most once from end to end. In every configuration the server has sent a
  token to Coolify at most as often as the pages together were issued it, whatever reconnects,
  buffering and lost frames happened in between.\<close>

theorem tokens_redeemed_once:
  assumes "network N c0 bool_frame x" "\<And>k. client_start (c0 k)"
  shows "count_list (redeemed (out (server_of x))) t \<le> (\<Sum>k<N. count_list (tokens_issued (page_history x k)) t)"
  by (rule redeemed_bound [OF linked_network [OF assms] assms(2)])

theorem tokens_redeemed_once_witness:
  "count_list (redeemed (out (server_of sample_started))) sample_token \<le> 1"
  using tokens_redeemed_once [OF sample_network(1) sample_client_start, of sample_token]
  by (simp add: sample_config sample_page_events_def tokens_issued_def List.map_filter_def issued_by_def)

text \<open>C9: Input is typed in order, once, and into the terminal of its own page. What the terminals
  of a connection were given is a subsequence of the input frames that the page behind the connection
  sent on that socket: nothing is reordered, repeated, invented or taken from another page.\<close>

theorem input_typed_in_order:
  assumes "network N c0 bool_frame x" "\<And>k. client_start (c0 k)" "link x n = Some (k, i)"
  shows "subseq (typed (server_of x) n)
    (concat (map (\<lambda>m. frame_inputs (JsonText m)) (sent_on i (fx (component c0 x k)))))"
  using typed_in_order [OF linked_network [OF assms(1,2)], of n] assms(3) by (simp add: up_frames_def)

theorem input_typed_in_order_witness:
  "subseq (typed (server_of sample_typing) 0) [JStr ''l''] \<and> typed (server_of sample_typing) 0 = [JStr ''l'']"
proof -
  have "link sample_typing 0 = Some (0, 0)"
    using sample_config(3) by (simp add: sample_typing_def up_step_def)
  from input_typed_in_order [OF sample_network(2) sample_client_start this] show ?thesis
    using sample_page_sends(2)
    by (simp add: sample_typed component_def sample_config frame_inputs_def frame_entries_def parseMessage_def obj_def
        values_of_def)
qed

end
