(* ===== verification/ServerIsolation.thy ===== *)
theory ServerIsolation
  imports ServerTraffic
begin

text \<open>
  Who gets what a terminal prints. As long as the random user ids of the connections are distinct, a
  connection receives the output of its own terminals only; everything else the server sends as text
  is one of a few protocol messages.
\<close>

section \<open>User ids\<close>

text \<open>\<open>r36\<close> is the random number in base 36, \<open>Math.random().toString(36)\<close>.\<close>

definition generateUserId :: "string \<Rightarrow> string" where
  "generateUserId r36 = take (11 - 2) (drop 2 r36)"

text \<open>Ids are distinct exactly when the random numbers differ in their first nine digits; the random
  number zero has no digits after the point and gives the empty id.\<close>

lemma generated_ids:
  "distinct (map (\<lambda>ds. generateUserId (''0.'' @ ds)) dss) \<longleftrightarrow> distinct (map (take 9) dss)" "generateUserId ''0'' = []"
  by (simp_all add: generateUserId_def)

section \<open>Protocol messages\<close>

definition protocol_text :: "string \<Rightarrow> bool" where
  "protocol_text x \<longleftrightarrow> x \<in> {''pty-ready'', ''pty-exited'', ''unprocessable'', ''pong''}
     \<or> js_startsWith x ''Invalid SSH command:'' \<or> js_startsWith x ''Unauthorized:''"

definition protocol_effect :: "effect \<Rightarrow> bool" where
  "protocol_effect e = (case e of SendStr n x \<Rightarrow> protocol_text x | _ \<Rightarrow> True)"

lemma protocol_texts [simp]:
  "protocol_text ''pty-ready''" "protocol_text ''pty-exited''" "protocol_text ''unprocessable''" "protocol_text ''pong''"
  "protocol_text (''Invalid SSH command: No target host found'')"
  "protocol_text (''Unauthorized: Target host '' @ h @ '' not in authorized list'')"
  "protocol_text (''Invalid SSH command: Unsupported SSH arguments'')"
  by (simp_all add: protocol_text_def js_startsWith_def)

lemma protocol_effects [simp]:
  "protocol_effect (SendStr n x) = protocol_text x" "protocol_effect (SendBool n b)" "protocol_effect (CloseWs n c x)"
  "protocol_effect (RejectSocket n w)" "protocol_effect (TerminateConn n)" "protocol_effect (PingConn n)"
  "protocol_effect (PostCoolify u h d)" "protocol_effect (SpawnPty p x a)" "protocol_effect (PtyWrite p v)"
  "protocol_effect (PtyWriteText p x)" "protocol_effect (PtyResize p v v')" "protocol_effect (PtyPause p)" "protocol_effect (PtyResume p)"
  by (simp_all add: protocol_effect_def)

section \<open>Operations on behalf of one connection\<close>

definition uid_of :: "server \<Rightarrow> conn \<Rightarrow> string option" where
  "uid_of s n = map_option userId (objs s n)"

fun own_cont :: "cont \<Rightarrow> bool" where
  "own_cont (AfterCommand ws n c) = (ws = n)"
| "own_cont _ = True"

fun own_task :: "(conn \<Rightarrow> string option) \<Rightarrow> task \<Rightarrow> bool" where
  "own_task f (KillWait n a k) = own_cont k"
| "own_task f (AwaitToken n) = (f n \<noteq> None)"
| "own_task f (AwaitIPs n) = True"

definition own_pty :: "pty \<Rightarrow> bool" where
  "own_pty y \<longleftrightarrow> pty_ws y = pty_owner y"

text \<open>Sessions keep their user ids and are not registered, terminals keep their sockets and new ones
  belong to the socket they print to, so do the tasks, and only protocol messages are sent.\<close>

definition mild :: "server \<Rightarrow> server \<Rightarrow> bool" where
  "mild s t \<longleftrightarrow> uid_of t = uid_of s \<and> nextConn t = nextConn s \<and> userSessions t \<subseteq>\<^sub>m userSessions s
     \<and> (list_all (own_task (uid_of s)) (tasks s) \<longrightarrow> list_all (own_task (uid_of s)) (tasks t))
     \<and> (pty_bound s \<longrightarrow> pty_bound t
          \<and> (\<forall>p. ptys s p \<noteq> None \<longrightarrow> owner_of t p = owner_of s p)
          \<and> ((\<forall>y\<in>ran (ptys s). own_pty y) \<longrightarrow> (\<forall>y\<in>ran (ptys t). own_pty y)))
     \<and> (\<exists>es. out t = out s @ es \<and> list_all protocol_effect es)"

lemma mild_same:
  "uid_of t = uid_of s \<Longrightarrow> nextConn t = nextConn s \<Longrightarrow> userSessions t = userSessions s \<Longrightarrow> tasks t = tasks s \<Longrightarrow> ptys t = ptys s \<Longrightarrow>
   nextPty t = nextPty s \<Longrightarrow> out t = out s \<Longrightarrow> mild s t"
  by (simp add: mild_def owner_of_def pty_bound_def)

lemma mild_refl [simp]: "mild s s"
  by (rule mild_same) simp_all

lemma mild_trans: "mild s t \<Longrightarrow> mild t u \<Longrightarrow> mild s u"
proof -
  assume st: "mild s t" and tu: "mild t u"
  have "ptys s p \<noteq> None \<Longrightarrow> owner_of t p = owner_of s p \<Longrightarrow> ptys t p \<noteq> None" for p
    by (cases "ptys t p") (auto simp: owner_of_def)
  moreover obtain es fs where "out t = out s @ es" "list_all protocol_effect es" "out u = out t @ fs" "list_all protocol_effect fs"
    using st tu unfolding mild_def by blast
  then have "\<exists>es. out u = out s @ es \<and> list_all protocol_effect es"
    by (intro exI [of _ "es @ fs"]) (simp add: list_all_append)
  ultimately show ?thesis using st tu unfolding mild_def by (auto intro: map_le_trans)
qed

lemma uid_sel [simp]:
  "uid_of (emit es s) = uid_of s" "uid_of (add_task k s) = uid_of s" "uid_of (uncaught s) = uid_of s"
  "uid_of (drop_task k s) = uid_of s" "uid_of (s\<lparr>userSessions := u\<rparr>) = uid_of s"
  "uid_of (s\<lparr>session_timers := ts\<rparr>) = uid_of s" "uid_of (s\<lparr>ptys := ps\<rparr>) = uid_of s"
  "uid_of (s\<lparr>nextPty := i\<rparr>) = uid_of s" "uid_of (s\<lparr>tasks := k'\<rparr>) = uid_of s"
  by (simp_all add: uid_of_def fun_eq_iff drop_task_def)

lemma uid_upd [simp]: "(\<And>x. userId (f x) = userId x) \<Longrightarrow> uid_of (upd n f s) = uid_of s"
  by (auto simp: uid_of_def fun_eq_iff option.map_comp comp_def)

lemma mild_upd: "(\<And>x. userId (f x) = userId x) \<Longrightarrow> mild s (upd n f s)"
  by (rule mild_same) simp_all

lemma mild_emit: "list_all protocol_effect es \<Longrightarrow> mild s (emit es s)"
  by (simp add: mild_def owner_of_def pty_bound_def)

lemma mild_add: "own_task (uid_of s) k \<Longrightarrow> mild s (add_task k s)"
  by (simp add: mild_def owner_of_def pty_bound_def)

lemma mild_drop: "mild s (drop_task k s)"
  by (auto simp: mild_def owner_of_def pty_bound_def drop_task_def uid_of_def list_all_iff dest: notin_set_remove1 set_mp [OF set_remove1_subset])

lemma mild_clear: "mild s (clear_session_timer n s)"
proof -
  have "uid_of (clear_session_timer n s) = uid_of s" "tasks (clear_session_timer n s) = tasks s"
    "userSessions (clear_session_timer n s) = userSessions s"
    by (simp_all add: clear_session_timer_def split: option.splits)
  then show ?thesis by (intro mild_same) simp_all
qed

lemma mild_timers: "mild s (s\<lparr>session_timers := ts\<rparr>)"
  by (rule mild_same) simp_all

lemma mild_spawn: "mild s (spawn_terminal n n args s)"
proof -
  have "pty_bound s \<Longrightarrow> ptys s (nextPty s) = None" by (auto simp: pty_bound_def)
  moreover have "uid_of (spawn_terminal n n args s) = uid_of s"
    by (auto simp: spawn_terminal_def Let_def uid_of_def fun_eq_iff upd_def option.map_comp comp_def split: prod.splits)
  ultimately show ?thesis
    by (auto simp: mild_def spawn_terminal_def Let_def owner_of_def pty_bound_def own_pty_def ran_def less_Suc_eq split: prod.splits)
qed

lemma mild_run_command: "mild s (run_command n n c s)"
proof -
  have "mild s (spawn_terminal n n args (clear_session_timer n s))" for args
    by (rule mild_trans [OF mild_clear mild_spawn])
  moreover have m: "protocol_text x \<Longrightarrow> mild s (emit [SendStr n x] (clear_session_timer n s))" for x
    by (rule mild_trans [OF mild_clear mild_emit]) simp
  ultimately show ?thesis
    using m [OF protocol_texts(5)] m [OF protocol_texts(6)] m [OF protocol_texts(7)] by (simp add: run_command_def Let_def)
qed

lemma mild_resume_kill: "own_cont k \<Longrightarrow> mild s (resume_kill k r s)"
proof -
  have "mild s (s\<lparr>userSessions := (userSessions s)(uid := None)\<rparr>)" for uid
    by (simp add: mild_def map_le_def owner_of_def pty_bound_def)
  then show "own_cont k \<Longrightarrow> mild s (resume_kill k r s)"
    by (cases k) (simp_all add: resume_kill_def mild_run_command mild_emit)
qed

lemma mild_attemptKill: "own_cont k \<Longrightarrow> mild s (attemptKill n a k s)"
proof -
  assume "own_cont k"
  then have "mild s (add_task (KillWait n a k) (emit [PtyWriteText p x] s))" for p x
    by (intro mild_trans [OF mild_emit mild_add]) simp_all
  then show ?thesis by (simp add: attemptKill_def split: option.splits)
qed

lemma mild_killPty: "own_cont k \<Longrightarrow> mild s (killPtyProcess uid k s)"
  by (simp add: killPtyProcess_def mild_attemptKill mild_resume_kill split: option.splits)

lemma mild_kill_check: "own_cont k \<Longrightarrow> mild s (kill_check n a k s)"
proof -
  assume k: "own_cont k"
  then have "mild s (resume_kill k True (clear_session_timer n s))"
    by (rule mild_trans [OF mild_clear mild_resume_kill])
  with k show ?thesis by (simp add: kill_check_def mild_attemptKill mild_resume_kill split: option.splits)
qed

lemma mild_handleToken: "objs s n = Some ss \<Longrightarrow> mild s (handleTerminalToken n t s)"
proof -
  assume "objs s n = Some ss"
  then have "mild s (add_task (AwaitToken n) (emit [PostCoolify u h b] s))" for u h b
    by (intro mild_trans [OF mild_emit mild_add]) (simp_all add: uid_of_def)
  then show ?thesis by (simp add: handleTerminalToken_def rejectTerminalToken_def mild_emit)
qed

lemma mild_call_handler: "objs s n = Some ss \<Longrightarrow> mild s (call_handler n ss h v s)"
proof -
  assume ss: "objs s n = Some ss"
  have "mild s (uncaught s)" by (rule mild_same) simp_all
  moreover from this have "(\<And>p. protocol_effect (f p)) \<Longrightarrow> mild s (with_pty ss f s)" for f
    by (simp add: with_pty_def mild_emit split: option.splits)
  ultimately show ?thesis
    by (cases h) (simp_all add: call_handler_def Let_def mild_handleToken [OF ss] mild_killPty mild_emit)
qed

lemma mild_handle_entries: "mild s (handle_entries n es s)"
proof (induction es arbitrary: s)
  case (Cons e es)
  have "mild s (handle_entry n e s)"
    by (simp add: handle_entry_def mild_call_handler split: option.splits)
  from mild_trans [OF this Cons.IH] show ?case by simp
qed simp

lemma mild_handleMessage: "mild s (handleMessage n m s)"
  by (simp add: handleMessage_def mild_handle_entries split: option.splits)

lemma mild_drain: "mild s (drain n ms s)"
proof (induction n ms s rule: drain.induct)
  case (2 n m ms s)
  have "mild s (handleMessage n m (buffer n ms s))"
    by (rule mild_trans [OF mild_upd mild_handleMessage]) simp
  with 2 show ?case by (auto intro: mild_trans)
qed simp

lemma mild_heartbeat: "mild s (heartbeat cs s)"
proof -
  have "mild s (emit [PingConn n] (upd n (\<lambda>x. x\<lparr>isAlive := False\<rparr>) s))" for n s
    by (rule mild_trans [OF mild_upd mild_emit]) simp_all
  then have "mild s (heartbeat_one n s)" for n s
    by (simp add: heartbeat_one_def mild_emit split: option.splits)
  then show ?thesis unfolding heartbeat_def
    by (induction cs arbitrary: s) (auto intro: mild_trans)
qed

lemma mild_pty_exit: "mild s (on_pty_exit p s)"
proof -
  have "mild s (emit [SendStr (pty_ws y) ''pty-exited''] (s\<lparr>ptys := (ptys s)(p \<mapsto> y\<lparr>pty_alive := False\<rparr>)\<rparr>))"
    if "ptys s p = Some y" for y
    using that by (auto simp: mild_def owner_of_def pty_bound_def own_pty_def ran_def)
  then show ?thesis
    unfolding on_pty_exit_def by (auto intro!: mild_trans [OF _ mild_clear] mild_trans [OF _ mild_upd] split: option.splits)
qed

section \<open>What holds of every history with distinct user ids\<close>

fun uids :: "server_event list \<Rightarrow> string list" where
  "uids [] = []"
| "uids (Connection uid sc # es) = uid # uids es"
| "uids (_ # es) = uids es"

fun printed :: "server_event list \<Rightarrow> (nat \<times> string) set" where
  "printed [] = {}"
| "printed (PtyData p x # es) = insert (p, x) (printed es)"
| "printed (_ # es) = printed es"

lemma uids_append [simp]: "uids (es @ fs) = uids es @ uids fs"
  by (induction es rule: uids.induct) simp_all

lemma printed_append [simp]: "printed (es @ fs) = printed es \<union> printed fs"
  by (induction es rule: printed.induct) simp_all

definition isolated :: "server_event list \<Rightarrow> server \<Rightarrow> bool" where
  "isolated es s \<longleftrightarrow> ran (uid_of s) \<subseteq> set (uids es) \<and> inj_on (uid_of s) (dom (uid_of s))
     \<and> dom (uid_of s) \<subseteq> {..<nextConn s}
     \<and> (\<forall>u n. userSessions s u = Some n \<longrightarrow> uid_of s n = Some u)
     \<and> list_all (own_task (uid_of s)) (tasks s) \<and> pty_bound s \<and> (\<forall>y\<in>ran (ptys s). own_pty y)
     \<and> (\<forall>n x. SendStr n x \<in> set (out s) \<longrightarrow>
          protocol_text x \<or> (\<exists>p. (p, x) \<in> printed es \<and> owner_of s p = Some n))"

lemma isolated_mild:
  assumes ok: "isolated es s" and m: "mild s t"
  shows "isolated (es @ [e]) t"
proof -
  obtain fs where fs: "out t = out s @ fs" "list_all protocol_effect fs" using m unfolding mild_def by blast
  have "owner_of s p = Some n \<Longrightarrow> owner_of t p = Some n" for p n
    using ok m unfolding isolated_def mild_def by (auto simp: owner_of_def)
  moreover have "SendStr n x \<in> set fs \<Longrightarrow> protocol_text x" for n x
    using fs(2) by (auto simp: list_all_iff)
  ultimately have "protocol_text x \<or> (\<exists>p. (p, x) \<in> printed (es @ [e]) \<and> owner_of t p = Some n)"
    if "SendStr n x \<in> set (out t)" for n x
    using that ok fs(1) unfolding isolated_def by simp blast
  moreover have "\<forall>u n. userSessions t u = Some n \<longrightarrow> uid_of t n = Some u"
    using ok m unfolding isolated_def mild_def map_le_def by (metis domI)
  ultimately show ?thesis using ok m unfolding isolated_def mild_def by auto
qed

lemma isolated_register:
  assumes ok: "isolated es s" and u: "uid_of s n = Some u"
  shows "isolated es (s\<lparr>userSessions := (userSessions s)(u \<mapsto> n)\<rparr>)"
  using assms by (simp add: isolated_def owner_of_def pty_bound_def)

lemma isolated_connection:
  assumes ok: "isolated es s" and new: "uid \<notin> set (uids es)"
  shows "isolated (es @ [Connection uid sc]) (on_connection uid sc s)"
proof -
  let ?n = "nextConn s" and ?t = "on_connection uid sc s"
  have fresh: "uid_of s ?n = None" using ok unfolding isolated_def by blast
  have uid: "uid_of ?t = (uid_of s)(?n \<mapsto> uid)"
    by (auto simp: on_connection_def Let_def uid_of_def new_session_def)
  have unused: "uid_of s m \<noteq> Some uid" for m using ok new unfolding isolated_def by (auto simp: ran_def)
  have "inj_on (uid_of ?t) (dom (uid_of ?t))"
  proof -
    have "inj_on (uid_of s) (dom (uid_of s))" using ok unfolding isolated_def by blast
    then show ?thesis using unused unfolding uid inj_on_def by (auto split: if_splits)
  qed
  moreover have "ran (uid_of ?t) \<subseteq> set (uids (es @ [Connection uid sc]))"
    using ok fresh unfolding uid isolated_def by auto
  moreover have "dom (uid_of ?t) \<subseteq> {..<nextConn ?t}"
    unfolding uid using ok unfolding isolated_def by (auto simp: on_connection_def Let_def less_Suc_eq)
  moreover have "\<forall>u n. userSessions ?t u = Some n \<longrightarrow> uid_of ?t n = Some u"
    unfolding uid using ok fresh unfolding isolated_def by (auto simp: on_connection_def Let_def)
  moreover have "list_all (own_task (uid_of ?t)) (tasks ?t)"
  proof -
    have "own_task (uid_of s) k \<Longrightarrow> own_task (uid_of ?t) k" for k unfolding uid by (cases k) auto
    then have "list_all (own_task (uid_of ?t)) (tasks s)" using ok unfolding isolated_def list_all_iff by blast
    moreover have "tasks ?t = tasks s \<or> tasks ?t = AwaitIPs ?n # tasks s" by (simp add: on_connection_def Let_def)
    ultimately show ?thesis by auto
  qed
  moreover have "protocol_text x \<or> (\<exists>p. (p, x) \<in> printed (es @ [Connection uid sc]) \<and> owner_of ?t p = Some n)"
    if "SendStr n x \<in> set (out ?t)" for n x
  proof -
    have "owner_of ?t = owner_of s" "SendStr n x \<in> set (out s)"
      using that by (auto simp: on_connection_def Let_def owner_of_def fun_eq_iff split: if_splits)
    then show ?thesis using ok unfolding isolated_def by simp
  qed
  moreover have "pty_bound ?t" "\<forall>y\<in>ran (ptys ?t). own_pty y"
    using ok unfolding isolated_def by (simp_all add: on_connection_def Let_def pty_bound_def)
  ultimately show ?thesis unfolding isolated_def by blast
qed

lemma isolated_data:
  assumes ok: "isolated es s"
  shows "isolated (es @ [PtyData p x]) (on_pty_data p x s)"
proof (cases "\<exists>y. ptys s p = Some y \<and> pty_alive y")
  case True
  then obtain y where y: "ptys s p = Some y" "pty_alive y" by blast
  let ?t = "on_pty_data p x s"
  have "owner_of s p = Some (pty_ws y)"
    using ok y unfolding isolated_def by (auto simp: owner_of_def own_pty_def ran_def)
  moreover have t: "?t = emit [SendStr (pty_ws y) x] s" using y by (simp add: on_pty_data_def)
  then have "owner_of ?t = owner_of s" by (simp add: owner_of_def fun_eq_iff)
  ultimately have "protocol_text z \<or> (\<exists>q. (q, z) \<in> printed (es @ [PtyData p x]) \<and> owner_of ?t q = Some n)"
    if "SendStr n z \<in> set (out ?t)" for n z
    using that ok t unfolding isolated_def by simp blast
  then show ?thesis using ok t unfolding isolated_def by (simp add: pty_bound_def)
next
  case False
  then have "on_pty_data p x s = s" by (auto simp: on_pty_data_def split: option.splits)
  with isolated_mild [OF ok mild_refl] show ?thesis by simp
qed

lemma isolated_token_settled:
  assumes ok: "isolated es s" and n: "uid_of s n \<noteq> None"
  shows "mild s (token_settled n r s)"
proof -
  have reject: "mild s (rejectTerminalToken n m s)" for m by (simp add: rejectTerminalToken_def mild_emit)
  have "mild s (handleCommand n c (userId ss) s)" if ss: "objs s n = Some ss" for c ss
  proof (cases "userSessions s (userId ss)")
    case (Some k)
    then have "uid_of s k = Some (userId ss)" "uid_of s n = Some (userId ss)" "inj_on (uid_of s) (dom (uid_of s))"
      using ok ss unfolding isolated_def by (auto simp: uid_of_def)
    then have "k = n" by (metis domI inj_onD)
    with Some show ?thesis
      by (simp add: handleCommand_def reject mild_killPty mild_run_command split: option.splits)
  qed (simp add: handleCommand_def reject)
  then show ?thesis
    using n by (auto simp: token_settled_def reject uid_of_def split: token_reply.splits option.splits)
qed

lemma isolated_ips_settled:
  assumes ok: "isolated es s"
  shows "isolated (es @ [IpsSettled n r]) (ips_settled n r s)"
proof -
  have closed: "isolated (es @ [IpsSettled n r]) (emit [CloseWs n 1011 w] s)" for w
    by (rule isolated_mild [OF ok mild_emit]) simp
  have "isolated (es @ [IpsSettled n r]) (drain n ms (upd n (\<lambda>x. x\<lparr>authorizedIPs := a, authReady := True\<rparr>)
      (s\<lparr>userSessions := (userSessions s)(userId ss \<mapsto> n)\<rparr>)))"
    if ss: "objs s n = Some ss" for ss a ms
  proof (rule isolated_mild [OF isolated_register [OF ok]])
    show "uid_of s n = Some (userId ss)" using ss by (simp add: uid_of_def)
  qed (rule mild_trans [OF mild_upd mild_drain], simp)
  moreover have "isolated (es @ [IpsSettled n r]) s" by (rule isolated_mild [OF ok mild_refl])
  ultimately show ?thesis
    using closed by (auto simp: ips_settled_def Let_def split: ips_reply.splits option.splits)
qed

lemma isolated_drop:
  assumes ok: "isolated es s" shows "isolated es (drop_task k s)"
proof -
  have "owner_of (drop_task k s) = owner_of s" "pty_bound (drop_task k s) = pty_bound s"
    by (simp_all add: owner_of_def pty_bound_def drop_task_def fun_eq_iff)
  moreover have "list_all (own_task (uid_of s)) (tasks (drop_task k s))"
    using ok set_remove1_subset [of k "tasks s"] unfolding isolated_def list_all_iff drop_task_def by auto
  ultimately show ?thesis using ok unfolding isolated_def by (simp add: drop_task_def)
qed

lemma isolated_task: "isolated es s \<Longrightarrow> k \<in> set (tasks s) \<Longrightarrow> own_task (uid_of s) k"
  unfolding isolated_def list_all_iff by blast

text \<open>Every event but a connection, a reply about the addresses and output is mild.\<close>

lemma mild_event:
  assumes ok: "isolated es s"
    and e: "\<And>uid sc. e \<noteq> Connection uid sc" "\<And>n r. e \<noteq> IpsSettled n r" "\<And>p x. e \<noteq> PtyData p x"
      "\<And>n r. e \<noteq> TokenSettled n r" "\<And>n a k. e \<noteq> KillTimer n a k"
  shows "mild s (server_event_step s e)"
proof (cases e)
  case (SessionTimeout i)
  have "mild s (killPtyProcess uid NoCont (s\<lparr>session_timers := ts\<rparr>))" for uid ts
    by (rule mild_trans [OF mild_timers mild_killPty]) simp
  with SessionTimeout show ?thesis by (simp add: on_session_timeout_def mild_refl split: option.split)
next
  case (Message n m)
  then show ?thesis by (simp add: on_message_def mild_handleMessage mild_upd mild_refl split: option.split)
qed (use e mild_pty_exit mild_killPty mild_heartbeat mild_upd in
    \<open>simp_all add: handleError_def handleClose_def mild_refl split: option.split\<close>)

lemma isolated_step:
  assumes ok: "isolated es s" and new: "distinct (uids (es @ [e]))"
  shows "isolated (es @ [e]) (server_step s e)"
proof -
  note idle = isolated_mild [OF ok mild_refl] and drop = isolated_drop [OF ok]
  have "isolated (es @ [e]) (server_event_step s e)"
  proof (cases e)
    case (Connection uid sc)
    with new isolated_connection [OF ok] show ?thesis by simp
  next
    case (IpsSettled n r)
    with idle isolated_ips_settled [OF drop] show ?thesis by simp
  next
    case (TokenSettled n r)
    with idle isolated_mild [OF drop isolated_token_settled [OF drop]] isolated_task [OF ok, of "AwaitToken n"]
    show ?thesis by simp
  next
    case (KillTimer n a k)
    with idle isolated_mild [OF drop mild_kill_check] isolated_task [OF ok, of "KillWait n a k"] show ?thesis by simp
  next
    case (PtyData p x)
    with isolated_data [OF ok] show ?thesis by simp
  qed (rule isolated_mild [OF ok mild_event [OF ok]]; simp)+
  with idle show ?thesis by (simp add: server_step_def)
qed

lemma isolated_run: "distinct (uids es) \<Longrightarrow> isolated es (run server_step server_start es)"
proof (induction es rule: rev_induct)
  case Nil
  have "uid_of server_start = (\<lambda>_. None)" by (simp add: uid_of_def server_start_def fun_eq_iff)
  then show ?case by (simp add: isolated_def) (simp add: server_start_def pty_bound_def)
next
  case (snoc e es)
  then show ?case using isolated_step [of es "run server_step server_start es" e] by simp
qed

section \<open>Claims\<close>

text \<open>C11: Terminal output stays with its connection. In every history in which the connections
  have distinct user ids, each text frame the server sent on a connection is a protocol message or
  was printed by a terminal that belongs to that connection.\<close>

theorem output_isolated:
  assumes "distinct (uids es)" "SendStr n x \<in> set (out (run server_step server_start es))"
  shows "protocol_text x \<or> (\<exists>p. (p, x) \<in> printed es \<and> owner_of (run server_step server_start es) p = Some n)"
  using isolated_run [OF assms(1)] assms(2) unfolding isolated_def by blast

theorem output_isolated_witness:
  "owner_of (run server_step server_start (sample_history @ [PtyData 0 ''root@host'', Connection ''2'' sample_cookie])) 0 = Some 0"
proof -
  let ?es = "sample_history @ [PtyData 0 ''root@host'', Connection ''2'' sample_cookie]"
  obtain s y where s: "run server_step server_start sample_history = s" "\<not> crashed s" "ptys s 0 = Some y" "pty_alive y" "pty_ws y = 0"
    using sample_run by auto
  then have "SendStr 0 ''root@host'' \<in> set (out (run server_step server_start ?es))"
    by (simp add: server_step_def on_pty_data_def on_connection_def Let_def)
  moreover have "distinct (uids ?es)" by (simp add: sample_history_def)
  ultimately have "protocol_text ''root@host'' \<or> (\<exists>p. (p, ''root@host'') \<in> printed ?es
      \<and> owner_of (run server_step server_start ?es) p = Some 0)" using output_isolated by blast
  moreover have "printed sample_history = {}" by (simp add: sample_history_def)
  moreover have "\<not> protocol_text ''root@host''" by (simp add: protocol_text_def js_startsWith_def)
  ultimately show ?thesis by simp
qed

end
