(* ===== verification/SystemOutput.thy ===== *)
theory SystemOutput
  imports TerminalSystem ServerIsolation
begin

text \<open>
  The way back through the network: what the pages write to their terminals are texts that terminals
  of their own connections printed.
\<close>

section \<open>What a component writes\<close>

definition writes :: "client_effect list \<Rightarrow> string set" where
  "writes es = {t. TermWrite t \<in> set es}"

lemma writes_append [simp]: "writes (es @ es') = writes es \<union> writes es'" "writes [] = {}"
  by (auto simp: writes_def)

lemma writes_quiet: "quiet W b s t \<Longrightarrow> writes (fx t) \<subseteq> writes (fx s) \<union> W"
proof -
  assume "quiet W b s t"
  then obtain es where es: "fx t = fx s @ es" "list_all (quiet_effect W) es" unfolding quiet_def by blast
  have "TermWrite x \<in> set es \<Longrightarrow> x \<in> W" for x using es(2) unfolding list_all_iff quiet_effect_def by fastforce
  with es(1) show ?thesis by (auto simp: writes_def)
qed

lemma writes_send [simp]: "writes (fx (sendMessage m s)) = writes (fx s)"
  by (cases rule: send_cases [of m s]) (simp_all add: writes_def)

interpretation write_host: session_host "\<lambda>t. writes (fx t) \<subseteq> W" "\<lambda>_. True" ensureWebSocketConnection for W
proof unfold_locales
  show "writes (fx (ensureWebSocketConnection v t)) \<subseteq> W" if "writes (fx t) \<subseteq> W" for v t
    using that writes_quiet [OF quiet_ensure [of "{}" t v]] by blast
qed (simp_all add: effect_def, simp add: writes_def)

lemma writes_begin: "writes (fx (beginTerminalSessionStart (ensureWebSocketConnection v) s)) \<subseteq> writes (fx s)"
  by (rule write_host.keeps_begin) simp_all

lemma writes_opened: "writes (fx (handleSocketOpen v s)) = writes (fx s)"
  by (auto simp: handleSocketOpen_def Let_def resetPingTimeout_def arm_eq sendMessage_def writes_def split: option.split)

lemma writes_step: "writes (fx (client_step s e)) \<subseteq> writes (fx s) \<union> shown_by e"
proof (cases "opens_or_tokens e")
  case False
  from writes_quiet [OF quiet_step [OF this subset_refl, of False s]] show ?thesis by simp
next
  case True
  show ?thesis
  proof (cases e)
    case (SocketOpened v i)
    with writes_opened [of v "s\<lparr>readyState := (readyState s)(i := WsOpen)\<rparr>"] show ?thesis by simp
  next
    case (TokenIssued v t)
    let ?b = "beginTerminalSessionStart (ensureWebSocketConnection v) s"
    have "writes (fx (sendCommandWhenReady (obj ''terminalToken'' t) ?b)) = writes (fx ?b)"
      by (simp add: sendCommandWhenReady_def)
    with TokenIssued writes_begin [of v s] show ?thesis by (auto simp: onTerminalToken_def)
  next
    case (StartRequested v)
    with writes_begin [of v s] show ?thesis by auto
  qed (use True in \<open>simp_all add: opens_or_tokens_def\<close>)
qed

lemma writes_run: "writes (fx (run client_step s es)) \<subseteq> writes (fx s) \<union> \<Union> (shown_by ` set es)"
proof (induction es arbitrary: s)
  case (Cons e es)
  from Cons.IH [of "client_step s e"] writes_step [of s e] show ?case by simp blast
qed simp

lemma start_writes: "client_start s \<Longrightarrow> writes (fx s) = {}"
  unfolding client_start_def
  by (elim exE conjE)
    (simp add: client_init_def setupTerminal_def once_def arm_eq updateInset_def terminalData_def
      armTerminalSessionStartTimeout_def clearSessionStartTimeout_def later_def Let_def split_beta writes_def)

lemma shown_text_frame: "shown_text d = Some t \<Longrightarrow> d = TextFrame t \<and> \<not> protocol_text t"
  by (auto simp: shown_text_def protocol_text_def classifyTerminalServerMessage_def split: ws_data.splits if_splits)

section \<open>What a page receives\<close>

text \<open>Every frame in a page's history was sent by the server on the connection of that socket.\<close>

definition fed :: "(bool \<Rightarrow> ws_data) \<Rightarrow> config \<Rightarrow> bool" where
  "fed bool_frame x \<longleftrightarrow>
     (\<forall>k v i d. SocketMessage v i d \<in> set (page_history x k) \<longrightarrow>
        (\<exists>n. link x n = Some (k, i) \<and> d \<in> set (down_frames bool_frame x n)))"

lemma sent_to_append: "sent_to b n (es @ es') = sent_to b n es @ sent_to b n es'"
  by (simp add: sent_to_def)

lemma down_host: "set (down_frames b x n) \<subseteq> set (down_frames b (host_step e x) n)"
proof -
  obtain es where "out (server_step (server_of x) e) = out (server_of x) @ es"
    using post_step [of "server_of x" e] unfolding emits_def by blast
  then show ?thesis by (simp add: down_frames_def sent_to_append)
qed

lemma down_page [simp]: "down_frames b (page_step k e x) = down_frames b x"
  by (simp add: down_frames_def fun_eq_iff)

lemma fed_page: "fed b x \<Longrightarrow> page_event e \<Longrightarrow> fed b (page_step k e x)"
  unfolding fed_def page_event_def by (auto split: if_splits)

lemma fed_host: "fed b x \<Longrightarrow> fed b (host_step e x)"
  using down_host [of b x _ e] unfolding fed_def by fastforce

lemma fed_network:
  assumes "network N c0 b x" "\<And>k. client_start (c0 k)"
  shows "fed b x"
  using assms(1)
proof induction
  case net_start
  show ?case by (simp add: fed_def config_start_def)
next
  case (net_connect x k i uid sc)
  have new: "link x (nextConn (server_of x)) = None"
    using linked_network [OF net_connect.hyps(1) assms(2)] unfolding linked_ok_def by blast
  have "fed b (host_step (Connection uid sc) x)" by (rule fed_host [OF net_connect.IH])
  moreover have "down_frames b (y\<lparr>link := l\<rparr>) = down_frames b y" for y l by (simp add: down_frames_def fun_eq_iff)
  ultimately show ?case using new unfolding fed_def connect_step_def by (auto simp del: fun_upd_apply) (metis fun_upd_apply option.distinct(1))
next
  case (net_up x n)
  have "fed b (host_step e x)" for e by (rule fed_host [OF net_up.IH])
  moreover have "down_frames b (y\<lparr>arrived_up := a\<rparr>) = down_frames b y" for y a by (simp add: down_frames_def fun_eq_iff)
  ultimately show ?case unfolding fed_def up_step_def by simp
next
  case (net_down x n k i v)
  have "down_frames b (y\<lparr>arrived_down := a\<rparr>) = down_frames b y" for y a by (simp add: down_frames_def fun_eq_iff)
  with net_down.IH net_down.hyps nth_mem [OF net_down.hyps(3)] show ?case unfolding fed_def down_step_def by auto
qed (use fed_page fed_host in blast)+

lemma down_frame_cases:
  assumes "TextFrame t \<in> set (down_frames b x n)"
  obtains "SendStr n t \<in> set (out (server_of x))" | f where "TextFrame t = b f"
  | ws where "RejectSocket n ws \<in> set (out (server_of x))" "SendText t \<in> set ws"
proof -
  obtain e where e: "e \<in> set (out (server_of x))" "TextFrame t \<in> set (server_frames b n e)"
    using assms unfolding down_frames_def sent_to_def by auto
  show thesis
  proof (cases e)
    case (RejectSocket m ws)
    then have "m = n" "SendText t \<in> set ws"
      using e(2) by (auto simp: server_frames_def split: if_splits ws_effect.splits)
    with RejectSocket e(1) that show thesis by blast
  qed (use e that in \<open>auto simp: server_frames_def split: if_splits\<close>)
qed

lemma rejection_protocol: "ws \<in> set rejection_effects \<Longrightarrow> SendText t \<in> set ws \<Longrightarrow> protocol_text t"
  by (auto simp: rejection_effects_def rejections_def rejectTerminalSocket_def protocol_text_def js_startsWith_def)

lemma shown_own:
  assumes "linked_ok N c0 x" "fed b x" "\<And>k. client_start (c0 k)" "distinct (uids (server_history x))"
    and "TermWrite t \<in> set (fx (component c0 x k))"
  shows "(\<exists>n i p. link x n = Some (k, i) \<and> (p, t) \<in> printed (server_history x) \<and> owner_of (server_of x) p = Some n)
    \<or> TextFrame t \<in> range b"
proof -
  have "t \<in> \<Union> (shown_by ` set (page_history x k))"
    using writes_run [of "c0 k" "page_history x k"] start_writes [OF assms(3)] assms(5)
    unfolding component_def writes_def by blast
  then obtain e' where e': "e' \<in> set (page_history x k)" "t \<in> shown_by e'" by blast
  obtain v i d where e: "SocketMessage v i d \<in> set (page_history x k)" "shown_text d = Some t"
  proof (cases e')
    case (SocketMessage v i d)
    with e' that show thesis by (simp add: shown_by_def)
  qed (use e' in \<open>simp_all add: shown_by_def\<close>)
  note d = shown_text_frame [OF e(2)]
  obtain n where n: "link x n = Some (k, i)" "TextFrame t \<in> set (down_frames b x n)"
    using assms(2) e(1) d unfolding fed_def by blast
  from n(2) show ?thesis
  proof (cases rule: down_frame_cases)
    case 1
    have "isolated (server_history x) (server_of x)" unfolding server_of_def by (rule isolated_run [OF assms(4)])
    with 1 d n(1) show ?thesis unfolding isolated_def by blast
  next
    case (2 f)
    then show ?thesis by auto
  next
    case (3 ws)
    have "effect_ok (RejectSocket n ws)"
      using posts_of_run [of "server_history x"] 3(1) unfolding server_of_def list_all_iff by blast
    then have "protocol_text t" using rejection_protocol 3(2) by (simp add: effect_ok_def)
    with d show ?thesis by blast
  qed
qed

section \<open>A page that shows a prompt\<close>

lemma sample_out:
  "sent_to b 0 (out (run server_step server_start (sample_history @ [PtyData 0 ''root@host'']))) =
     [TextFrame ''pty-ready'', TextFrame ''root@host'']"
proof -
  define s where "s = run server_step server_start (take 3 sample_history)"
  have s: "objs s 0 = Some sample_ready" "userSessions s ''1'' = Some 0" "\<not> crashed s" "AwaitToken 0 \<in> set (tasks s)"
    using sample_prefix unfolding s_def by auto
  have quiet: "sent_to b 0 (out s) = []"
    unfolding s_def sample_history_def run_def
    by (simp add: server_step_def on_connection_def server_start_def sample_cookie_def truthy_def Let_def
        new_session_def drop_task_def ips_settled_def on_message_def handleMessage_def parseMessage_def handle_entry_def
        messageHandlers_def open_keys_def call_handler_def handleTerminalToken_def sample_is_token sent_to_def server_frames_def)
  have r: "\<not> isActive sample_ready" "userId sample_ready = ''1''" "authorizedIPs sample_ready = [''H1'']"
    by (simp_all add: sample_ready_def new_session_def sample_cookie_def)
  let ?c = "clear_session_timer 0 (drop_task (AwaitToken 0) s)"
  have tty: "''RequestTTY=no'' \<notin> set sample_args" by (simp add: sample_args_def sample_items_def)
  have ws: "list_all (\<lambda>c. \<not> is_ws c) ''EOF-HERE''" by (simp add: is_ws_def code_def)
  have ix: "js_indexOf (CHR '' '' # (flatten_lines ''exec sh'' @ '' '') @ ''EOF-HERE'') ''EOF-HERE'' = Some (Suc (length ''exec sh'' + 1))"
    by (simp add: flatten_lines_def js_startsWith_def)
  obtain a where "server_step s (TokenSettled 0 (TokenReply 200 (Some sample_command))) = spawn_terminal 0 0 a ?c"
    using generated_spawn [OF s(1) r(1) _ s(4,3) _ tty sample_chars _ ws ix] s(2) r(2,3) sample_valid
    unfolding sample_command_def by auto
  moreover have "run server_step server_start sample_history = server_step s (TokenSettled 0 (TokenReply 200 (Some sample_command)))"
    by (simp add: s_def sample_history_def)
  moreover have "out ?c = out s" by (simp add: drop_task_def)
  moreover have "out (spawn_terminal 0 0 a ?c) = out ?c @ [SpawnPty (nextPty ?c) ''ssh'' a, SendStr 0 ''pty-ready'']" for a
    by (simp add: spawn_terminal_def Let_def split: prod.split)
  ultimately have "sent_to b 0 (out (run server_step server_start sample_history)) = [TextFrame ''pty-ready'']"
    using quiet by (simp add: sent_to_append) (simp add: sent_to_def server_frames_def)
  moreover obtain z y where "run server_step server_start sample_history = z" "\<not> crashed z" "ptys z 0 = Some y" "pty_alive y" "pty_ws y = 0"
    using sample_run by auto
  ultimately show ?thesis
    by (simp add: server_step_def on_pty_data_def sent_to_append) (simp add: sent_to_def server_frames_def)
qed

definition sample_prompt_events :: "client_event list" where
  "sample_prompt_events = sample_page_events @
     [SocketMessage sample_env 0 (TextFrame ''pty-ready''), SocketMessage sample_env 0 (TextFrame ''root@host'')]"

lemma sample_shows: "TermWrite ''root@host'' \<in> set (fx (run client_step sample_client sample_prompt_events))"
proof -
  have one: "client_step sample_connecting (TokenIssued sample_env sample_token) =
      sample_connecting\<lparr>timers := \<lparr>armed = [(3, TSessionStart), (2, TConnect 15000)], nextId = 4\<rparr>, starting := True,
        sessionStartTimeoutId := Some 3, pendingCommand := Some (obj ''terminalToken'' sample_token)\<rparr>"
    by (simp add: sample_connecting_def sample_calm_def client_eval socketIs_def)
  show ?thesis
    by (simp add: sample_prompt_events_def sample_page_events_def sample_first one del: client_step.simps One_nat_def)
      (simp add: sample_connecting_def sample_calm_def client_eval handleSocketOpen_def resetPingTimeout_def sendMessage_def
        handleSocketMessage_def on_pty_ready_def completeTerminalSessionStart_def startTerminalSessionCountdown_def
        updateTerminalSessionCountdown_def resizeTerminal_def sample_env_def write_output_def classifyTerminalServerMessage_def
        AUTH_REJECTION_MESSAGES_def js_startsWith_def)
qed

abbreviation no_frame :: "bool \<Rightarrow> ws_data" where
  "no_frame \<equiv> \<lambda>_. OtherFrame"

definition sample_printing :: config where
  "sample_printing = host_step (PtyData 0 ''root@host'') sample_started"

definition sample_prompt :: config where
  "sample_prompt = down_step no_frame 0 0 0 sample_env (down_step no_frame 0 0 0 sample_env sample_printing)"

lemma sample_prompt_network: "network 1 sample_pages no_frame sample_prompt"
  "page_history sample_prompt 0 = sample_prompt_events" "link sample_prompt 0 = Some (0, 0)" "arrived_down sample_prompt 0 = 2"
  "server_history sample_prompt = sample_history @ [PtyData 0 ''root@host'']"
proof -
  have p: "network 1 sample_pages no_frame sample_printing"
    unfolding sample_printing_def by (rule net_host [OF sample_network(1)]) (simp add: host_event_def)
  have h: "server_history sample_printing = sample_history @ [PtyData 0 ''root@host'']" "link sample_printing 0 = Some (0, 0)"
    "page_history sample_printing 0 = sample_page_events"
    by (simp_all add: sample_printing_def sample_config)
  have a: "arrived_down sample_printing 0 = 0"
    by (simp add: sample_printing_def sample_started_def up_step_def sample_linked_def connect_step_def config_start_def)
  have d: "down_frames no_frame sample_printing 0 = [TextFrame ''pty-ready'', TextFrame ''root@host'']"
    using sample_out h(1) by (simp add: down_frames_def server_of_def)
  let ?y = "down_step no_frame 0 0 0 sample_env sample_printing"
  have y: "down_frames no_frame ?y 0 = down_frames no_frame sample_printing 0" "arrived_down ?y 0 = 1" "link ?y 0 = Some (0, 0)"
    "page_history ?y 0 = sample_page_events @ [SocketMessage sample_env 0 (TextFrame ''pty-ready'')]"
    "server_history ?y = server_history sample_printing"
    using a d h by (simp_all add: down_step_def down_frames_def)
  have "network 1 sample_pages no_frame ?y" by (rule net_down [OF p h(2)]) (simp add: a d)
  then show "network 1 sample_pages no_frame sample_prompt"
    unfolding sample_prompt_def by (rule net_down [OF _ y(3)]) (simp add: y(1,2) d)
  show "page_history sample_prompt 0 = sample_prompt_events" "link sample_prompt 0 = Some (0, 0)" "arrived_down sample_prompt 0 = 2"
    "server_history sample_prompt = sample_history @ [PtyData 0 ''root@host'']"
    using y d h by (simp_all add: sample_prompt_def sample_prompt_events_def down_step_def [of _ _ _ _ _ ?y])
qed

section \<open>Claims\<close>



end
