(* ===== verification/LogText.thy ===== *)
theory LogText
  imports JSPrelude "HOL-Library.Char_ord" "HOL-Library.List_Lexorder" "HOL-Library.Multiset"
begin

text \<open>
  The text functions of the log viewer, resources/js/runtime-logs.js: reading docker's
  output into lines, the level of a line, what a \<open>--since\<close> request adds, filtering and
  highlighting. Time stamps are compared as strings, in the order of their code units.
\<close>

section \<open>Levels\<close>

definition MAX_CLIENT_LOG_LINES :: nat where "MAX_CLIENT_LOG_LINES = 50000"
definition STREAM_INTERVAL_MS :: nat where "STREAM_INTERVAL_MS = 2000"
definition ESTIMATED_ROW_HEIGHT :: nat where "ESTIMATED_ROW_HEIGHT = 44"

text \<open>The class \<open>\w\<close>, and the search for \<open>\b(w1|w2|...)\b\<close>: \<open>p\<close> says whether the character
  before the text is one of the class.\<close>

definition word_char :: "char \<Rightarrow> bool" where
  "word_char c \<longleftrightarrow> is_alnum c \<or> c = CHR ''_''"

definition ends_word :: "string \<Rightarrow> string \<Rightarrow> bool" where
  "ends_word w s \<longleftrightarrow>
     word_char (last w) \<noteq> (case drop (length w) s of [] \<Rightarrow> False | d # _ \<Rightarrow> word_char d)"

fun has_word :: "string list \<Rightarrow> bool \<Rightarrow> string \<Rightarrow> bool" where
  "has_word ws p [] = False"
| "has_word ws p (c # cs) =
     ((word_char c \<noteq> p \<and> list_ex (\<lambda>w. js_startsWith (c # cs) w \<and> ends_word w (c # cs)) ws)
      \<or> has_word ws (word_char c) cs)"

definition error_words :: "string list" where
  "error_words = [''error'', ''err'', ''failed'', ''failure'', ''exception'', ''fatal'', ''panic'', ''critical'']"

definition warning_words :: "string list" where
  "warning_words = [''warn'', ''warning'', ''wrn'', ''caution'']"

definition debug_words :: "string list" where
  "debug_words = [''debug'', ''dbg'', ''trace'', ''verbose'']"

definition getLogLevel :: "string \<Rightarrow> string" where
  "getLogLevel content =
     (if has_word error_words False content then ''error''
      else if has_word warning_words False content then ''warning''
      else if has_word debug_words False content then ''debug''
      else ''info'')"

section \<open>Lines\<close>

record log_line =
  line_id :: nat
  ts :: string
  line_text :: string
  lower :: string
  level :: string

text \<open>\<open>TIMESTAMP_PATTERN\<close>; in a shape, a zero stands for a digit.\<close>

definition fits :: "string \<Rightarrow> string \<Rightarrow> bool" where
  "fits p s \<longleftrightarrow> list_all2 (\<lambda>q c. if q = CHR ''0'' then is_digit c else c = q) p s"

definition fraction :: "string \<Rightarrow> string" where
  "fraction r =
     (case r of
        [] \<Rightarrow> []
      | c # cs \<Rightarrow> if c = CHR ''.'' \<and> takeWhile is_digit cs \<noteq> [] then c # takeWhile is_digit cs else [])"

definition split_timestamp :: "string \<Rightarrow> (string \<times> string) option" where
  "split_timestamp s =
     (if fits ''0000-00-00T00:00:00'' (take 19 s)
      then (let f = fraction (drop 19 s); r = drop (length f) (drop 19 s) in
            if js_startsWith r ''Z '' then Some (take 19 s @ f @ ''Z'', drop 2 r) else None)
      else None)"

definition parse_line :: "nat \<Rightarrow> string \<Rightarrow> log_line" where
  "parse_line i raw =
     (let (t, x) = (case split_timestamp raw of Some m \<Rightarrow> m | None \<Rightarrow> ([], raw));
          l = js_lower x
      in \<lparr>line_id = i, ts = t, line_text = x, lower = l, level = getLogLevel l\<rparr>)"

fun parse_raws :: "string list \<Rightarrow> nat \<Rightarrow> log_line list \<times> nat" where
  "parse_raws [] n = ([], n)"
| "parse_raws (raw # raws) n =
     (if js_trim raw = [] then parse_raws raws n
      else (let (ls, m) = parse_raws raws (Suc n) in (parse_line (Suc n) raw # ls, m)))"

text \<open>The counter behind \<open>nextId\<close> is threaded through.\<close>

definition parseLogLines :: "string option \<Rightarrow> nat \<Rightarrow> log_line list \<times> nat" where
  "parseLogLines output n = parse_raws (js_split lf (case output of None \<Rightarrow> [] | Some s \<Rightarrow> s)) n"

section \<open>Following\<close>

definition lastTimestamp :: "log_line list \<Rightarrow> string option" where
  "lastTimestamp ls = map_option ts (find (\<lambda>l. ts l \<noteq> []) (rev ls))"

fun count_seen :: "log_line list \<Rightarrow> (string \<Rightarrow> nat) \<Rightarrow> string \<Rightarrow> nat" where
  "count_seen [] m = m"
| "count_seen (l # ls) m = count_seen ls (m(line_text l := Suc (m (line_text l))))"

definition seenAtBoundary :: "log_line list \<Rightarrow> string \<Rightarrow> string \<Rightarrow> nat" where
  "seenAtBoundary existing lastTs = count_seen (takeWhile (\<lambda>l. ts l = lastTs) (rev existing)) (\<lambda>_. 0)"

fun drop_seen :: "string \<Rightarrow> (string \<Rightarrow> nat) \<Rightarrow> log_line list \<Rightarrow> log_line list" where
  "drop_seen lastTs seen [] = []"
| "drop_seen lastTs seen (l # ls) =
     (if ts l = [] then l # drop_seen lastTs seen ls
      else if ts l < lastTs then drop_seen lastTs seen ls
      else if lastTs < ts l then l # drop_seen lastTs seen ls
      else if seen (line_text l) = 0 then l # drop_seen lastTs seen ls
      else drop_seen lastTs (seen(line_text l := seen (line_text l) - 1)) ls)"

definition newLinesSince :: "log_line list \<Rightarrow> log_line list \<Rightarrow> log_line list" where
  "newLinesSince existing incoming =
     (case lastTimestamp existing of
        None \<Rightarrow> incoming
      | Some lastTs \<Rightarrow> drop_seen lastTs (seenAtBoundary existing lastTs) incoming)"

section \<open>Finding\<close>

record key_event =
  ctrlKey :: bool
  metaKey :: bool
  altKey :: bool
  shiftKey :: bool
  key :: "string option"

definition isFindShortcut :: "key_event \<Rightarrow> bool" where
  "isFindShortcut e \<longleftrightarrow>
     (ctrlKey e \<or> metaKey e) \<and> \<not> altKey e \<and> \<not> shiftKey e \<and> map_option js_lower (key e) = Some ''f''"

definition filterLogLines :: "log_line list \<Rightarrow> (string \<times> json) list \<Rightarrow> string \<Rightarrow> log_line list" where
  "filterLogLines ls filters query =
     (let needle = js_lower (js_trim query)
      in filter (\<lambda>l. map_of filters (level l) \<noteq> Some (JBool False) \<and> (needle = [] \<or> js_includes (lower l) needle)) ls)"

record segment =
  seg_text :: string
  matching :: bool

text \<open>\<open>s.indexOf(p, k)\<close> and \<open>s.substring(i, j)\<close> for \<open>i \<le> j\<close>.\<close>

definition indexOf_from :: "string \<Rightarrow> string \<Rightarrow> nat \<Rightarrow> nat option" where
  "indexOf_from s p k = map_option (\<lambda>i. k + i) (js_indexOf (drop k s) p)"

definition substring :: "string \<Rightarrow> nat \<Rightarrow> nat \<Rightarrow> string" where
  "substring s i j = take (j - i) (drop i s)"

lemma indexOf_from_Some:
  assumes "indexOf_from s p k = Some i"
  shows "k \<le> i" "i + length p \<le> max k (length s)" "take (length p) (drop i s) = p"
proof -
  obtain j where j: "js_indexOf (drop k s) p = Some j" "i = k + j"
    using assms by (auto simp: indexOf_from_def)
  from js_indexOf_Some [OF j(1)] j(2)
  show "k \<le> i" "i + length p \<le> max k (length s)" "take (length p) (drop i s) = p"
    by (auto simp: add.commute)
qed

text \<open>The loop: \<open>lastIndex\<close> is the end of the last match. The needle is not empty.\<close>

function highlight_loop :: "string \<Rightarrow> string \<Rightarrow> string \<Rightarrow> nat \<Rightarrow> segment list" where
  "highlight_loop text' lowerText needle lastIndex =
     (if needle = [] then []
      else
        (case indexOf_from lowerText needle lastIndex of
           None \<Rightarrow>
             (if lastIndex < length text'
              then [\<lparr>seg_text = drop lastIndex text', matching = False\<rparr>] else [])
         | Some index \<Rightarrow>
             (if lastIndex < index then [\<lparr>seg_text = substring text' lastIndex index, matching = False\<rparr>] else [])
             @ \<lparr>seg_text = substring text' index (index + length needle), matching = True\<rparr>
             # highlight_loop text' lowerText needle (index + length needle)))"
  by pat_completeness auto

termination
proof (relation "measure (\<lambda>(t, l, n, k). length l - k)")
  fix t l n :: string and k i
  assume n: "n \<noteq> []" and i: "indexOf_from l n k = Some i"
  obtain m where "length n = Suc m" using n by (cases n) auto
  with indexOf_from_Some [OF i] have "k \<le> i" "i + length n \<le> length l" "length n = Suc m" by (auto simp: max_def split: if_splits)
  then show "((t, l, n, i + length n), (t, l, n, k)) \<in> measure (\<lambda>(t, l, n, k). length l - k)" by simp
qed simp

declare highlight_loop.simps [simp del]

definition highlightSegments :: "string \<Rightarrow> string \<Rightarrow> segment list" where
  "highlightSegments text' query =
     (let needle = js_lower (js_trim query) in
      if needle = [] then [\<lparr>seg_text = text', matching = False\<rparr>]
      else highlight_loop text' (js_lower text') needle 0)"

section \<open>Time stamps for display\<close>

text \<open>\<open>Intl.DateTimeFormat\<close> and \<open>Date\<close> belong to the browser: \<open>intl z\<close> is the formatter of a time
  zone, if there is one, which turns a date into typed parts; \<open>parse_date\<close> reads a date.\<close>

definition part :: "string \<Rightarrow> (string \<times> string) list \<Rightarrow> string" where
  "part k parts = (case map_of (rev parts) k of None \<Rightarrow> ''undefined'' | Some v \<Rightarrow> v)"

definition createTimestampFormatter ::
    "(string \<Rightarrow> ('d \<Rightarrow> (string \<times> string) list) option) \<Rightarrow> (string \<Rightarrow> 'd option) \<Rightarrow> string option \<Rightarrow> string \<Rightarrow> string" where
  "createTimestampFormatter intl parse_date timeZone stamp =
     (let zone = (if truthy timeZone then the timeZone else ''UTC'');
          formatter = (case intl zone of Some f \<Rightarrow> f | None \<Rightarrow> the (intl ''UTC''))
      in case parse_date (take 19 stamp @ ''Z'') of
           None \<Rightarrow> []
         | Some d \<Rightarrow>
             (let parts = formatter d in
              part ''year'' parts @ ''-'' @ part ''month'' parts @ ''-'' @ part ''day'' parts @ '' ''
              @ part ''hour'' parts @ '':'' @ part ''minute'' parts @ '':'' @ part ''second'' parts))"

section \<open>Levels: the search and the words of a text\<close>

text \<open>The words of a text are its maximal runs of word characters.\<close>

function words_of :: "string \<Rightarrow> string list" where
  "words_of s =
     (case dropWhile (\<lambda>c. \<not> word_char c) s of
        [] \<Rightarrow> []
      | c # cs \<Rightarrow> (c # takeWhile word_char cs) # words_of (dropWhile word_char cs))"
  by pat_completeness auto

termination
proof (relation "measure length")
  fix s c cs
  assume "dropWhile (\<lambda>c. \<not> word_char c) s = c # cs"
  then have "length (c # cs) \<le> length s" by (metis length_dropWhile_le)
  moreover have "length (dropWhile word_char cs) \<le> length cs" by (rule length_dropWhile_le)
  ultimately show "(dropWhile word_char cs, s) \<in> measure length" by simp
qed simp

declare words_of.simps [simp del]

definition plain_word :: "string \<Rightarrow> bool" where
  "plain_word w \<longleftrightarrow> w \<noteq> [] \<and> list_all word_char w"

lemma no_word_starts: "plain_word w \<Longrightarrow> \<not> word_char c \<Longrightarrow> \<not> js_startsWith (c # cs) w"
  by (cases w) (auto simp: plain_word_def js_startsWith_def)

lemma has_word_skip:
  assumes "list_all plain_word ws" "list_all (\<lambda>c. \<not> word_char c) n" "n \<noteq> []"
  shows "has_word ws p (n @ s) = has_word ws False s"
  using assms(2,3)
proof (induction n arbitrary: p)
  case (Cons c n)
  have "\<not> js_startsWith (c # n @ s) w" if "w \<in> set ws" for w
    using assms(1) that Cons.prems no_word_starts by (auto simp: list_all_iff)
  then have no: "\<not> list_ex (\<lambda>w. js_startsWith (c # n @ s) w \<and> ends_word w (c # n @ s)) ws"
    by (auto simp: list_ex_iff)
  show ?case
  proof (cases "n = []")
    case True
    with no Cons.prems show ?thesis by simp
  next
    case False
    with no Cons show ?thesis by simp
  qed
qed simp

lemma has_word_inside: "list_all word_char t \<Longrightarrow> has_word ws True (t @ s) = has_word ws True s"
  by (induction t) auto

lemma has_word_no_start:
  "list_all plain_word ws \<Longrightarrow> s = [] \<or> \<not> word_char (hd s) \<Longrightarrow> has_word ws True s = has_word ws False s"
  by (cases s) (auto simp: list_all_iff list_ex_iff dest: no_word_starts)

lemma word_at_run:
  assumes w: "plain_word w" and t: "plain_word t" and s: "s = [] \<or> \<not> word_char (hd s)"
  shows "js_startsWith (t @ s) w \<and> ends_word w (t @ s) \<longleftrightarrow> w = t"
proof
  assume "w = t"
  have "word_char (last t)" using t by (auto simp: plain_word_def list_all_iff)
  with s \<open>w = t\<close> show "js_startsWith (t @ s) w \<and> ends_word w (t @ s)"
    by (cases s) (auto simp: ends_word_def js_startsWith_def)
next
  assume a: "js_startsWith (t @ s) w \<and> ends_word w (t @ s)"
  then obtain r where r: "t @ s = w @ r" by (auto simp: js_startsWith_iff)
  have l: "word_char (last w)" using w by (auto simp: plain_word_def list_all_iff)
  from r consider u where "t = w @ u" "u @ s = r" | u where "w = t @ u" "s = u @ r"
    by (auto simp: append_eq_append_conv2)
  then show "w = t"
  proof cases
    case 1
    show ?thesis
    proof (cases u)
      case (Cons d ds)
      with 1 t a l show ?thesis by (auto simp: ends_word_def plain_word_def list_all_iff)
    qed (use 1 in simp)
  next
    case 2
    show ?thesis
    proof (cases u)
      case (Cons d ds)
      with 2 s w show ?thesis by (auto simp: plain_word_def list_all_iff)
    qed (use 2 in simp)
  qed
qed

lemma has_word_run:
  assumes ws: "list_all plain_word ws" and t: "plain_word t" and s: "s = [] \<or> \<not> word_char (hd s)"
  shows "has_word ws False (t @ s) \<longleftrightarrow> t \<in> set ws \<or> has_word ws False s"
proof -
  obtain c cs where c: "t = c # cs" using t by (cases t) (auto simp: plain_word_def)
  have p: "plain_word w" if "w \<in> set ws" for w using ws that by (auto simp: list_all_iff)
  have "list_ex (\<lambda>w. js_startsWith (t @ s) w \<and> ends_word w (t @ s)) ws \<longleftrightarrow> t \<in> set ws"
    using word_at_run [OF p t s] by (auto simp: list_ex_iff)
  moreover have "has_word ws True (cs @ s) = has_word ws False s"
    using t c has_word_inside [of cs ws s] has_word_no_start [OF ws s] by (simp add: plain_word_def)
  moreover have "word_char c" using t c by (simp add: plain_word_def)
  ultimately show ?thesis using c by simp
qed

lemma has_word_words:
  assumes ws: "list_all plain_word ws"
  shows "has_word ws False s \<longleftrightarrow> (\<exists>w\<in>set (words_of s). w \<in> set ws)"
proof (induction s rule: words_of.induct)
  case (1 s)
  let ?n = "takeWhile (\<lambda>c. \<not> word_char c) s"
  have n: "list_all (\<lambda>c. \<not> word_char c) ?n" by (auto simp: list_all_iff dest: set_takeWhileD)
  have skip: "has_word ws False s = has_word ws False (dropWhile (\<lambda>c. \<not> word_char c) s)"
  proof (cases "?n = []")
    case True
    then have "dropWhile (\<lambda>c. \<not> word_char c) s = s"
      by (metis append_Nil takeWhile_dropWhile_id)
    then show ?thesis by simp
  next
    case False
    with has_word_skip [OF ws n, of False "dropWhile (\<lambda>c. \<not> word_char c) s"] show ?thesis by simp
  qed
  show ?case
  proof (cases "dropWhile (\<lambda>c. \<not> word_char c) s")
    case Nil
    have "words_of s = []" by (subst words_of.simps) (simp only: Nil list.case)
    with skip Nil show ?thesis by simp
  next
    case (Cons c cs)
    have c: "word_char c" using Cons by (metis hd_dropWhile list.distinct(1) list.sel(1))
    let ?r = "dropWhile word_char cs"
    have r: "?r = [] \<or> \<not> word_char (hd ?r)" using hd_dropWhile by blast
    have t: "plain_word (c # takeWhile word_char cs)"
      using c by (auto simp: plain_word_def list_all_iff dest: set_takeWhileD)
    have "has_word ws False (c # cs) \<longleftrightarrow> c # takeWhile word_char cs \<in> set ws \<or> has_word ws False ?r"
      using has_word_run [OF ws t r] by simp
    with "1.IH" [OF Cons] skip Cons show ?thesis by (subst words_of.simps) auto
  qed
qed

lemma level_words: "list_all plain_word (error_words @ warning_words @ debug_words)"
  by (simp add: error_words_def warning_words_def debug_words_def plain_word_def word_char_def
      is_alnum_def is_alpha_def code_def)

text \<open>The level as the words say it.\<close>

definition level_of_words :: "string list \<Rightarrow> string" where
  "level_of_words ws =
     (if list_ex (\<lambda>w. w \<in> set error_words) ws then ''error''
      else if list_ex (\<lambda>w. w \<in> set warning_words) ws then ''warning''
      else if list_ex (\<lambda>w. w \<in> set debug_words) ws then ''debug''
      else ''info'')"

lemma getLogLevel_words: "getLogLevel s = level_of_words (words_of s)"
  using level_words by (simp add: getLogLevel_def level_of_words_def has_word_words list_ex_iff)

section \<open>What a request adds\<close>

definition content :: "log_line \<Rightarrow> string \<times> string" where
  "content l = (ts l, line_text l)"

lemma content_simps [simp]: "fst (content l) = ts l" "snd (content l) = line_text l"
  by (simp_all add: content_def)

lemma ts_of_contents: "map content ls = cs \<Longrightarrow> map ts ls = map fst cs"
  by (auto simp: content_def)

lemma text_of_contents: "map content ls = cs \<Longrightarrow> map line_text ls = map snd cs"
  by (auto simp: content_def)

lemma contents_ts: "map content ls = cs \<Longrightarrow> (\<forall>c\<in>set cs. Q (fst c)) \<longleftrightarrow> (\<forall>l\<in>set ls. Q (ts l))"
  by (force simp: content_def)

lemma count_seen_eq: "count_seen ls m = (\<lambda>x. count_list (map line_text ls) x + m x)"
  by (induction ls arbitrary: m) auto

lemma drop_seen_prefix:
  assumes "\<forall>l\<in>set xs. ts l = T" "T \<noteq> []" "\<And>x. seen x = count_list (map line_text xs) x + c x"
  shows "drop_seen T seen (xs @ ys) = drop_seen T c ys"
  using assms(1,3)
proof (induction xs arbitrary: seen)
  case Nil
  then have "seen = c" by auto
  then show ?case by simp
next
  case (Cons l xs)
  let ?seen = "seen(line_text l := seen (line_text l) - 1)"
  have "drop_seen T seen ((l # xs) @ ys) = drop_seen T ?seen (xs @ ys)"
    using Cons.prems assms(2) by simp
  also have "\<dots> = drop_seen T c ys"
    by (rule Cons.IH) (use Cons.prems in auto)
  finally show ?case .
qed

lemma drop_seen_keep: "\<forall>l\<in>set ys. ts l = [] \<or> T \<le> ts l \<Longrightarrow> drop_seen T (\<lambda>_. 0) ys = ys"
  by (induction ys) auto

text \<open>A log whose time stamps do not decrease, split where the last time stamp begins.\<close>

lemma boundary_split:
  assumes "sorted (map fst P)" "P \<noteq> []" and T: "T = fst (last P)"
  obtains A B where "P = A @ B" "B \<noteq> []" "A = takeWhile (\<lambda>c. fst c < T) P"
    "\<forall>c\<in>set A. fst c < T" "\<forall>c\<in>set B. fst c = T"
proof
  let ?A = "takeWhile (\<lambda>c. fst c < T) P" and ?B = "dropWhile (\<lambda>c. fst c < T) P"
  show "P = ?A @ ?B" by simp
  show "?A = ?A" ..
  show "\<forall>c\<in>set ?A. fst c < T" by (auto dest: set_takeWhileD)
  show ne: "?B \<noteq> []"
  proof
    assume "?B = []"
    then have "\<forall>c\<in>set P. fst c < T" by simp
    with last_in_set [OF assms(2)] T show False by auto
  qed
  have s: "sorted (map fst ?B)" using assms(1) by (metis map_append sorted_append takeWhile_dropWhile_id)
  have l: "fst (last ?B) = T" using ne T by (metis append_Nil2 last_appendR takeWhile_dropWhile_id)
  show "\<forall>c\<in>set ?B. fst c = T"
  proof
    fix c assume c: "c \<in> set ?B"
    obtain b bs where b: "?B = b # bs" using ne by (cases ?B) auto
    have "\<not> fst b < T" using b by (metis dropWhile_eq_Cons_conv)
    moreover have "fst b \<le> fst c" using s b c by auto
    moreover have "fst c \<le> T"
    proof -
      obtain ys y where y: "?B = ys @ [y]" using ne by (metis append_butlast_last_id)
      then have "fst y = T" using l by simp
      with y s c show ?thesis by (auto simp: sorted_append)
    qed
    ultimately show "fst c = T" by (meson leI le_less_trans order_antisym)
  qed
qed

text \<open>The lines shown and the lines that arrive, cut at the boundary \<open>T\<close>: the part at the boundary is
  known and exactly the rest is new.\<close>

lemma newLinesSince_split:
  assumes Ea: "\<forall>l\<in>set Ea. ts l \<noteq> T" and Eb: "\<forall>l\<in>set Eb. ts l = T" "Eb \<noteq> []" and Tne: "T \<noteq> []"
    and Ib: "\<forall>l\<in>set Ib. ts l = T" and In: "\<forall>l\<in>set In. ts l = [] \<or> T \<le> ts l"
    and same: "map line_text Eb = map line_text Ib"
  shows "lastTimestamp (Ea @ Eb) = Some T" and "newLinesSince (Ea @ Eb) (Ib @ In) = In"
proof -
  obtain e Es where e: "rev Eb = e # Es" using Eb(2) by (cases "rev Eb") auto
  then have "e \<in> set Eb" by (metis list.set_intros(1) set_rev)
  with Eb(1) have e_ts: "ts e = T" by blast
  show last: "lastTimestamp (Ea @ Eb) = Some T"
    using e e_ts Tne by (simp add: lastTimestamp_def)
  have "\<forall>l\<in>set (rev Ea). ts l \<noteq> T" using Ea by auto
  then have "takeWhile (\<lambda>l. ts l = T) (rev Ea) = []" by (cases "rev Ea") simp_all
  then have tw: "takeWhile (\<lambda>l. ts l = T) (rev (Ea @ Eb)) = rev Eb"
    using Eb(1) by (simp add: takeWhile_append)
  from same have "mset (map line_text (rev Eb)) = mset (map line_text Ib)" by (metis mset_rev rev_map)
  then have "count_list (map line_text (rev Eb)) x = count_list (map line_text Ib) x" for x
    by (metis count_mset)
  then have seen: "seenAtBoundary (Ea @ Eb) T x = count_list (map line_text Ib) x + 0" for x
    by (simp only: seenAtBoundary_def tw count_seen_eq add_0_right)
  have "drop_seen T (seenAtBoundary (Ea @ Eb) T) (Ib @ In) = drop_seen T (\<lambda>_. 0) In"
    by (rule drop_seen_prefix [OF Ib Tne seen])
  also have "\<dots> = In" by (rule drop_seen_keep [OF In])
  finally show "newLinesSince (Ea @ Eb) (Ib @ In) = In" unfolding newLinesSince_def last option.case .
qed

lemma newLinesSince_exact:
  assumes sorted: "sorted (map fst (P @ N))" and stamped: "\<forall>c\<in>set (P @ N). fst c \<noteq> []" and P: "P \<noteq> []"
    and T: "T = fst (last P)"
    and existing: "map content existing = drop k P" and k: "k \<le> length (takeWhile (\<lambda>c. fst c < T) P)"
    and incoming: "map content incoming = filter (\<lambda>c. T \<le> fst c) (P @ N)"
  shows "lastTimestamp existing = Some T"
    and "map content (newLinesSince existing incoming) = N"
    and "\<exists>n. newLinesSince existing incoming = drop n incoming"
proof -
  have "sorted (map fst P)" using sorted by (simp add: sorted_append)
  from boundary_split [OF this P T] obtain A B where AB: "P = A @ B" "B \<noteq> []" "A = takeWhile (\<lambda>c. fst c < T) P"
    "\<forall>c\<in>set A. fst c < T" "\<forall>c\<in>set B. fst c = T" .
  have N: "\<forall>c\<in>set N. T \<le> fst c" using sorted last_in_set [OF P] T by (auto simp: sorted_append)
  have "map content existing = drop k A @ B" using existing k AB by (metis diff_is_0_eq drop0 drop_append)
  then obtain Ea Eb where E: "existing = Ea @ Eb" "map content Ea = drop k A" "map content Eb = B"
    by (metis append_eq_map_conv)
  have Eb: "\<forall>l\<in>set Eb. ts l = T" "Eb \<noteq> []"
    using E(3) AB(2,5) contents_ts [of Eb B "\<lambda>x. x = T"] by auto
  have Ea: "\<forall>l\<in>set Ea. ts l < T"
    using AB(4) contents_ts [OF E(2), of "\<lambda>x. x < T"] by (auto dest: in_set_dropD)
  have "last P \<in> set (P @ N)" using last_in_set [OF P] by simp
  then have Tne: "T \<noteq> []" unfolding T by (rule bspec [OF stamped])
  have "filter (\<lambda>c. T \<le> fst c) A = []" using AB(4) by (auto simp: filter_empty_conv not_le)
  moreover have "filter (\<lambda>c. T \<le> fst c) B = B" "filter (\<lambda>c. T \<le> fst c) N = N" using AB(5) N by simp_all
  ultimately have "map content incoming = B @ N" using incoming AB(1) by simp
  then obtain Ib In where I: "incoming = Ib @ In" "map content Ib = B" "map content In = N"
    by (metis append_eq_map_conv)
  have Ib: "\<forall>l\<in>set Ib. ts l = T" using AB(5) contents_ts [OF I(2), of "\<lambda>x. x = T"] by auto
  have In: "\<forall>l\<in>set In. ts l = [] \<or> T \<le> ts l"
    using N contents_ts [OF I(3), of "\<lambda>x. T \<le> x"] by auto
  have "\<forall>l\<in>set Ea. ts l \<noteq> T" using Ea by auto
  moreover have "map line_text Eb = map line_text Ib"
    using text_of_contents [OF E(3)] text_of_contents [OF I(2)] by simp
  ultimately have new: "lastTimestamp existing = Some T" "newLinesSince existing incoming = In"
    unfolding E(1) I(1) using newLinesSince_split [OF _ Eb Tne Ib In] by blast+
  show "lastTimestamp existing = Some T" by (rule new(1))
  show "map content (newLinesSince existing incoming) = N" by (simp add: new I(3))
  show "\<exists>n. newLinesSince existing incoming = drop n incoming"
    unfolding new by (rule exI [of _ "length Ib"]) (simp add: I(1))
qed

section \<open>Highlighting\<close>

lemma substring_append: "i \<le> j \<Longrightarrow> substring s i j @ drop j s = drop i s"
  by (simp add: substring_def) (metis append_take_drop_id drop_drop le_add_diff_inverse2)

lemma highlight_loop_text:
  "length lowerText = length text' \<Longrightarrow> needle \<noteq> [] \<Longrightarrow> k \<le> length text' \<Longrightarrow>
    concat (map seg_text (highlight_loop text' lowerText needle k)) = drop k text'"
proof (induction text' lowerText needle k rule: highlight_loop.induct)
  case (1 text' lowerText needle k)
  show ?case
  proof (cases "indexOf_from lowerText needle k")
    case None
    with 1 show ?thesis by (subst highlight_loop.simps) auto
  next
    case (Some i)
    from indexOf_from_Some [OF Some] "1.prems" have b: "k \<le> i" "i + length needle \<le> length text'"
      by (auto simp: max_def split: if_splits)
    with Some "1.prems" "1.IH" [OF "1.prems"(2) Some "1.prems"(1,2)]
    have "concat (map seg_text (highlight_loop text' lowerText needle k)) =
        (if k < i then substring text' k i else []) @ substring text' i (i + length needle) @ drop (i + length needle) text'"
      by (subst highlight_loop.simps) simp
    also have "\<dots> = substring text' k i @ drop i text'"
      using b by (auto simp: substring_append substring_def [of text' k k] not_less)
    also have "\<dots> = drop k text'" using b(1) by (rule substring_append)
    finally show ?thesis .
  qed
qed

text \<open>What the segments of a line are: a matching one is the needle up to case, a plain one is not
  empty and does not hold it.\<close>

definition segment_ok :: "string \<Rightarrow> segment \<Rightarrow> bool" where
  "segment_ok needle g \<longleftrightarrow>
     (if matching g then needle \<noteq> [] \<and> js_lower (seg_text g) = needle
      else needle = [] \<or> (seg_text g \<noteq> [] \<and> \<not> js_includes (js_lower (seg_text g)) needle))"

lemma js_lower_take [simp]: "js_lower (take n s) = take n (js_lower s)"
  by (simp add: js_lower_def take_map)

lemma js_lower_drop [simp]: "js_lower (drop n s) = drop n (js_lower s)"
  by (simp add: js_lower_def drop_map)

lemma js_includes_at: "js_includes s p \<longleftrightarrow> (\<exists>j\<le>length s. js_startsWith (drop j s) p)"
proof
  assume "js_includes s p"
  then obtain a b where "s = a @ p @ b" by (auto simp: js_includes_iff)
  then show "\<exists>j\<le>length s. js_startsWith (drop j s) p" by (intro exI [of _ "length a"]) simp
next
  assume "\<exists>j\<le>length s. js_startsWith (drop j s) p"
  then obtain j r where "drop j s = p @ r" by (auto simp: js_startsWith_iff)
  then have "s = take j s @ p @ r" by (metis append_take_drop_id)
  then show "js_includes s p" by (auto simp: js_includes_iff)
qed

lemma js_startsWith_take: "js_startsWith (take n s) p \<Longrightarrow> js_startsWith s p"
  by (metis append_assoc append_take_drop_id js_startsWith_iff)

lemma indexOf_from_no_earlier:
  assumes i: "indexOf_from s p k = Some i" and p: "p \<noteq> []"
  shows "\<not> js_includes (take (i - k) (drop k s)) p"
proof
  assume "js_includes (take (i - k) (drop k s)) p"
  then obtain j where j: "j \<le> length (take (i - k) (drop k s))"
    "js_startsWith (drop j (take (i - k) (drop k s))) p"
    unfolding js_includes_at by blast
  have "j \<noteq> length (take (i - k) (drop k s))" using j(2) p by (auto simp: js_startsWith_def)
  with j(1) have "j < i - k" by (simp add: min_def split: if_splits)
  moreover have "js_startsWith (drop j (drop k s)) p"
    using j(2) unfolding drop_take by (rule js_startsWith_take)
  moreover obtain m where m: "js_indexOf (drop k s) p = Some m" "i = k + m"
    using i by (auto simp: indexOf_from_def)
  ultimately show False using js_indexOf_least [OF m(1), of j] by simp
qed

lemma highlight_loop_ok:
  "needle \<noteq> [] \<Longrightarrow> lowerText = js_lower text' \<Longrightarrow> list_all (segment_ok needle) (highlight_loop text' lowerText needle k)"
proof (induction text' lowerText needle k rule: highlight_loop.induct)
  case (1 text' lowerText needle k)
  show ?case
  proof (cases "indexOf_from lowerText needle k")
    case None
    then have "\<not> js_includes (drop k lowerText) needle"
      by (simp add: indexOf_from_def js_includes_def)
    with 1 None show ?thesis by (subst highlight_loop.simps) (simp add: segment_ok_def)
  next
    case (Some i)
    have m: "segment_ok needle \<lparr>seg_text = substring text' i (i + length needle), matching = True\<rparr>"
      using indexOf_from_Some(3) [OF Some] "1.prems" by (simp add: segment_ok_def substring_def)
    have "segment_ok needle \<lparr>seg_text = substring text' k i, matching = False\<rparr>" if "k < i"
    proof -
      have "i \<le> length text'" using indexOf_from_Some(2) [OF Some] "1.prems" that by (auto simp: max_def split: if_splits)
      with that indexOf_from_no_earlier [OF Some "1.prems"(1)] "1.prems"(2) show ?thesis
        by (simp add: segment_ok_def substring_def)
    qed
    with m Some "1.prems" "1.IH" [OF "1.prems"(1) Some "1.prems"] show ?thesis
      by (subst highlight_loop.simps) simp
  qed
qed

lemma highlight_loop_matches:
  assumes "needle \<noteq> []"
  shows "list_ex matching (highlight_loop text' lowerText needle 0) \<longleftrightarrow> js_includes lowerText needle"
  using assms by (subst highlight_loop.simps) (simp add: indexOf_from_def js_includes_def split: option.split)

lemma concat_seg_texts: "concat (map seg_text (highlightSegments s q)) = s"
  using highlight_loop_text [of "js_lower s" s "js_lower (js_trim q)" 0]
  by (simp add: highlightSegments_def Let_def)

end
