(* ===== verification/LogViewer.thy ===== *)
theory LogViewer
  imports LogText "HOL-Library.AList" Complex_Main
begin

text \<open>
  The component \<open>runtimeLogs\<close> of resources/js/runtime-logs.js: its fields and the variables of
  its closure as one record, its methods, and the callbacks of timers, of Livewire and of the
  page as the steps of a state machine. A request to Livewire is put in \<open>pending\<close> and may be
  settled or rejected at any later step. The row virtualiser is a library: what it shows is
  reported by the environment, what it is told is the field \<open>virtualizer\<close>.
\<close>

section \<open>State\<close>

datatype viewer_timer = TStream | TScrollIdle | TScrollDebounce

datatype viewer_tick = TickMount | TickRows

datatype request = ReqLogs bool | ReqAll | ReqStream string

datatype viewer_effect =
    CallLogs "string option"
  | CallAll
  | ScrollToIndex nat
  | StoreFilters string
  | StoreColor bool
  | CreateObjectUrl string
  | ClickDownload string
  | RevokeObjectUrl
  | MeasureElement nat
  | FocusSearch

record virtual_row =
  row_key :: nat
  row_index :: nat
  row_start :: real
  row_line :: log_line

record viewer =
  expanded :: bool
  containerName :: string
  logsLoaded :: bool
  allLines :: bool
  loadingAll :: bool
  loadingLines :: bool
  loading :: bool
  viewerFullscreen :: bool
  alwaysScroll :: bool
  followManuallyDisabled :: bool
  isScrolling :: bool
  lastTouchY :: real
  scrollDebounce :: "nat option"
  destroyed :: bool
  colorLogs :: bool
  logFilters :: "(string \<times> json) list"
  searchQuery :: string
  appliedQuery :: string
  matchCount :: nat
  lineCount :: nat
  expandedLogs :: "nat \<Rightarrow> bool"
  virtualRows :: "virtual_row list"
  totalSize :: real
  scrollMargin :: real
  lines :: "log_line list"
  filtered :: "log_line list"
  lineId :: nat
  virtualizer :: "(nat \<times> real) option"
  headerObserver :: bool
  streamTimer :: "nat option"
  watchedQuery :: string
  viewerTimers :: "viewer_timer timers"
  viewerTicks :: "viewer_tick list"
  pending :: "request list"
  viewerFx :: "viewer_effect list"

text \<open>What Livewire, the document and the virtualiser say while a callback runs.\<close>

record viewer_env =
  numberOfLines :: int
  streamLogs :: bool
  showTimeStamps :: bool
  documentHidden :: bool
  listOffset :: "real option"
  columnsObserved :: bool
  virtualItems :: "(nat \<times> nat \<times> real) list"
  virtualSize :: real
  distanceFromBottom :: real

definition emit_fx :: "viewer_effect list \<Rightarrow> viewer \<Rightarrow> viewer" where
  "emit_fx es s = s\<lparr>viewerFx := viewerFx s @ es\<rparr>"

section \<open>Rows\<close>

definition getItemKey :: "log_line list \<Rightarrow> nat \<Rightarrow> nat" where
  "getItemKey ls i = (if i < length ls then line_id (ls ! i) else i)"

definition syncRows :: "viewer_env \<Rightarrow> viewer \<Rightarrow> viewer" where
  "syncRows v s =
     (if virtualizer s = None then s
      else s\<lparr>virtualRows :=
               map (\<lambda>(k, i, y). \<lparr>row_key = k, row_index = i, row_start = y, row_line = filtered s ! i\<rparr>)
                 (filter (\<lambda>(k, i, y). i < length (filtered s)) (virtualItems v)),
             totalSize := virtualSize v\<rparr>)"

definition updateVirtualizer :: "viewer_env \<Rightarrow> viewer \<Rightarrow> viewer" where
  "updateVirtualizer v s =
     (if virtualizer s = None then s
      else
        (let margin = (case listOffset v of None \<Rightarrow> 0 | Some y \<Rightarrow> y)
         in syncRows v (s\<lparr>scrollMargin := margin, virtualizer := Some (length (filtered s), margin)\<rparr>)))"

definition mountVirtualizer :: "viewer_env \<Rightarrow> viewer \<Rightarrow> viewer" where
  "mountVirtualizer v s =
     (if destroyed s \<or> virtualizer s \<noteq> None then s
      else updateVirtualizer v
             (s\<lparr>virtualizer := Some (0, 0), headerObserver := headerObserver s \<or> columnsObserved v\<rparr>))"

definition scrollToBottom :: "viewer \<Rightarrow> viewer" where
  "scrollToBottom s =
     (if destroyed s \<or> virtualizer s = None \<or> filtered s = [] then s
      else emit_fx [ScrollToIndex (length (filtered s) - 1)]
             (s\<lparr>isScrolling := True, viewerTimers := snd (set_timer TScrollIdle (viewerTimers s))\<rparr>))"

section \<open>Loading\<close>

definition applyFilters :: "viewer \<Rightarrow> viewer" where
  "applyFilters s =
     (let f = filterLogLines (lines s) (logFilters s) (searchQuery s); q = js_trim (searchQuery s)
      in s\<lparr>filtered := f, appliedQuery := q, matchCount := (if q \<noteq> [] then length f else 0),
           lineCount := length (lines s), viewerTicks := viewerTicks s @ [TickRows]\<rparr>)"

definition replaceLines :: "string option \<Rightarrow> viewer \<Rightarrow> viewer" where
  "replaceLines output s =
     (if destroyed s then s
      else
        (let (ls, n) = parseLogLines output (lineId s)
         in applyFilters (s\<lparr>lines := ls, lineId := n, expandedLogs := (\<lambda>_. False)\<rparr>)))"

definition appendLines :: "log_line list \<Rightarrow> viewer \<Rightarrow> viewer" where
  "appendLines newLines s =
     (if newLines = [] then s
      else
        (let ls = lines s @ newLines in
         applyFilters
           (s\<lparr>lines := (if MAX_CLIENT_LOG_LINES < length ls
                        then drop (length ls - MAX_CLIENT_LOG_LINES) ls else ls)\<rparr>)))"

definition ask :: "request \<Rightarrow> viewer \<Rightarrow> viewer" where
  "ask r s =
     emit_fx [case r of ReqLogs _ \<Rightarrow> CallLogs None | ReqAll \<Rightarrow> CallAll | ReqStream since \<Rightarrow> CallLogs (Some since)]
       (s\<lparr>loading := True, pending := pending s @ [r]\<rparr>)"

definition refresh :: "viewer \<Rightarrow> viewer" where
  "refresh s = (if loading s then s else ask (ReqLogs False) s)"

definition refreshLines :: "viewer \<Rightarrow> viewer" where
  "refreshLines s = (if loading s then s else ask (ReqLogs True) (s\<lparr>loadingLines := True\<rparr>))"

definition showAllLogs :: "viewer \<Rightarrow> viewer" where
  "showAllLogs s = (if loading s then s else ask ReqAll (s\<lparr>loadingAll := True\<rparr>))"

definition streamTick :: "viewer_env \<Rightarrow> viewer \<Rightarrow> viewer" where
  "streamTick v s =
     (if destroyed s \<or> loading s \<or> \<not> expanded s \<or> documentHidden v \<or> \<not> streamLogs v then s
      else (case lastTimestamp (lines s) of None \<Rightarrow> refresh s | Some since \<Rightarrow> ask (ReqStream since) s))"

text \<open>What follows each \<open>await\<close>, and the \<open>finally\<close> blocks.\<close>

definition on_reply :: "viewer_env \<Rightarrow> request \<Rightarrow> string option \<Rightarrow> viewer \<Rightarrow> viewer" where
  "on_reply v r output s =
     (case r of
        ReqLogs b \<Rightarrow> replaceLines output s
      | ReqAll \<Rightarrow> (replaceLines output s)\<lparr>allLines := True\<rparr>
      | ReqStream since \<Rightarrow>
          if destroyed s \<or> \<not> streamLogs v then s
          else (let (ls, n) = parseLogLines output (lineId s)
                in appendLines (newLinesSince (lines s) ls) (s\<lparr>lineId := n\<rparr>)))"

definition finally_block :: "request \<Rightarrow> viewer \<Rightarrow> viewer" where
  "finally_block r s =
     (case r of
        ReqLogs b \<Rightarrow> s\<lparr>loading := False, loadingLines := (loadingLines s \<and> \<not> b)\<rparr>
      | ReqAll \<Rightarrow> s\<lparr>loading := False, loadingAll := False\<rparr>
      | ReqStream since \<Rightarrow> s\<lparr>loading := False\<rparr>)"

text \<open>The \<open>i\<close>-th pending request is settled, or rejected when there is no reply.\<close>

definition settle :: "viewer_env \<Rightarrow> nat \<Rightarrow> string option option \<Rightarrow> viewer \<Rightarrow> viewer" where
  "settle v i reply s =
     (if length (pending s) \<le> i then s
      else
        (let r = pending s ! i; s1 = s\<lparr>pending := take i (pending s) @ drop (Suc i) (pending s)\<rparr>
         in finally_block r (case reply of None \<Rightarrow> s1 | Some output \<Rightarrow> on_reply v r output s1)))"

section \<open>Text\<close>

text \<open>\<open>fmt\<close> is the formatter \<open>createTimestampFormatter\<close> made for the configured time zone.\<close>

definition visibleText :: "(string \<Rightarrow> string) \<Rightarrow> viewer_env \<Rightarrow> viewer \<Rightarrow> string" where
  "visibleText fmt v s =
     js_join [lf]
       (map (\<lambda>l. if showTimeStamps v \<and> ts l \<noteq> [] then fmt (ts l) @ '' '' @ line_text l else line_text l) (filtered s))"

definition measureRow :: "nat \<Rightarrow> viewer \<Rightarrow> viewer" where
  "measureRow i s = (if virtualizer s = None then s else emit_fx [MeasureElement i] s)"

definition highlight :: "string \<Rightarrow> viewer \<Rightarrow> segment list" where
  "highlight text' s = highlightSegments text' (appliedQuery s)"

text \<open>Indented JSON, as \<open>JSON.stringify(v, null, 2)\<close> prints it.\<close>

fun pretty :: "nat \<Rightarrow> json \<Rightarrow> string" where
  "pretty n (JArr xs) =
     (if xs = [] then ''[]''
      else ''['' @ [lf] @ js_join ('','' @ [lf]) (map (\<lambda>x. replicate (n + 2) (CHR '' '') @ pretty (n + 2) x) xs)
           @ [lf] @ replicate n (CHR '' '') @ '']'')"
| "pretty n (JObj es) =
     (if es = [] then ''{}''
      else ''{'' @ [lf]
           @ js_join ('','' @ [lf])
               (map (\<lambda>(k, x). replicate (n + 2) (CHR '' '') @ json_quote k @ '': '' @ pretty (n + 2) x) es)
           @ [lf] @ replicate n (CHR '' '') @ ''}'')"
| "pretty n j = js_stringify j"

definition formatLogDetails :: "(string \<Rightarrow> json option) \<Rightarrow> string \<Rightarrow> string" where
  "formatLogDetails json_parse text' =
     (case json_parse text' of Some j \<Rightarrow> pretty 0 j | None \<Rightarrow> text')"

text \<open>The link to the text lives until it was clicked.\<close>

definition downloadText :: "string \<Rightarrow> string \<Rightarrow> viewer_effect list" where
  "downloadText content' filename = [CreateObjectUrl content', ClickDownload filename, RevokeObjectUrl]"

definition downloadLogs :: "(string \<Rightarrow> string) \<Rightarrow> viewer_env \<Rightarrow> string \<Rightarrow> viewer \<Rightarrow> viewer" where
  "downloadLogs fmt v isoDate s =
     (let stamp = map (\<lambda>c. if c = CHR ''T'' \<or> c = CHR '':'' then CHR ''-'' else c) (take 19 isoDate)
      in emit_fx (downloadText (visibleText fmt v s @ [lf]) (containerName s @ ''-logs-'' @ stamp @ ''.txt'')) s)"

section \<open>Controls\<close>

definition toggleLogDetails :: "nat \<Rightarrow> bool \<Rightarrow> bool \<Rightarrow> string \<Rightarrow> viewer \<Rightarrow> viewer" where
  "toggleLogDetails i selection keydown k s =
     (if selection then s
      else if keydown \<and> k \<noteq> ''Enter'' \<and> k \<noteq> '' '' then s
      else s\<lparr>expandedLogs := (expandedLogs s)(i := \<not> expandedLogs s i)\<rparr>)"

definition isLogExpanded :: "nat \<Rightarrow> viewer \<Rightarrow> bool" where
  "isLogExpanded i s = expandedLogs s i"

definition toggleLogFilter :: "string \<Rightarrow> viewer \<Rightarrow> viewer" where
  "toggleLogFilter l s =
     (let on' = (case map_of (logFilters s) l of None \<Rightarrow> False | Some j \<Rightarrow> json_truthy j);
          f = AList.update l (JBool (\<not> on')) (logFilters s)
      in applyFilters (emit_fx [StoreFilters (js_stringify (JObj f))] (s\<lparr>logFilters := f\<rparr>)))"

definition toggleColorLogs :: "viewer \<Rightarrow> viewer" where
  "toggleColorLogs s = emit_fx [StoreColor (\<not> colorLogs s)] (s\<lparr>colorLogs := \<not> colorLogs s\<rparr>)"

definition viewer_makeFullscreen :: "viewer \<Rightarrow> viewer" where
  "viewer_makeFullscreen s =
     (let f = \<not> viewerFullscreen s
      in s\<lparr>viewerFullscreen := f, alwaysScroll := (if f then alwaysScroll s else False)\<rparr>)"

text \<open>Where the focus is, as \<open>ownsFindShortcut\<close> asks.\<close>

record focus_env =
  activeIsSearch :: bool
  activeInRoot :: bool
  activeInViewer :: bool
  activeEditable :: bool
  targetIsRoot :: bool

definition ownsFindShortcut :: "focus_env \<Rightarrow> viewer \<Rightarrow> bool" where
  "ownsFindShortcut f s \<longleftrightarrow>
     (if \<not> expanded s then False
      else if activeIsSearch f then False
      else if activeInRoot f then True
      else if activeInViewer f then False
      else if activeEditable f then False
      else targetIsRoot f)"

definition handleKeyDown :: "key_event \<Rightarrow> focus_env \<Rightarrow> viewer \<Rightarrow> viewer" where
  "handleKeyDown e f s0 =
     (let s = (if key e = Some ''Escape'' \<and> viewerFullscreen s0 then viewer_makeFullscreen s0 else s0)
      in if isFindShortcut e \<and> ownsFindShortcut f s then emit_fx [FocusSearch] s else s)"

section \<open>Scrolling\<close>

definition disableFollow :: "viewer \<Rightarrow> viewer" where
  "disableFollow s = s\<lparr>alwaysScroll := False\<rparr>"

definition toggleScroll :: "viewer \<Rightarrow> viewer" where
  "toggleScroll s0 =
     (let s = s0\<lparr>alwaysScroll := \<not> alwaysScroll s0, followManuallyDisabled := alwaysScroll s0\<rparr>
      in if alwaysScroll s then scrollToBottom s else s)"

definition handleWheel :: "real \<Rightarrow> viewer \<Rightarrow> viewer" where
  "handleWheel deltaY s = (if alwaysScroll s \<and> deltaY < 0 then disableFollow s else s)"

definition handleTouchStart :: "real \<Rightarrow> viewer \<Rightarrow> viewer" where
  "handleTouchStart y s = s\<lparr>lastTouchY := y\<rparr>"

definition handleTouchMove :: "real \<Rightarrow> viewer \<Rightarrow> viewer" where
  "handleTouchMove y s =
     (if \<not> alwaysScroll s then s
      else (if lastTouchY s < y then disableFollow s else s)\<lparr>lastTouchY := y\<rparr>)"

definition handleKeyScroll :: "string \<Rightarrow> viewer \<Rightarrow> viewer" where
  "handleKeyScroll k s =
     (if alwaysScroll s \<and> (k = ''ArrowUp'' \<or> k = ''PageUp'' \<or> k = ''Home'') then disableFollow s else s)"

definition handleScroll :: "viewer \<Rightarrow> viewer" where
  "handleScroll s =
     (if isScrolling s \<or> destroyed s then s
      else
        (let t = clear_opt (scrollDebounce s) (viewerTimers s); (i, t') = set_timer TScrollDebounce t
         in s\<lparr>viewerTimers := t', scrollDebounce := Some i\<rparr>))"

definition scrollSettled :: "viewer_env \<Rightarrow> viewer \<Rightarrow> viewer" where
  "scrollSettled v s =
     (if destroyed s then s
      else if \<not> alwaysScroll s \<and> \<not> followManuallyDisabled s \<and> distanceFromBottom v \<le> 10
      then s\<lparr>alwaysScroll := True\<rparr> else s)"

section \<open>Life cycle\<close>

text \<open>The level filters: what was stored, unless that is missing or falsy. A stored value that is not
  an object has none of the keys.\<close>

text \<open>The label of the shortcut, for the platform the browser reports.\<close>

datatype shortcut_label = CommandF | ControlF

definition findShortcutLabel :: "string \<Rightarrow> shortcut_label" where
  "findShortcutLabel platform =
     (if js_includes platform ''Mac'' \<or> js_includes platform ''iPhone'' \<or> js_includes platform ''iPad''
      then CommandF else ControlF)"

definition initialFilters :: "json option \<Rightarrow> (string \<times> json) list" where
  "initialFilters stored =
     (case stored of
        Some (JObj es) \<Rightarrow> es
      | _ \<Rightarrow>
        if (case stored of None \<Rightarrow> False | Some j \<Rightarrow> json_truthy j) then []
        else [(''error'', JBool True), (''warning'', JBool True), (''debug'', JBool True), (''info'', JBool True)])"

record viewer_config =
  config_expanded :: bool
  config_containerName :: "string option"

definition runtimeLogs :: "viewer_config \<Rightarrow> string option \<Rightarrow> json option \<Rightarrow> viewer" where
  "runtimeLogs config storedColor storedFilters =
     \<lparr>expanded = config_expanded config,
      containerName = (case config_containerName config of None \<Rightarrow> ''logs'' | Some n \<Rightarrow> n),
      logsLoaded = False, allLines = False, loadingAll = False, loadingLines = False, loading = False,
      viewerFullscreen = False, alwaysScroll = False, followManuallyDisabled = False, isScrolling = False,
      lastTouchY = 0, scrollDebounce = None, destroyed = False, colorLogs = (storedColor = Some ''true''),
      logFilters = initialFilters storedFilters, searchQuery = [], appliedQuery = [], matchCount = 0, lineCount = 0,
      expandedLogs = (\<lambda>_. False), virtualRows = [], totalSize = 0, scrollMargin = 0,
      lines = [], filtered = [], lineId = 0, virtualizer = None, headerObserver = False, streamTimer = None,
      watchedQuery = [], viewerTimers = no_timers, viewerTicks = [], pending = [], viewerFx = []\<rparr>"

definition viewer_init :: "viewer_env \<Rightarrow> viewer \<Rightarrow> viewer" where
  "viewer_init v s =
     (let (i, t) = set_timer TStream (viewerTimers s);
          s1 = s\<lparr>allLines := (numberOfLines v = -1), viewerTicks := viewerTicks s @ [TickMount],
                 viewerTimers := t, streamTimer := Some i\<rparr>
      in if expanded s1 then (refresh s1)\<lparr>logsLoaded := True\<rparr> else s1)"

definition viewer_destroy :: "viewer \<Rightarrow> viewer" where
  "viewer_destroy s =
     s\<lparr>destroyed := True,
       viewerTimers := clear_opt (scrollDebounce s) (clear_opt (streamTimer s) (viewerTimers s)),
       headerObserver := False, virtualizer := None\<rparr>"

text \<open>The panel's header opens and closes the viewer, and loads it the first time.\<close>

definition toggle_expanded :: "viewer \<Rightarrow> viewer" where
  "toggle_expanded s0 =
     (let s = s0\<lparr>expanded := \<not> expanded s0\<rparr>
      in if expanded s \<and> \<not> logsLoaded s then (refresh s)\<lparr>logsLoaded := True\<rparr> else s)"

definition run_viewer_tick :: "viewer_env \<Rightarrow> viewer_tick \<Rightarrow> viewer \<Rightarrow> viewer" where
  "run_viewer_tick v k s =
     (case k of
        TickMount \<Rightarrow> mountVirtualizer v s
      | TickRows \<Rightarrow> (let s1 = updateVirtualizer v s in if alwaysScroll s1 then scrollToBottom s1 else s1))"

definition run_viewer_timer :: "viewer_env \<Rightarrow> nat \<Rightarrow> viewer_timer \<Rightarrow> viewer \<Rightarrow> viewer" where
  "run_viewer_timer v i k s =
     (case k of
        TStream \<Rightarrow> streamTick v s
      | TScrollIdle \<Rightarrow> s\<lparr>viewerTimers := clear_timer i (viewerTimers s), isScrolling := False\<rparr>
      | TScrollDebounce \<Rightarrow> scrollSettled v (s\<lparr>viewerTimers := clear_timer i (viewerTimers s)\<rparr>))"

section \<open>The machine\<close>

datatype viewer_event =
    ViewerTimer viewer_env nat
  | ViewerTick viewer_env
  | Settled viewer_env nat "string option option"
  | ToggleExpanded
  | RefreshButton
  | LinesChanged
  | AllLogsButton
  | QueryTyped string
  | QueryWatcher
  | FilterButton string
  | ColorButton
  | FullscreenToggle
  | DetailsToggle nat bool bool string
  | KeyDown key_event focus_env
  | ScrollButton
  | Wheel real
  | TouchStart real
  | TouchMove real
  | KeyScroll string
  | Scrolled
  | HeaderResized viewer_env
  | RowsChanged viewer_env
  | RowRendered nat
  | DownloadButton "string \<Rightarrow> string" viewer_env string
  | ViewerDestroyed

fun viewer_step :: "viewer \<Rightarrow> viewer_event \<Rightarrow> viewer" where
  "viewer_step s (ViewerTimer v i) =
     (case map_of (armed (viewerTimers s)) i of None \<Rightarrow> s | Some k \<Rightarrow> run_viewer_timer v i k s)"
| "viewer_step s (ViewerTick v) =
     (case viewerTicks s of [] \<Rightarrow> s | k # ks \<Rightarrow> run_viewer_tick v k (s\<lparr>viewerTicks := ks\<rparr>))"
| "viewer_step s (Settled v i reply) = settle v i reply s"
| "viewer_step s ToggleExpanded = toggle_expanded s"
| "viewer_step s RefreshButton = refresh s"
| "viewer_step s LinesChanged = refreshLines s"
| "viewer_step s AllLogsButton = showAllLogs s"
| "viewer_step s (QueryTyped q) = s\<lparr>searchQuery := q\<rparr>"
| "viewer_step s QueryWatcher =
     (if watchedQuery s = searchQuery s then s else applyFilters (s\<lparr>watchedQuery := searchQuery s\<rparr>))"
| "viewer_step s (FilterButton l) = toggleLogFilter l s"
| "viewer_step s ColorButton = toggleColorLogs s"
| "viewer_step s FullscreenToggle = viewer_makeFullscreen s"
| "viewer_step s (DetailsToggle i sel kd k) = toggleLogDetails i sel kd k s"
| "viewer_step s (KeyDown e f) = handleKeyDown e f s"
| "viewer_step s ScrollButton = toggleScroll s"
| "viewer_step s (Wheel dy) = handleWheel dy s"
| "viewer_step s (TouchStart y) = handleTouchStart y s"
| "viewer_step s (TouchMove y) = handleTouchMove y s"
| "viewer_step s (KeyScroll k) = handleKeyScroll k s"
| "viewer_step s Scrolled = handleScroll s"
| "viewer_step s (HeaderResized v) = (if headerObserver s then updateVirtualizer v s else s)"
| "viewer_step s (RowsChanged v) = syncRows v s"
| "viewer_step s (RowRendered i) = measureRow i s"
| "viewer_step s (DownloadButton fmt v isoDate) = downloadLogs fmt v isoDate s"
| "viewer_step s ViewerDestroyed = viewer_destroy s"

end
