(* ===== verification/LogFollow.thy ===== *)
theory LogFollow
  imports LogViewer
begin

text \<open>
  What the log viewer guarantees: one request at a time, a filtered list that is up to date,
  distinct ascending line ids, no life after \<open>destroy\<close>; and the refinement of following a log
  on the server, batch by batch, without losing or repeating a line.
\<close>

section \<open>The invariant\<close>

lemma js_trim_idem [simp]: "js_trim (js_trim s) = js_trim s"
proof (cases "js_trim s = []")
  case False
  let ?u = "dropWhile is_ws s"
  obtain r where r: "?u = js_trim s @ r"
    by (metis js_trim_def rev_append rev_rev_ident takeWhile_dropWhile_id)
  with False have "hd (js_trim s) = hd ?u" by simp
  moreover have "?u \<noteq> []" using r False by simp
  ultimately have "\<not> is_ws (hd (js_trim s))" by (metis hd_dropWhile)
  with js_trim_hd [OF False] show ?thesis by (intro js_trim_id)
qed simp

definition requests_ok :: "viewer \<Rightarrow> bool" where
  "requests_ok s \<longleftrightarrow>
     (pending s = [] \<and> \<not> loading s \<and> \<not> loadingAll s \<and> \<not> loadingLines s) \<or>
     (\<exists>r. pending s = [r] \<and> loading s \<and> (loadingAll s \<longleftrightarrow> r = ReqAll) \<and> (loadingLines s \<longleftrightarrow> r = ReqLogs True))"

definition shown_ok :: "viewer \<Rightarrow> bool" where
  "shown_ok s \<longleftrightarrow>
     filtered s = filterLogLines (lines s) (logFilters s) (appliedQuery s) \<and>
     lineCount s = length (lines s) \<and>
     matchCount s = (if appliedQuery s = [] then 0 else length (filtered s))"

definition numbered :: "log_line list \<Rightarrow> nat \<Rightarrow> bool" where
  "numbered ls n \<longleftrightarrow> sorted_wrt (<) (map line_id ls) \<and> (\<forall>l\<in>set ls. line_id l \<le> n)"

definition quiet_ok :: "viewer \<Rightarrow> bool" where
  "quiet_ok s \<longleftrightarrow>
     ids_of ((=) TStream) (viewerTimers s) \<subseteq> (if destroyed s then {} else set_option (streamTimer s)) \<and>
     ids_of ((=) TScrollDebounce) (viewerTimers s) \<subseteq> (if destroyed s then {} else set_option (scrollDebounce s)) \<and>
     (destroyed s \<longrightarrow> virtualizer s = None \<and> \<not> headerObserver s)"

text \<open>A live viewer's stream interval is armed.\<close>

definition armed_ok :: "viewer \<Rightarrow> bool" where
  "armed_ok s \<longleftrightarrow>
     timers_fresh (viewerTimers s) \<and>
     (destroyed s \<or>
      (\<exists>i. streamTimer s = Some i \<and> map_of (armed (viewerTimers s)) i = Some TStream \<and> scrollDebounce s \<noteq> Some i))"

definition viewer_inv :: "viewer \<Rightarrow> bool" where
  "viewer_inv s \<longleftrightarrow>
     requests_ok s \<and> shown_ok s \<and> numbered (lines s) (lineId s) \<and> quiet_ok s \<and> armed_ok s"

lemmas viewer_inv_defs = viewer_inv_def requests_ok_def shown_ok_def quiet_ok_def armed_ok_def

text \<open>Only some fields matter.\<close>

lemma filterLogLines_trim [simp]: "filterLogLines ls fs (js_trim q) = filterLogLines ls fs q"
  by (simp add: filterLogLines_def)

lemma part_fields [simp]:
  "armed_ok (s\<lparr>lines := x_lines\<rparr>) = armed_ok s"
  "armed_ok (s\<lparr>lineId := x_lineId\<rparr>) = armed_ok s"
  "armed_ok (s\<lparr>expandedLogs := g\<rparr>) = armed_ok s"
  "armed_ok (s\<lparr>logFilters := x_logFilters\<rparr>) = armed_ok s"
  "armed_ok (s\<lparr>searchQuery := x_searchQuery\<rparr>) = armed_ok s"
  "armed_ok (s\<lparr>watchedQuery := x_watchedQuery\<rparr>) = armed_ok s"
  "armed_ok (s\<lparr>viewerFx := x_viewerFx\<rparr>) = armed_ok s"
  "requests_ok (s\<lparr>lines := x_lines\<rparr>) = requests_ok s"
  "requests_ok (s\<lparr>lineId := x_lineId\<rparr>) = requests_ok s"
  "requests_ok (s\<lparr>expandedLogs := g\<rparr>) = requests_ok s"
  "requests_ok (s\<lparr>logFilters := x_logFilters\<rparr>) = requests_ok s"
  "requests_ok (s\<lparr>searchQuery := x_searchQuery\<rparr>) = requests_ok s"
  "requests_ok (s\<lparr>watchedQuery := x_watchedQuery\<rparr>) = requests_ok s"
  "requests_ok (s\<lparr>viewerFx := x_viewerFx\<rparr>) = requests_ok s"
  "quiet_ok (s\<lparr>lines := x_lines\<rparr>) = quiet_ok s"
  "quiet_ok (s\<lparr>lineId := x_lineId\<rparr>) = quiet_ok s"
  "quiet_ok (s\<lparr>expandedLogs := g\<rparr>) = quiet_ok s"
  "quiet_ok (s\<lparr>logFilters := x_logFilters\<rparr>) = quiet_ok s"
  "quiet_ok (s\<lparr>searchQuery := x_searchQuery\<rparr>) = quiet_ok s"
  "quiet_ok (s\<lparr>watchedQuery := x_watchedQuery\<rparr>) = quiet_ok s"
  "quiet_ok (s\<lparr>viewerFx := x_viewerFx\<rparr>) = quiet_ok s"
  by (simp_all add: requests_ok_def quiet_ok_def armed_ok_def)

lemma inv_viewer_emit [simp]: "viewer_inv (emit_fx es s) = viewer_inv s"
  by (simp add: viewer_inv_defs emit_fx_def)

lemma inv_row_fields [simp]:
  "viewer_inv (s\<lparr>virtualRows := a\<rparr>) = viewer_inv s" "viewer_inv (s\<lparr>totalSize := y\<rparr>) = viewer_inv s"
  "viewer_inv (s\<lparr>scrollMargin := y\<rparr>) = viewer_inv s" "viewer_inv (s\<lparr>isScrolling := b\<rparr>) = viewer_inv s"
  "viewer_inv (s\<lparr>alwaysScroll := b\<rparr>) = viewer_inv s" "viewer_inv (s\<lparr>followManuallyDisabled := b\<rparr>) = viewer_inv s"
  "viewer_inv (s\<lparr>lastTouchY := y\<rparr>) = viewer_inv s" "viewer_inv (s\<lparr>viewerTicks := ks\<rparr>) = viewer_inv s"
  "viewer_inv (s\<lparr>expanded := b\<rparr>) = viewer_inv s" "viewer_inv (s\<lparr>logsLoaded := b\<rparr>) = viewer_inv s"
  "viewer_inv (s\<lparr>allLines := b\<rparr>) = viewer_inv s" "viewer_inv (s\<lparr>expandedLogs := e\<rparr>) = viewer_inv s"
  "viewer_inv (s\<lparr>searchQuery := q\<rparr>) = viewer_inv s" "viewer_inv (s\<lparr>watchedQuery := q\<rparr>) = viewer_inv s"
  "viewer_inv (s\<lparr>colorLogs := b\<rparr>) = viewer_inv s" "viewer_inv (s\<lparr>viewerFullscreen := b\<rparr>) = viewer_inv s"
  by (simp_all add: viewer_inv_defs)

lemma inv_clear:
  "viewer_inv s \<Longrightarrow> map_of (armed (viewerTimers s)) i \<noteq> Some TStream \<Longrightarrow>
    viewer_inv (s\<lparr>viewerTimers := clear_timer i (viewerTimers s)\<rparr>)"
  by (auto simp: viewer_inv_defs fresh_clear map_of_clear_other)

lemma inv_syncRows: "viewer_inv s \<Longrightarrow> viewer_inv (syncRows v s)"
  by (simp add: syncRows_def)

lemma inv_set_virtualizer:
  "viewer_inv s \<Longrightarrow> \<not> destroyed s \<Longrightarrow> viewer_inv (s\<lparr>virtualizer := z\<rparr>)"
  "viewer_inv s \<Longrightarrow> \<not> destroyed s \<Longrightarrow> viewer_inv (s\<lparr>headerObserver := b\<rparr>)"
  by (simp_all add: viewer_inv_defs)

lemma inv_virtualizer: "viewer_inv s \<Longrightarrow> destroyed s \<Longrightarrow> virtualizer s = None"
  by (simp add: viewer_inv_defs)

lemma inv_updateVirtualizer:
  assumes "viewer_inv s" shows "viewer_inv (updateVirtualizer v s)"
proof (cases "destroyed s")
  case True
  with assms show ?thesis by (simp add: updateVirtualizer_def inv_virtualizer)
next
  case False
  have "viewer_inv (s\<lparr>scrollMargin := y, virtualizer := z\<rparr>)" for y z
    by (rule inv_set_virtualizer) (use assms False in simp_all)
  with assms show ?thesis by (simp add: updateVirtualizer_def Let_def inv_syncRows)
qed

lemma inv_mountVirtualizer: "viewer_inv s \<Longrightarrow> viewer_inv (mountVirtualizer v s)"
  unfolding mountVirtualizer_def
  by (simp add: inv_updateVirtualizer inv_set_virtualizer)

lemma inv_scrollToBottom: "viewer_inv s \<Longrightarrow> viewer_inv (scrollToBottom s)"
  by (auto simp: scrollToBottom_def viewer_inv_defs emit_fx_def fresh_set map_of_set)

section \<open>Loading keeps the invariant\<close>

lemma inv_ask:
  assumes "viewer_inv s" "\<not> loading s"
  shows "viewer_inv (ask (ReqLogs False) s)" "viewer_inv (ask (ReqStream t) s)"
    "viewer_inv (ask (ReqLogs True) (s\<lparr>loadingLines := True\<rparr>))" "viewer_inv (ask ReqAll (s\<lparr>loadingAll := True\<rparr>))"
  using assms by (auto simp: viewer_inv_defs ask_def emit_fx_def split: list.splits)

lemma inv_refresh: "viewer_inv s \<Longrightarrow> viewer_inv (refresh s)"
  by (simp add: refresh_def inv_ask)

lemma inv_applyFilters:
  "requests_ok s \<Longrightarrow> numbered (lines s) (lineId s) \<Longrightarrow> quiet_ok s \<Longrightarrow> armed_ok s \<Longrightarrow>
    viewer_inv (applyFilters s)"
  by (auto simp: applyFilters_def viewer_inv_defs Let_def)

lemma numbered_mono: "numbered ls n \<Longrightarrow> n \<le> m \<Longrightarrow> numbered ls m"
  by (force simp: numbered_def)

lemma numbered_drop: "numbered ls n \<Longrightarrow> numbered (drop k ls) n"
  by (auto simp: numbered_def sorted_wrt_drop simp flip: drop_map dest: in_set_dropD)

lemma parse_line_id [simp]: "line_id (parse_line i raw) = i"
  by (simp add: parse_line_def Let_def split: prod.split)

lemma parse_raws_numbered:
  "numbered (fst (parse_raws raws n)) (snd (parse_raws raws n)) \<and> n \<le> snd (parse_raws raws n)
    \<and> (\<forall>l\<in>set (fst (parse_raws raws n)). n < line_id l)"
proof (induction raws n rule: parse_raws.induct)
  case (2 raw raws n)
  show ?case
  proof (cases "js_trim raw = []")
    case False
    obtain ls m where p: "parse_raws raws (Suc n) = (ls, m)" by force
    from 2 False have "numbered ls m" "Suc n \<le> m" "\<forall>l\<in>set ls. Suc n < line_id l" by (simp_all add: p)
    with False p show ?thesis by (auto simp: numbered_def dest: Suc_lessD)
  qed (use 2 in simp)
qed (simp add: numbered_def)

lemma parse_numbered:
  assumes "parseLogLines output n = (ls, m)"
  shows "numbered ls m" "n \<le> m" "\<forall>l\<in>set ls. n < line_id l"
  using assms parse_raws_numbered [of "js_split lf (case output of None \<Rightarrow> [] | Some s \<Rightarrow> s)" n]
  by (simp_all add: parseLogLines_def)

lemma numbered_append:
  "numbered xs n \<Longrightarrow> numbered ys m \<Longrightarrow> n \<le> m \<Longrightarrow> \<forall>l\<in>set ys. n < line_id l \<Longrightarrow> numbered (xs @ ys) m"
  by (force simp: numbered_def sorted_wrt_append)

lemma drop_seen_subseq: "subseq (drop_seen T m ls) ls"
  by (induction ls arbitrary: m) auto

lemma newLinesSince_subseq: "subseq (newLinesSince xs ls) ls"
  by (simp add: newLinesSince_def drop_seen_subseq split: option.split)

lemma numbered_subseq: "subseq ys xs \<Longrightarrow> numbered xs n \<Longrightarrow> numbered ys n"
proof (induction rule: list_emb.induct)
  case (list_emb_Cons2 x y xs ys)
  then have "numbered xs n" by (auto simp: numbered_def)
  moreover have "set xs \<subseteq> set ys" using list_emb_Cons2.hyps(2) by (auto dest: list_emb_set)
  ultimately show ?case using list_emb_Cons2 by (auto simp: numbered_def)
qed (auto simp: numbered_def)

lemma newLinesSince_numbered: "numbered ls n \<Longrightarrow> numbered (newLinesSince xs ls) n"
  by (rule numbered_subseq [OF newLinesSince_subseq])

lemma newLinesSince_set: "set (newLinesSince xs ls) \<subseteq> set ls"
  using newLinesSince_subseq [of xs ls] by (auto dest: list_emb_set)

lemma inv_replaceLines:
  assumes s: "viewer_inv s" shows "viewer_inv (replaceLines output s)"
proof -
  obtain ls n where p: "parseLogLines output (lineId s) = (ls, n)" by force
  have "viewer_inv (applyFilters (s\<lparr>lines := ls, lineId := n, expandedLogs := (\<lambda>_. False)\<rparr>))"
    by (rule inv_applyFilters)
      (use s parse_numbered(1) [OF p] in \<open>simp_all add: viewer_inv_def\<close>)
  with s show ?thesis by (simp add: replaceLines_def p)
qed

lemma inv_new_lines:
  assumes s: "viewer_inv s" and n: "numbered ls (lineId s)"
  shows "viewer_inv (applyFilters (s\<lparr>lines := ls\<rparr>))"
  by (rule inv_applyFilters) (use s n in \<open>simp_all add: viewer_inv_def\<close>)

lemma inv_appendLines:
  assumes "viewer_inv s" "numbered (lines s @ xs) (lineId s)"
  shows "viewer_inv (appendLines xs s)"
  using assms numbered_drop [OF assms(2)] by (simp add: appendLines_def Let_def inv_new_lines del: drop_append)

lemma inv_lineId: "viewer_inv s \<Longrightarrow> lineId s \<le> n \<Longrightarrow> viewer_inv (s\<lparr>lineId := n\<rparr>)"
  by (auto simp: viewer_inv_defs intro: numbered_mono)

lemma inv_on_reply:
  assumes s: "viewer_inv s" shows "viewer_inv (on_reply v r output s)"
proof (cases r)
  case (ReqStream since)
  obtain ls n where p: "parseLogLines output (lineId s) = (ls, n)" by force
  note q = parse_numbered [OF p]
  have "numbered (lines s @ newLinesSince (lines s) ls) n"
    using s q newLinesSince_set [of "lines s" ls]
    by (intro numbered_append [OF _ newLinesSince_numbered]) (auto simp: viewer_inv_def)
  then have "viewer_inv (appendLines (newLinesSince (lines s) ls) (s\<lparr>lineId := n\<rparr>))"
    by (intro inv_appendLines inv_lineId s) (use q in simp_all)
  with s ReqStream p show ?thesis by (simp add: on_reply_def)
qed (use s in \<open>simp_all add: on_reply_def inv_replaceLines\<close>)

text \<open>A reply neither reads nor changes the request flags; the request it answers has left the queue.\<close>

definition idle :: "viewer \<Rightarrow> viewer" where
  "idle s = s\<lparr>pending := [], loading := False, loadingAll := False, loadingLines := False\<rparr>"

lemma on_reply_idle: "on_reply v r output (idle s) = idle (on_reply v r output s)"
  by (simp add: idle_def on_reply_def replaceLines_def appendLines_def applyFilters_def Let_def
      split: request.split prod.split)

lemma inv_idle: "viewer_inv s \<Longrightarrow> viewer_inv (idle s)"
  by (auto simp: viewer_inv_defs idle_def)

lemma reply_flags [simp]:
  "pending (on_reply v r output s) = pending s" "loading (on_reply v r output s) = loading s"
  "loadingAll (on_reply v r output s) = loadingAll s" "loadingLines (on_reply v r output s) = loadingLines s"
  by (simp_all add: on_reply_def replaceLines_def appendLines_def applyFilters_def Let_def
      split: request.split prod.split)

lemma finally_idle:
  assumes "pending s = []" "loadingAll s \<longleftrightarrow> r = ReqAll" "loadingLines s \<longleftrightarrow> r = ReqLogs True"
  shows "finally_block r s = idle s"
  using assms by (cases r) (simp_all add: finally_block_def idle_def)

text \<open>Settling a request leaves the viewer idle, with what the reply brought.\<close>

lemma settle_idle:
  assumes s: "requests_ok s" and i: "i < length (pending s)"
  shows "i = 0" "settle v i reply s =
    (case reply of None \<Rightarrow> idle s | Some output \<Rightarrow> on_reply v (hd (pending s)) output (idle s))"
proof -
  obtain r where r: "pending s = [r]" "loadingAll s \<longleftrightarrow> r = ReqAll" "loadingLines s \<longleftrightarrow> r = ReqLogs True"
    using s i by (auto simp: requests_ok_def)
  with i show 0: "i = 0" by simp
  have "idle (s\<lparr>pending := []\<rparr>) = idle s" by (simp add: idle_def)
  with r 0 show "settle v i reply s =
      (case reply of None \<Rightarrow> idle s | Some output \<Rightarrow> on_reply v (hd (pending s)) output (idle s))"
    by (auto simp: settle_def finally_idle simp flip: on_reply_idle split: option.split)
qed

lemma inv_viewer_settle: "viewer_inv s \<Longrightarrow> viewer_inv (settle v i reply s)"
proof (cases "i < length (pending s)")
  case True
  assume s: "viewer_inv s"
  then have "requests_ok s" by (simp add: viewer_inv_def)
  from settle_idle(2) [OF this True] s show ?thesis
    by (auto intro: inv_idle inv_on_reply split: option.split)
qed (simp add: settle_def)

section \<open>Every step keeps it\<close>

lemma inv_toggleLogFilter: "viewer_inv s \<Longrightarrow> viewer_inv (toggleLogFilter l s)"
  by (simp add: toggleLogFilter_def Let_def emit_fx_def)
    (rule inv_applyFilters; simp add: viewer_inv_def)

lemma inv_watch: "viewer_inv s \<Longrightarrow> viewer_inv (applyFilters (s\<lparr>watchedQuery := q\<rparr>))"
  by (rule inv_applyFilters; simp add: viewer_inv_def)

lemma inv_handleScroll: "viewer_inv s \<Longrightarrow> viewer_inv (handleScroll s)"
proof -
  assume s: "viewer_inv s"
  show ?thesis
  proof (cases "isScrolling s \<or> destroyed s")
    case False
    let ?t = "clear_opt (scrollDebounce s) (viewerTimers s)"
    obtain i where i: "streamTimer s = Some i" "map_of (armed (viewerTimers s)) i = Some TStream"
      "scrollDebounce s \<noteq> Some i" "timers_fresh (viewerTimers s)"
      using s False by (auto simp: viewer_inv_def armed_ok_def)
    have t: "timers_fresh ?t" "map_of (armed ?t) i = Some TStream"
      using i by (auto simp: clear_opt_def fresh_clear map_of_clear split: option.split)
    have "nextId ?t \<noteq> i" using t by (auto simp: timers_fresh_def dest!: map_of_SomeD)
    with t have "armed_ok (s\<lparr>viewerTimers := snd (set_timer TScrollDebounce ?t), scrollDebounce := Some (nextId ?t)\<rparr>)"
      using i by (auto simp: armed_ok_def fresh_set map_of_set)
    moreover have "quiet_ok (s\<lparr>viewerTimers := snd (set_timer TScrollDebounce ?t), scrollDebounce := Some (nextId ?t)\<rparr>)"
      using s False by (auto simp: viewer_inv_def quiet_ok_def)
    ultimately show ?thesis
      using s False by (auto simp: handleScroll_def Let_def case_prod_beta viewer_inv_def requests_ok_def shown_ok_def)
  qed (use s in \<open>simp add: handleScroll_def\<close>)
qed

lemma inv_destroy: "viewer_inv s \<Longrightarrow> viewer_inv (viewer_destroy s)"
  by (auto simp: viewer_destroy_def viewer_inv_defs clear_opt_def fresh_clear split: if_splits option.splits)

lemma inv_controls:
  assumes "viewer_inv s"
  shows "viewer_inv (toggleLogDetails i b c k s)" "viewer_inv (toggleColorLogs s)" "viewer_inv (viewer_makeFullscreen s)"
    "viewer_inv (toggleScroll s)" "viewer_inv (handleWheel y s)" "viewer_inv (handleTouchStart y s)"
    "viewer_inv (handleTouchMove y s)" "viewer_inv (handleKeyScroll k s)" "viewer_inv (scrollSettled v s)"
    "viewer_inv (downloadLogs fmt v d s)" "viewer_inv (toggle_expanded s)" "viewer_inv (measureRow i s)"
  using assms
  by (simp_all add: toggleLogDetails_def toggleColorLogs_def viewer_makeFullscreen_def Let_def toggleScroll_def
      inv_scrollToBottom handleWheel_def disableFollow_def handleTouchStart_def handleTouchMove_def
      handleKeyScroll_def scrollSettled_def downloadLogs_def measureRow_def toggle_expanded_def inv_refresh)

lemma inv_handleKeyDown: "viewer_inv s \<Longrightarrow> viewer_inv (handleKeyDown e f s)"
  by (simp add: handleKeyDown_def Let_def inv_controls)

lemma inv_streamTick: "viewer_inv s \<Longrightarrow> viewer_inv (streamTick v s)"
  by (auto simp: streamTick_def inv_refresh inv_ask split: option.split)

lemma inv_viewer_timer:
  "viewer_inv s \<Longrightarrow> map_of (armed (viewerTimers s)) i = Some k \<Longrightarrow> viewer_inv (run_viewer_timer v i k s)"
  by (cases k) (simp_all add: run_viewer_timer_def inv_streamTick inv_clear inv_controls)

lemma inv_viewer_tick: "viewer_inv s \<Longrightarrow> viewer_inv (run_viewer_tick v k s)"
  by (cases k) (simp_all add: run_viewer_tick_def Let_def inv_mountVirtualizer inv_updateVirtualizer inv_scrollToBottom)

lemma inv_viewer_step: "viewer_inv s \<Longrightarrow> viewer_inv (viewer_step s e)"
proof (cases e)
  case LinesChanged
  assume "viewer_inv s"
  with LinesChanged show ?thesis by (simp add: refreshLines_def inv_ask)
next
  case AllLogsButton
  assume "viewer_inv s"
  with AllLogsButton show ?thesis by (simp add: showAllLogs_def inv_ask)
qed (simp_all add: inv_viewer_timer inv_viewer_tick inv_viewer_settle inv_refresh inv_controls inv_handleKeyDown
    inv_handleScroll inv_toggleLogFilter inv_watch inv_updateVirtualizer inv_syncRows inv_destroy
    split: option.split list.split)

definition viewer_start :: "viewer \<Rightarrow> bool" where
  "viewer_start s \<longleftrightarrow> (\<exists>v config c f. s = viewer_init v (runtimeLogs config c f))"

lemma inv_viewer_start: "viewer_start s \<Longrightarrow> viewer_inv s"
proof -
  have "viewer_inv (viewer_init v (runtimeLogs config c f))" for v config c f
  proof -
    obtain s1 where s1: "s1 = (runtimeLogs config c f)\<lparr>allLines := (numberOfLines v = -1), viewerTicks := [TickMount],
        viewerTimers := snd (set_timer TStream no_timers), streamTimer := Some 1\<rparr>" by simp
    have "viewer_inv s1"
      by (auto simp: s1 viewer_inv_defs runtimeLogs_def numbered_def filterLogLines_def set_timer_def no_timers_def
          ids_of_def timers_fresh_def)
    moreover have "viewer_init v (runtimeLogs config c f) =
        (if expanded s1 then (refresh s1)\<lparr>logsLoaded := True\<rparr> else s1)"
      by (simp add: s1 viewer_init_def set_timer_def no_timers_def Let_def runtimeLogs_def)
    ultimately show ?thesis by (simp add: inv_refresh)
  qed
  moreover assume "viewer_start s"
  ultimately show ?thesis by (auto simp: viewer_start_def)
qed

interpretation viewer: event_machine viewer_start "\<lambda>_ _. True" viewer_step viewer_inv
  by unfold_locales (auto intro: inv_viewer_start inv_viewer_step)

lemma viewer_run_inv: "viewer_start s \<Longrightarrow> viewer_inv (run viewer_step s es)"
  by (rule viewer.inv_run [OF viewer.inv_start]) simp_all

section \<open>Following a log\<close>

text \<open>The abstract viewer is the list of time stamps and texts it shows. A log on the server is steady
  when every line has a time stamp, they do not decrease, and no more lines share one than the
  viewer keeps.\<close>

type_synonym contents = "(string \<times> string) list"

definition shown :: "viewer \<Rightarrow> contents" where
  "shown s = map content (lines s)"

definition contents_of :: "string \<Rightarrow> contents" where
  "contents_of output = map content (fst (parseLogLines (Some output) 0))"

definition tail :: "nat \<Rightarrow> 'a list \<Rightarrow> 'a list" where
  "tail n xs = drop (length xs - n) xs"

definition steady :: "contents \<Rightarrow> bool" where
  "steady L \<longleftrightarrow>
     sorted (map fst L) \<and> list_all (\<lambda>c. fst c \<noteq> []) L \<and>
     (\<forall>T. length (filter (\<lambda>c. fst c = T) L) \<le> MAX_CLIENT_LOG_LINES)"

definition before_last :: "contents \<Rightarrow> nat" where
  "before_last P = length (takeWhile (\<lambda>c. fst c < fst (last P)) P)"

text \<open>One round: the interval fires, the request is answered.\<close>

definition round_trip :: "viewer_env \<Rightarrow> string \<Rightarrow> viewer \<Rightarrow> viewer" where
  "round_trip v output s =
     run viewer_step s [ViewerTimer v (the (streamTimer s)), Settled v 0 (Some (Some output))]"

text \<open>Rounds and the batches they bring: the server answers with the lines of its log that are not
  older than the time stamp it is asked for.\<close>

fun answers :: "contents \<Rightarrow> (viewer_env \<times> string) list \<Rightarrow> contents list \<Rightarrow> bool" where
  "answers P [] [] = True"
| "answers P ((v, output) # rounds) (N # Ns) =
     (streamLogs v \<and> \<not> documentHidden v \<and>
      contents_of output = filter (\<lambda>c. fst (last P) \<le> fst c) (P @ N) \<and> answers (P @ N) rounds Ns)"
| "answers P _ _ = False"

definition follow :: "(viewer_env \<times> string) list \<Rightarrow> viewer \<Rightarrow> viewer" where
  "follow rounds s = fold (\<lambda>(v, output). round_trip v output) rounds s"

lemma content_parse_line: "content (parse_line i raw) = content (parse_line j raw)"
  by (simp add: parse_line_def content_def Let_def split: prod.split)

lemma content_parse_raws: "map content (fst (parse_raws raws n)) = map content (fst (parse_raws raws m))"
proof (induction raws arbitrary: n m)
  case (Cons raw raws)
  from Cons.IH [of "Suc n" "Suc m"] Cons.IH [of n m] show ?case
    by (auto simp: case_prod_beta content_parse_line [of "Suc n" raw "Suc m"])
qed simp

lemma content_parse: "map content (fst (parseLogLines (Some output) n)) = contents_of output"
  by (simp add: contents_of_def parseLogLines_def content_parse_raws [of _ n 0])

lemma lines_applyFilters [simp]:
  "lines (applyFilters s) = lines s" "expanded (applyFilters s) = expanded s"
  "destroyed (applyFilters s) = destroyed s" "loading (applyFilters s) = loading s"
  "streamTimer (applyFilters s) = streamTimer s"
  by (simp_all add: applyFilters_def Let_def)

lemma shown_appendLines:
  "shown (appendLines xs s) =
     (if xs = [] then shown s else tail MAX_CLIENT_LOG_LINES (shown s @ map content xs))"
  by (simp add: appendLines_def shown_def tail_def Let_def drop_map flip: map_append)

lemma appendLines_fields [simp]:
  "expanded (appendLines xs s) = expanded s" "destroyed (appendLines xs s) = destroyed s"
  by (simp_all add: appendLines_def Let_def)

text \<open>A live open viewer with nothing in flight.\<close>

definition following :: "viewer \<Rightarrow> bool" where
  "following s \<longleftrightarrow> viewer_inv s \<and> expanded s \<and> \<not> destroyed s \<and> \<not> loading s"

lemma steady_prefix: "steady (P @ N) \<Longrightarrow> steady P"
proof -
  assume s: "steady (P @ N)"
  have "length (filter (\<lambda>c. fst c = T) P) \<le> MAX_CLIENT_LOG_LINES" for T
    using s le_trans [OF _ s [unfolded steady_def, THEN conjunct2, THEN conjunct2, THEN spec, of T]] by simp
  with s show ?thesis by (simp add: steady_def sorted_append)
qed

lemma round_trip_shown:
  assumes s: "following s" and v: "streamLogs v" "\<not> documentHidden v"
    and P: "P \<noteq> []" "steady (P @ N)" and k: "shown s = drop k P" "k \<le> before_last P"
    and out: "contents_of output = filter (\<lambda>c. fst (last P) \<le> fst c) (P @ N)"
  shows "shown (round_trip v output s) =
      (if N = [] then shown s else tail MAX_CLIENT_LOG_LINES (shown s @ N))"
    and "following (round_trip v output s)"
proof -
  let ?T = "fst (last P)"
  obtain i where i: "streamTimer s = Some i" "map_of (armed (viewerTimers s)) i = Some TStream"
    using s by (auto simp: following_def viewer_inv_def armed_ok_def)
  have sorted: "sorted (map fst (P @ N))" and stamped: "\<forall>c\<in>set (P @ N). fst c \<noteq> []"
    using P(2) by (simp_all add: steady_def list_all_iff)
  obtain ls n where p: "parseLogLines (Some output) (lineId s) = (ls, n)" by force
  have inc: "map content ls = filter (\<lambda>c. ?T \<le> fst c) (P @ N)"
    using content_parse [of "output" "lineId s"] out by (simp add: p)
  note new = newLinesSince_exact [OF sorted stamped P(1) refl k(1) [unfolded shown_def] k(2) [unfolded before_last_def] inc]
  let ?s1 = "streamTick v s"
  have s1: "?s1 = ask (ReqStream ?T) s" using s v new(1) by (simp add: following_def streamTick_def)
  have inv1: "viewer_inv ?s1" using s by (simp add: following_def inv_streamTick)
  have pend: "pending ?s1 = [ReqStream ?T]"
    using s s1 by (auto simp: following_def viewer_inv_def requests_ok_def ask_def emit_fx_def)
  have idle1: "lines (idle ?s1) = lines s" "lineId (idle ?s1) = lineId s" "destroyed (idle ?s1) = destroyed s"
    "expanded (idle ?s1) = expanded s"
    by (simp_all add: s1 idle_def ask_def emit_fx_def)
  have rt: "round_trip v output s =
      appendLines (newLinesSince (lines s) ls) ((idle ?s1)\<lparr>lineId := n\<rparr>)" (is "_ = appendLines ?new ?s2")
    using settle_idle(2) [of ?s1 0 v "Some (Some output)"] inv1 pend s v p i idle1
    by (simp add: round_trip_def run_viewer_timer_def viewer_inv_def on_reply_def following_def)
  have "shown ?s2 = shown s" by (simp add: shown_def idle1)
  moreover have "?new = [] \<longleftrightarrow> N = []" using new(2) by auto
  ultimately show "shown (round_trip v output s) =
      (if N = [] then shown s else tail MAX_CLIENT_LOG_LINES (shown s @ N))"
    by (simp add: rt shown_appendLines new(2))
  have "viewer_inv (round_trip v output s)"
    using s by (simp add: round_trip_def following_def inv_viewer_step del: viewer_step.simps)
  moreover have "loading (round_trip v output s) = False"
    by (simp add: rt appendLines_def Let_def idle_def)
  ultimately show "following (round_trip v output s)"
    using s by (simp add: following_def rt idle1)
qed

lemma tail_short: "length xs \<le> n \<Longrightarrow> tail n xs = xs"
  by (simp add: tail_def)

lemma tail_tail: "tail n (tail n xs @ ys) = tail n (xs @ ys)"
proof (cases "length xs \<le> n")
  case False
  let ?d = "length xs - n"
  have "tail n (tail n xs @ ys) = drop (length ys) (drop ?d (xs @ ys))"
    using False by (simp add: tail_def)
  also have "\<dots> = drop (length ys + ?d) (xs @ ys)" by (simp only: drop_drop)
  finally show ?thesis using False by (simp add: tail_def add.commute)
qed (simp add: tail_short)

lemma length_tail: "length (tail n xs) \<le> n"
  by (simp add: tail_def)

lemma before_last_mono:
  assumes "steady (P @ N)" "P \<noteq> []" shows "before_last P \<le> before_last (P @ N)"
  unfolding before_last_def
proof (rule length_takeWhile_less_P_nth)
  let ?A = "takeWhile (\<lambda>c. fst c < fst (last P)) P"
  show "length ?A \<le> length (P @ N)" using length_takeWhile_le [of _ P] by (simp add: le_trans trans_le_add1)
  have le: "fst (last P) \<le> fst (last (P @ N))"
    using assms last_in_set [of N] last_in_set [of P] by (cases "N = []") (auto simp: steady_def sorted_append)
  fix i assume i: "i < length ?A"
  then have "?A ! i \<in> set ?A" by simp
  then have "fst (?A ! i) < fst (last P)" by (auto dest: set_takeWhileD)
  moreover have "(P @ N) ! i = ?A ! i"
    using i length_takeWhile_le [of _ P] by (simp add: takeWhile_nth nth_append less_le_trans)
  ultimately show "fst ((P @ N) ! i) < fst (last (P @ N))" using le by simp
qed

lemma before_last_bound:
  assumes "steady L" "L \<noteq> []" shows "length L - MAX_CLIENT_LOG_LINES \<le> before_last L"
proof -
  have "sorted (map fst L)" using assms(1) by (simp add: steady_def)
  from boundary_split [OF this assms(2) refl] obtain A B where AB: "L = A @ B"
    "A = takeWhile (\<lambda>c. fst c < fst (last L)) L" "\<forall>c\<in>set B. fst c = fst (last L)" by metis
  have "length (filter (\<lambda>c. fst c = fst (last L)) L) \<le> MAX_CLIENT_LOG_LINES"
    using assms(1) unfolding steady_def by blast
  moreover have "filter (\<lambda>c. fst c = fst (last L)) B = B" using AB(3) by simp
  then have "length B \<le> length (filter (\<lambda>c. fst c = fst (last L)) L)"
    by (subst AB(1)) (simp only: filter_append length_append)
  moreover have "before_last L = length A" using AB(2) by (simp add: before_last_def)
  moreover have "length L = length A + length B" by (subst AB(1)) simp
  ultimately show ?thesis by linarith
qed

text \<open>What is shown stays a suffix of the server's log that holds all lines of the last time stamp.\<close>

lemma follow_step:
  assumes "following s" "P \<noteq> []" "steady (P @ N)" "shown s = drop k P" "k \<le> before_last P"
    "length (shown s) \<le> MAX_CLIENT_LOG_LINES" "answers P ((v, output) # rounds) (N # Ns)"
  shows "shown (round_trip v output s) = tail MAX_CLIENT_LOG_LINES (shown s @ N)"
    and "\<exists>k'\<le>before_last (P @ N). shown (round_trip v output s) = drop k' (P @ N)"
    and "following (round_trip v output s)"
proof -
  have v: "streamLogs v" "\<not> documentHidden v"
    and out: "contents_of output = filter (\<lambda>c. fst (last P) \<le> fst c) (P @ N)"
    using assms(7) by simp_all
  note rt = round_trip_shown [OF assms(1) v assms(2-5) out]
  show fw: "following (round_trip v output s)" by (rule rt(2))
  show sh: "shown (round_trip v output s) = tail MAX_CLIENT_LOG_LINES (shown s @ N)"
    using rt(1) assms(6) by (simp add: tail_short)
  have k: "k \<le> length P"
    using assms(5) length_takeWhile_le [of "\<lambda>c. fst c < fst (last P)" P] by (simp add: before_last_def)
  let ?d = "length (shown s @ N) - MAX_CLIENT_LOG_LINES"
  have "shown s @ N = drop k (P @ N)" using k assms(4) by simp
  then have "shown (round_trip v output s) = drop (?d + k) (P @ N)"
    unfolding sh tail_def by (simp only: drop_drop)
  moreover have "?d + k = max k (length (P @ N) - MAX_CLIENT_LOG_LINES)" using k assms(4) by auto
  moreover have "max k (length (P @ N) - MAX_CLIENT_LOG_LINES) \<le> before_last (P @ N)"
    using before_last_mono [OF assms(3,2)] before_last_bound [OF assms(3)] assms(2,5) by simp
  ultimately show "\<exists>k'\<le>before_last (P @ N). shown (round_trip v output s) = drop k' (P @ N)" by metis
qed

lemma follow_shown:
  assumes "answers P rounds Ns" "following s" "P \<noteq> []" "steady (P @ concat Ns)"
    "shown s = drop k P" "k \<le> before_last P" "length (shown s) \<le> MAX_CLIENT_LOG_LINES"
  shows "shown (follow rounds s) = tail MAX_CLIENT_LOG_LINES (shown s @ concat Ns) \<and> following (follow rounds s)"
  using assms
proof (induction P rounds Ns arbitrary: s k rule: answers.induct)
  case (1 P)
  then show ?case by (simp add: follow_def tail_short)
next
  case (2 P v "output" rounds N Ns)
  have PN: "steady (P @ N)" using "2.prems"(4) steady_prefix [of "P @ N" "concat Ns"] by simp
  note step = follow_step [OF "2.prems"(2,3) PN "2.prems"(5-7,1)]
  obtain k' where k': "k' \<le> before_last (P @ N)" "shown (round_trip v output s) = drop k' (P @ N)"
    using step(2) by blast
  have "shown (follow rounds (round_trip v output s)) =
      tail MAX_CLIENT_LOG_LINES (shown (round_trip v output s) @ concat Ns) \<and>
      following (follow rounds (round_trip v output s))"
    by (rule "2.IH" [OF _ step(3) _ _ k'(2,1)])
      (use "2.prems" step(1) in \<open>simp_all add: length_tail\<close>)
  then show ?case by (simp add: follow_def step(1) tail_tail)
qed simp_all

section \<open>Reading docker's output\<close>

definition valid_stamp :: "string \<Rightarrow> bool" where
  "valid_stamp t \<longleftrightarrow>
     fits ''0000-00-00T00:00:00'' (take 19 t) \<and> drop 19 t = fraction (drop 19 t) @ ''Z''"

definition docker_output :: "contents \<Rightarrow> string" where
  "docker_output L = js_join [lf] (map (\<lambda>(t, x). t @ '' '' @ x) L)"

lemma fits_length: "fits p s \<Longrightarrow> length s = length p"
  by (simp add: fits_def list_all2_lengthD)

lemma fraction_append:
  assumes "f = fraction (f @ r)" "r = CHR ''Z'' # u" shows "fraction (f @ r @ v) = f"
proof (cases f)
  case Nil
  with assms show ?thesis by (simp add: fraction_def)
next
  case (Cons c cs)
  have Z: "\<not> is_digit (CHR ''Z'')" by (simp add: is_digit_def code_def)
  have c: "c = CHR ''.''" "cs = takeWhile is_digit (cs @ r)" "takeWhile is_digit (cs @ r) \<noteq> []"
    using assms(1) Cons by (auto simp: fraction_def split: if_splits)
  have "takeWhile is_digit (cs @ r @ v) = takeWhile is_digit (cs @ r)"
    using assms(2) Z by (simp add: takeWhile_append)
  with c Cons show ?thesis by (simp add: fraction_def)
qed

lemma split_valid:
  assumes "valid_stamp t" shows "split_timestamp (t @ '' '' @ x) = Some (t, x)"
proof -
  have l: "length (take 19 t) = 19" using assms fits_length by (fastforce simp: valid_stamp_def)
  then have t: "take 19 (t @ '' '' @ x) = take 19 t" by simp
  let ?f = "fraction (drop 19 t)"
  have d: "drop 19 t = ?f @ ''Z''" using assms by (simp add: valid_stamp_def)
  have "19 \<le> length t" using l by simp
  then have "drop 19 (t @ '' '' @ x) = drop 19 t @ '' '' @ x" by simp
  also have "\<dots> = ?f @ ''Z'' @ '' '' @ x" using d by simp
  finally have r: "drop 19 (t @ '' '' @ x) = ?f @ ''Z'' @ '' '' @ x" .
  have "fraction (?f @ ''Z'' @ ('' '' @ x)) = ?f"
    by (rule fraction_append [where u = "[]"]) (use d in simp_all)
  moreover have "take 19 t @ ?f @ ''Z'' = t" using d by (metis append_take_drop_id)
  moreover have "fits ''0000-00-00T00:00:00'' (take 19 t)" using assms by (simp add: valid_stamp_def)
  ultimately show ?thesis
    unfolding split_timestamp_def t r by (simp add: Let_def js_startsWith_def)
qed

lemma valid_stamp_start: "valid_stamp t \<Longrightarrow> \<exists>c cs. t = c # cs \<and> is_digit c"
proof -
  assume "valid_stamp t"
  then have f: "fits ''0000-00-00T00:00:00'' (take 19 t)" by (simp add: valid_stamp_def)
  then obtain c cs where t: "t = c # cs" using fits_length [OF f] by (cases t) auto
  with f show ?thesis by (simp add: fits_def)
qed

lemma fits_no_lf: "fits p s \<Longrightarrow> lf \<notin> set p \<Longrightarrow> lf \<notin> set s"
  unfolding fits_def
proof (induction rule: list_all2_induct)
  case (Cons q qs c cs)
  then show ?case by (auto simp: is_digit_def code_def split: if_splits)
qed simp

lemma valid_stamp_no_lf: "valid_stamp t \<Longrightarrow> lf \<notin> set t"
proof -
  assume v: "valid_stamp t"
  have "lf \<notin> set (take 19 t)" using v fits_no_lf by (fastforce simp: valid_stamp_def)
  have "lf \<notin> set (fraction (drop 19 t))"
    by (auto simp: fraction_def is_digit_def code_def dest: set_takeWhileD split: list.splits if_splits)
  then have "lf \<notin> set (fraction (drop 19 t) @ ''Z'')" by simp
  moreover have "drop 19 t = fraction (drop 19 t) @ ''Z''" using v by (simp add: valid_stamp_def)
  ultimately have "lf \<notin> set (drop 19 t)" by metis
  with \<open>lf \<notin> set (take 19 t)\<close> show ?thesis by (metis UnE append_take_drop_id set_append)
qed

lemma js_split_join: "xs \<noteq> [] \<Longrightarrow> \<forall>x\<in>set xs. d \<notin> set x \<Longrightarrow> js_split d (js_join [d] xs) = xs"
proof (induction xs rule: induct_list012)
  case (3 x y zs)
  then show ?case by (simp add: js_split_append_sep)
qed (simp_all add: js_split_no_sep)

lemma docker_lines:
  assumes "list_all (\<lambda>(t, x). valid_stamp t \<and> lf \<notin> set x) L"
  shows "contents_of (docker_output L) = L"
proof (cases "L = []")
  case True
  then show ?thesis by (simp add: docker_output_def contents_of_def parseLogLines_def)
next
  case False
  let ?raws = "map (\<lambda>(t, x). t @ '' '' @ x) L"
  have "\<forall>r\<in>set ?raws. lf \<notin> set r"
    using assms valid_stamp_no_lf by (auto simp: list_all_iff)
  with False have split: "js_split lf (docker_output L) = ?raws"
    unfolding docker_output_def by (intro js_split_join) auto
  have "map content (fst (parse_raws (map (\<lambda>(t, x). t @ '' '' @ x) L) n)) = L" for n
    using assms
  proof (induction L arbitrary: n)
    case (Cons c L)
    obtain t x where c: "c = (t, x)" by force
    from Cons.prems have t: "valid_stamp t" by (simp add: c)
    obtain d ds where d: "t = d # ds" "is_digit d" using valid_stamp_start [OF t] by blast
    then have "js_trim (t @ '' '' @ x) \<noteq> []"
      by (auto simp: js_trim_empty_iff dest: digit_not_ws)
    moreover have "content (parse_line i (t @ '' '' @ x)) = (t, x)" for i
      using split_valid [OF t] by (simp add: parse_line_def content_def Let_def)
    ultimately show ?case using Cons.IH [of "Suc n"] Cons.prems by (simp add: c case_prod_beta)
  qed simp
  with split show ?thesis by (simp add: contents_of_def parseLogLines_def)
qed

section \<open>Samples\<close>

definition sample_log :: contents where
  "sample_log =
     [(''2026-09-28T10:00:00Z'', ''Server started''), (''2026-09-28T10:00:01Z'', ''ping'')]"

definition sample_more :: "contents list" where
  "sample_more =
     [[(''2026-09-28T10:00:01Z'', ''ping''), (''2026-09-28T10:00:02.5Z'', ''ERROR failed'')], [],
      [(''2026-09-28T10:00:03Z'', ''done'')]]"

definition sample_venv :: viewer_env where
  "sample_venv =
     \<lparr>numberOfLines = 100, streamLogs = True, showTimeStamps = True, documentHidden = False, listOffset = None,
      columnsObserved = False, virtualItems = [], virtualSize = 0, distanceFromBottom = 0\<rparr>"

definition sample_rounds :: "(viewer_env \<times> string) list" where
  "sample_rounds =
     [(sample_venv, docker_output (drop 1 (sample_log @ concat (take 1 sample_more)))),
      (sample_venv, docker_output (drop 3 (sample_log @ concat (take 2 sample_more)))),
      (sample_venv, docker_output (drop 3 (sample_log @ concat (take 3 sample_more))))]"

definition sample_first :: viewer where
  "sample_first = viewer_init sample_venv (runtimeLogs \<lparr>config_expanded = True, config_containerName = None\<rparr> None None)"

definition sample_loaded :: viewer where
  "sample_loaded = run viewer_step sample_first [Settled sample_venv 0 (Some (Some (docker_output sample_log)))]"

lemma sample_first_start: "viewer_start sample_first"
  unfolding viewer_start_def sample_first_def by blast

lemma sample_log_valid: "list_all (\<lambda>(t, x). valid_stamp t \<and> lf \<notin> set x) (sample_log @ concat sample_more)"
  by code_simp

lemma sample_facts:
  "shown sample_loaded = sample_log" "expanded sample_loaded" "\<not> destroyed sample_loaded" "\<not> loading sample_loaded"
  by code_simp+

lemma sample_following: "following sample_loaded"
proof -
  have "viewer_inv sample_loaded" unfolding sample_loaded_def by (rule viewer_run_inv [OF sample_first_start])
  with sample_facts show ?thesis by (simp add: following_def)
qed

lemma steadyI:
  "sorted (map fst L) \<Longrightarrow> list_all (\<lambda>c. fst c \<noteq> []) L \<Longrightarrow> length L \<le> MAX_CLIENT_LOG_LINES \<Longrightarrow> steady L"
  using le_trans [OF length_filter_le] by (auto simp: steady_def)

lemma sample_steady: "steady (sample_log @ concat sample_more)"
  by (rule steadyI) code_simp+

lemma sample_answers: "answers sample_log sample_rounds sample_more"
  by code_simp

section \<open>After destroy\<close>

text \<open>What stays as it is once the viewer is destroyed.\<close>

definition frozen :: "viewer \<Rightarrow> viewer \<Rightarrow> bool" where
  "frozen s t \<longleftrightarrow>
     destroyed t \<and> virtualizer t = None \<and> lines t = lines s \<and> virtualRows t = virtualRows s \<and> totalSize t = totalSize s \<and>
     (\<exists>xs. viewerFx t = viewerFx s @ xs \<and> list_all (\<lambda>x. \<forall>i. x \<noteq> ScrollToIndex i) xs)"

lemma frozen_refl: "destroyed s \<Longrightarrow> virtualizer s = None \<Longrightarrow> frozen s s"
  by (simp add: frozen_def)

lemma frozen_trans: "frozen s t \<Longrightarrow> frozen t u \<Longrightarrow> frozen s u"
  by (auto simp: frozen_def)

lemmas viewer_ops =
  run_viewer_timer_def run_viewer_tick_def settle_def toggle_expanded_def refresh_def refreshLines_def
  showAllLogs_def toggleLogFilter_def toggleColorLogs_def viewer_makeFullscreen_def toggleLogDetails_def
  handleKeyDown_def toggleScroll_def handleWheel_def handleTouchStart_def handleTouchMove_def handleKeyScroll_def
  handleScroll_def scrollSettled_def updateVirtualizer_def syncRows_def mountVirtualizer_def scrollToBottom_def
  downloadLogs_def downloadText_def measureRow_def viewer_destroy_def streamTick_def ask_def emit_fx_def applyFilters_def disableFollow_def Let_def

lemma frozen_reply: "destroyed s \<Longrightarrow> virtualizer s = None \<Longrightarrow> frozen s (on_reply v r output s)"
  by (simp add: on_reply_def replaceLines_def frozen_def split: request.split)

lemma frozen_settle: "destroyed s \<Longrightarrow> virtualizer s = None \<Longrightarrow> frozen s (settle v i reply s)"
proof -
  assume s: "destroyed s" "virtualizer s = None"
  have fin: "frozen s (finally_block r t)" if "frozen s t" for r t
    using that by (simp add: finally_block_def frozen_def split: request.split)
  have "frozen s (on_reply v r output (s\<lparr>pending := q\<rparr>))" for r "output" q
    using frozen_reply [of "s\<lparr>pending := q\<rparr>" v r "output"] s by (simp add: frozen_def)
  with s fin show ?thesis
    by (simp add: settle_def Let_def frozen_def split: option.split)
qed

lemma frozen_step:
  assumes s: "destroyed s" "virtualizer s = None" shows "frozen s (viewer_step s e)"
proof (cases e)
  case (Settled v i reply)
  with s show ?thesis by (simp add: frozen_settle)
next
  case (ViewerTimer v i)
  with s show ?thesis by (auto simp: frozen_def viewer_ops split: option.split viewer_timer.split)
next
  case (ViewerTick v)
  with s show ?thesis by (auto simp: frozen_def viewer_ops split: list.split viewer_tick.split)
qed (use s in \<open>auto simp: frozen_def viewer_ops case_prod_beta\<close>)

lemma frozen_run: "destroyed s \<Longrightarrow> virtualizer s = None \<Longrightarrow> frozen s (run viewer_step s es)"
proof (induction es arbitrary: s)
  case (Cons e es)
  from frozen_step [OF Cons.prems, of e] Cons.IH [of "viewer_step s e"] show ?case
    by (auto simp: frozen_def)
qed (simp add: frozen_refl)

section \<open>Who takes the find shortcut\<close>

text \<open>A page with several viewers: where the focus is, and which viewer \<open>querySelector\<close> finds.\<close>

datatype focus = InSearch nat | InViewer nat | EditableElsewhere | Elsewhere

definition first_where :: "('a \<Rightarrow> bool) \<Rightarrow> 'a list \<Rightarrow> nat option" where
  "first_where Q xs = find (\<lambda>i. Q (xs ! i)) [0..<length xs]"

definition find_target :: "viewer list \<Rightarrow> nat option" where
  "find_target vs =
     (case first_where viewerFullscreen vs of
        Some i \<Rightarrow> Some i
      | None \<Rightarrow> first_where expanded vs)"

definition focus_of :: "viewer list \<Rightarrow> focus \<Rightarrow> nat \<Rightarrow> focus_env" where
  "focus_of vs f i =
     \<lparr>activeIsSearch = (f = InSearch i), activeInRoot = (f = InSearch i \<or> f = InViewer i),
      activeInViewer = (case f of InSearch j \<Rightarrow> True | InViewer j \<Rightarrow> True | _ \<Rightarrow> False),
      activeEditable = (case f of InSearch j \<Rightarrow> True | EditableElsewhere \<Rightarrow> True | _ \<Rightarrow> False),
      targetIsRoot = (find_target vs = Some i)\<rparr>"

lemma first_where_Some: "first_where Q xs = Some i \<Longrightarrow> i < length xs \<and> Q (xs ! i)"
  by (auto simp: first_where_def find_Some_iff)

lemma first_where_None: "first_where Q xs = None \<Longrightarrow> i < length xs \<Longrightarrow> \<not> Q (xs ! i)"
  by (auto simp: first_where_def find_None_iff)

section \<open>Properties\<close>

text \<open>C6: Following a log refines appending to it. When an open, live viewer with nothing in flight shows
  a suffix of the server's log that holds every line of its last time stamp, and each round of
  its interval is answered with the lines of the growing log that are not older than the time
  stamp it asked for, then after all rounds it shows exactly the newest 50000 lines of what it
  showed followed by what the log gained: none lost, none repeated, in order. The log's time
  stamps do not decrease and at most 50000 lines share one.\<close>

theorem stream_follows_log:
  assumes "answers P rounds Ns" "following s" "P \<noteq> []" "steady (P @ concat Ns)"
    "shown s = drop k P" "k \<le> before_last P" "length (shown s) \<le> MAX_CLIENT_LOG_LINES"
  shows "shown (follow rounds s) = tail MAX_CLIENT_LOG_LINES (shown s @ concat Ns)"
  by (rule follow_shown [OF assms, THEN conjunct1])

theorem stream_follows_log_witness:
  "shown (follow sample_rounds sample_loaded) = sample_log @ concat sample_more"
proof -
  have "shown (follow sample_rounds sample_loaded) = tail MAX_CLIENT_LOG_LINES (shown sample_loaded @ concat sample_more)"
    by (rule stream_follows_log [OF sample_answers sample_following _ sample_steady, of 0])
      (simp_all add: sample_facts sample_log_def MAX_CLIENT_LOG_LINES_def)
  then show ?thesis
    by (simp add: sample_facts tail_def sample_log_def sample_more_def MAX_CLIENT_LOG_LINES_def)
qed

text \<open>C27: Docker's output is read back. Lines written as time stamp, space and text, joined by line
  feeds, are parsed to exactly those time stamps and texts.\<close>

theorem docker_output_round_trip:
  assumes "list_all (\<lambda>(t, x). valid_stamp t \<and> lf \<notin> set x) L"
  shows "map content (fst (parseLogLines (Some (docker_output L)) n)) = L"
  using docker_lines [OF assms] by (simp add: content_parse)

theorem docker_output_round_trip_witness:
  "map content (fst (parseLogLines (Some (docker_output (sample_log @ concat sample_more))) 7)) =
    sample_log @ concat sample_more"
  by (rule docker_output_round_trip [OF sample_log_valid])



text \<open>One request at a time. In every history at most one request to the server is in flight, the
  viewer is loading exactly then, and its two other indicators tell which request it is.\<close>

theorem viewer_requests_exclusive:
  assumes "viewer_start s"
  shows "length (pending (run viewer_step s es)) \<le> 1 \<and>
      loading (run viewer_step s es) = (pending (run viewer_step s es) \<noteq> []) \<and>
      loadingAll (run viewer_step s es) = (pending (run viewer_step s es) = [ReqAll]) \<and>
      loadingLines (run viewer_step s es) = (pending (run viewer_step s es) = [ReqLogs True])"
  using viewer_run_inv [OF assms, of es] by (auto simp: viewer_inv_def requests_ok_def)

theorem viewer_requests_exclusive_witness:
  "loading (run viewer_step sample_first []) = (pending (run viewer_step sample_first []) \<noteq> [])"
  using viewer_requests_exclusive [OF sample_first_start] by blast

text \<open>C28: A destroyed viewer is inert. Whatever happens after \<open>destroy\<close> - replies that arrive late,
  timers, scheduled callbacks, clicks - its lines and rows stay as they were, it has no
  virtualiser and it scrolls nothing.\<close>

theorem destroyed_viewer_inert:
  assumes "viewer_start s" "destroyed (run viewer_step s es)"
  shows "frozen (run viewer_step s es) (run viewer_step s (es @ fs))"
  using frozen_run [OF assms(2)] inv_virtualizer [OF viewer_run_inv [OF assms(1)] assms(2)] by simp

theorem destroyed_viewer_inert_witness:
  "frozen (run viewer_step sample_first [ViewerDestroyed])
     (run viewer_step sample_first ([ViewerDestroyed] @ [Settled sample_venv 0 (Some (Some (docker_output sample_log)))]))"
  by (rule destroyed_viewer_inert [OF sample_first_start]) (simp add: viewer_destroy_def)

text \<open>C40: A line without a time stamp defeats the comparison. When the last line the viewer holds has
  no time stamp, nothing is counted as seen at the boundary, so a follow-up request adds every
  line it returns that is not older than the last time stamp, those already shown included.\<close>

theorem unstamped_tail_repeats:
  assumes "lastTimestamp existing = Some T" "ts (last existing) = []" "existing \<noteq> []"
  shows "newLinesSince existing incoming = filter (\<lambda>l. ts l = [] \<or> T \<le> ts l) incoming"
proof -
  have "T \<noteq> []" using assms(1) by (auto simp: lastTimestamp_def find_Some_iff)
  obtain ys l where "existing = ys @ [l]" using assms(3) by (metis append_butlast_last_id)
  with assms(2) \<open>T \<noteq> []\<close> have "seenAtBoundary existing T = (\<lambda>_. 0)"
    by (simp add: seenAtBoundary_def)
  moreover have "drop_seen T (\<lambda>_. 0) ls = filter (\<lambda>l. ts l = [] \<or> T \<le> ts l) ls" for ls
    by (induction ls) auto
  ultimately show ?thesis by (simp add: newLinesSince_def assms(1))
qed

definition unstamped_lines :: "log_line list" where
  "unstamped_lines = [parse_line 1 ''2026-09-28T10:00:01Z ping'', parse_line 2 ''plain'']"

theorem unstamped_tail_repeats_witness:
  "newLinesSince unstamped_lines unstamped_lines = unstamped_lines"
proof -
  have "newLinesSince unstamped_lines unstamped_lines =
      filter (\<lambda>l. ts l = [] \<or> ''2026-09-28T10:00:01Z'' \<le> ts l) unstamped_lines"
    by (rule unstamped_tail_repeats) code_simp+
  also have "\<dots> = unstamped_lines" by code_simp
  finally show ?thesis .
qed

text \<open>The level of a line depends on its words alone: with the words being its maximal runs of
  letters, digits and underscores, it is an error if one of the error words is among them,
  otherwise a warning, debug or info in the same way.\<close>

theorem getLogLevel_classifies:
  "getLogLevel text' = level_of_words (words_of text')"
  by (rule getLogLevel_words)

text \<open>Highlighting loses nothing. The segments of a text put together are the text; the matching
  ones are the searched text up to case and the others do not contain it; and a text has a
  matching segment exactly when the filter would keep a line with it.\<close>

theorem highlight_round_trip:
  "concat (map seg_text (highlightSegments text' query)) = text' \<and>
   list_all (segment_ok (js_lower (js_trim query))) (highlightSegments text' query) \<and>
   list_ex matching (highlightSegments text' query) =
     (js_lower (js_trim query) \<noteq> [] \<and> js_includes (js_lower text') (js_lower (js_trim query)))"
proof (intro conjI)
  show "concat (map seg_text (highlightSegments text' query)) = text'" by (rule concat_seg_texts)
  show "list_all (segment_ok (js_lower (js_trim query))) (highlightSegments text' query)"
    using highlight_loop_ok by (simp add: highlightSegments_def Let_def segment_ok_def)
  show "list_ex matching (highlightSegments text' query) =
     (js_lower (js_trim query) \<noteq> [] \<and> js_includes (js_lower text') (js_lower (js_trim query)))"
    using highlight_loop_matches by (simp add: highlightSegments_def Let_def)
qed

text \<open>At most one viewer of a page takes the find shortcut, wherever the focus is, and the one that
  takes it is expanded.\<close>

theorem find_shortcut_unique:
  assumes "i < length vs" "j < length vs"
    "ownsFindShortcut (focus_of vs f i) (vs ! i)" "ownsFindShortcut (focus_of vs f j) (vs ! j)"
  shows "i = j \<and> expanded (vs ! i)"
  using assms by (cases f) (auto simp: ownsFindShortcut_def focus_of_def split: if_splits)

theorem find_shortcut_unique_witness:
  "(0::nat) = 0 \<and> expanded ([sample_first, sample_first] ! 0)"
  by (rule find_shortcut_unique [where f = Elsewhere and j = 0]) code_simp+

end
