(* ===== verification/TrafficGlobe.thy ===== *)
theory TrafficGlobe
  imports JSPrelude Complex_Main
begin

text \<open>
  The traffic globe, resources/js/traffic-globe.js: markers, angles, and the controller that
  drives the animation. The renderer (cobe) is a library: what it is told are effects. Numbers
  are reals here where the code has doubles.
\<close>

section \<open>Data\<close>

text \<open>\<open>CENTROIDS\<close>: latitude and longitude of a country.\<close>

definition CENTROIDS :: "(string \<times> real \<times> real) list" where
  "CENTROIDS =
     [(''AD'', 42546245 / 1000000, 1601554 / 1000000), (''AE'', 23424076 / 1000000, 53847818 / 1000000),
      (''AF'', 3393911 / 100000, 67709953 / 1000000), (''AG'', 17060816 / 1000000, - (61796428 / 1000000)),
      (''AI'', 18220554 / 1000000, - (63068615 / 1000000)), (''AL'', 41153332 / 1000000, 20168331 / 1000000),
      (''AM'', 40069099 / 1000000, 45038189 / 1000000), (''AN'', 12226079 / 1000000, - (69060087 / 1000000)),
      (''AO'', - (11202692 / 1000000), 17873887 / 1000000), (''AQ'', - (75250973 / 1000000), - (71389 / 1000000)),
      (''AR'', - (38416097 / 1000000), - (63616672 / 1000000)), (''AS'', - (14270972 / 1000000), - (170132217 / 1000000)),
      (''AT'', 47516231 / 1000000, 14550072 / 1000000), (''AU'', - (25274398 / 1000000), 133775136 / 1000000),
      (''AW'', 1252111 / 100000, - (69968338 / 1000000)), (''AZ'', 40143105 / 1000000, 47576927 / 1000000),
      (''BA'', 43915886 / 1000000, 17679076 / 1000000), (''BB'', 13193887 / 1000000, - (59543198 / 1000000)),
      (''BD'', 23684994 / 1000000, 90356331 / 1000000), (''BE'', 50503887 / 1000000, 4469936 / 1000000),
      (''BF'', 12238333 / 1000000, - (1561593 / 1000000)), (''BG'', 42733883 / 1000000, 2548583 / 100000),
      (''BH'', 25930414 / 1000000, 50637772 / 1000000), (''BI'', - (3373056 / 1000000), 29918886 / 1000000),
      (''BJ'', 930769 / 100000, 2315834 / 1000000), (''BM'', 32321384 / 1000000, - (6475737 / 100000)),
      (''BN'', 4535277 / 1000000, 114727669 / 1000000), (''BO'', - (16290154 / 1000000), - (63588653 / 1000000)),
      (''BR'', - (14235004 / 1000000), - (5192528 / 100000)), (''BS'', 2503428 / 100000, - (7739628 / 100000)),
      (''BT'', 27514162 / 1000000, 90433601 / 1000000), (''BV'', - (54423199 / 1000000), 3413194 / 1000000),
      (''BW'', - (22328474 / 1000000), 24684866 / 1000000), (''BY'', 53709807 / 1000000, 27953389 / 1000000),
      (''BZ'', 17189877 / 1000000, - (8849765 / 100000)), (''CA'', 56130366 / 1000000, - (106346771 / 1000000)),
      (''CC'', - (12164165 / 1000000), 96870956 / 1000000), (''CD'', - (4038333 / 1000000), 21758664 / 1000000),
      (''CF'', 6611111 / 1000000, 20939444 / 1000000), (''CG'', - (228021 / 1000000), 15827659 / 1000000),
      (''CH'', 46818188 / 1000000, 8227512 / 1000000), (''CI'', 7539989 / 1000000, - (554708 / 100000)),
      (''CK'', - (21236736 / 1000000), - (159777671 / 1000000)), (''CL'', - (35675147 / 1000000), - (71542969 / 1000000)),
      (''CM'', 7369722 / 1000000, 12354722 / 1000000), (''CN'', 3586166 / 100000, 104195397 / 1000000),
      (''CO'', 4570868 / 1000000, - (74297333 / 1000000)), (''CR'', 9748917 / 1000000, - (83753428 / 1000000)),
      (''CU'', 21521757 / 1000000, - (77781167 / 1000000)), (''CV'', 16002082 / 1000000, - (24013197 / 1000000)),
      (''CX'', - (10447525 / 1000000), 105690449 / 1000000), (''CY'', 35126413 / 1000000, 33429859 / 1000000),
      (''CZ'', 49817492 / 1000000, 15472962 / 1000000), (''DE'', 51165691 / 1000000, 10451526 / 1000000),
      (''DJ'', 11825138 / 1000000, 42590275 / 1000000), (''DK'', 5626392 / 100000, 9501785 / 1000000),
      (''DM'', 15414999 / 1000000, - (61370976 / 1000000)), (''DO'', 18735693 / 1000000, - (70162651 / 1000000)),
      (''DZ'', 28033886 / 1000000, 1659626 / 1000000), (''EC'', - (1831239 / 1000000), - (78183406 / 1000000)),
      (''EE'', 58595272 / 1000000, 25013607 / 1000000), (''EG'', 26820553 / 1000000, 30802498 / 1000000),
      (''EH'', 24215527 / 1000000, - (12885834 / 1000000)), (''ER'', 15179384 / 1000000, 39782334 / 1000000),
      (''ES'', 40463667 / 1000000, - (374922 / 100000)), (''ET'', 9145 / 1000, 40489673 / 1000000),
      (''FI'', 6192411 / 100000, 25748151 / 1000000), (''FJ'', - (16578193 / 1000000), 179414413 / 1000000),
      (''FK'', - (51796253 / 1000000), - (59523613 / 1000000)), (''FM'', 7425554 / 1000000, 150550812 / 1000000),
      (''FO'', 61892635 / 1000000, - (6911806 / 1000000)), (''FR'', 46227638 / 1000000, 2213749 / 1000000),
      (''GA'', - (803689 / 1000000), 11609444 / 1000000), (''GB'', 55378051 / 1000000, - (3435973 / 1000000)),
      (''GD'', 12262776 / 1000000, - (61604171 / 1000000)), (''GE'', 42315407 / 1000000, 43356892 / 1000000),
      (''GF'', 3933889 / 1000000, - (53125782 / 1000000)), (''GG'', 49465691 / 1000000, - (2585278 / 1000000)),
      (''GH'', 7946527 / 1000000, - (1023194 / 1000000)), (''GI'', 36137741 / 1000000, - (5345374 / 1000000)),
      (''GL'', 71706936 / 1000000, - (42604303 / 1000000)), (''GM'', 13443182 / 1000000, - (15310139 / 1000000)),
      (''GN'', 9945587 / 1000000, - (9696645 / 1000000)), (''GP'', 16995971 / 1000000, - (62067641 / 1000000)),
      (''GQ'', 1650801 / 1000000, 10267895 / 1000000), (''GR'', 39074208 / 1000000, 21824312 / 1000000),
      (''GS'', - (54429579 / 1000000), - (36587909 / 1000000)), (''GT'', 15783471 / 1000000, - (90230759 / 1000000)),
      (''GU'', 13444304 / 1000000, 144793731 / 1000000), (''GW'', 11803749 / 1000000, - (15180413 / 1000000)),
      (''GY'', 4860416 / 1000000, - (5893018 / 100000)), (''GZ'', 31354676 / 1000000, 34308825 / 1000000),
      (''HK'', 22396428 / 1000000, 114109497 / 1000000), (''HM'', - (5308181 / 100000), 73504158 / 1000000),
      (''HN'', 15199999 / 1000000, - (86241905 / 1000000)), (''HR'', 451 / 10, 152 / 10),
      (''HT'', 18971187 / 1000000, - (72285215 / 1000000)), (''HU'', 47162494 / 1000000, 19503304 / 1000000),
      (''ID'', - (789275 / 1000000), 113921327 / 1000000), (''IE'', 5341291 / 100000, - (824389 / 100000)),
      (''IL'', 31046051 / 1000000, 34851612 / 1000000), (''IM'', 54236107 / 1000000, - (4548056 / 1000000)),
      (''IN'', 20593684 / 1000000, 7896288 / 100000), (''IO'', - (6343194 / 1000000), 71876519 / 1000000),
      (''IQ'', 33223191 / 1000000, 43679291 / 1000000), (''IR'', 32427908 / 1000000, 53688046 / 1000000),
      (''IS'', 64963051 / 1000000, - (19020835 / 1000000)), (''IT'', 4187194 / 100000, 1256738 / 100000),
      (''JE'', 49214439 / 1000000, - (213125 / 100000)), (''JM'', 18109581 / 1000000, - (77297508 / 1000000)),
      (''JO'', 30585164 / 1000000, 36238414 / 1000000), (''JP'', 36204824 / 1000000, 138252924 / 1000000),
      (''KE'', - (23559 / 1000000), 37906193 / 1000000), (''KG'', 4120438 / 100000, 74766098 / 1000000),
      (''KH'', 12565679 / 1000000, 104990963 / 1000000), (''KI'', - (3370417 / 1000000), - (168734039 / 1000000)),
      (''KM'', - (11875001 / 1000000), 43872219 / 1000000), (''KN'', 17357822 / 1000000, - (62782998 / 1000000)),
      (''KP'', 40339852 / 1000000, 127510093 / 1000000), (''KR'', 35907757 / 1000000, 127766922 / 1000000),
      (''KW'', 2931166 / 100000, 47481766 / 1000000), (''KY'', 19513469 / 1000000, - (80566956 / 1000000)),
      (''KZ'', 48019573 / 1000000, 66923684 / 1000000), (''LA'', 1985627 / 100000, 102495496 / 1000000),
      (''LB'', 33854721 / 1000000, 35862285 / 1000000), (''LC'', 13909444 / 1000000, - (60978893 / 1000000)),
      (''LI'', 47166 / 1000, 9555373 / 1000000), (''LK'', 7873054 / 1000000, 80771797 / 1000000),
      (''LR'', 6428055 / 1000000, - (9429499 / 1000000)), (''LS'', - (29609988 / 1000000), 28233608 / 1000000),
      (''LT'', 55169438 / 1000000, 23881275 / 1000000), (''LU'', 49815273 / 1000000, 6129583 / 1000000),
      (''LV'', 56879635 / 1000000, 24603189 / 1000000), (''LY'', 263351 / 10000, 17228331 / 1000000),
      (''MA'', 31791702 / 1000000, - (709262 / 100000)), (''MC'', 43750298 / 1000000, 7412841 / 1000000),
      (''MD'', 47411631 / 1000000, 28369885 / 1000000), (''ME'', 42708678 / 1000000, 1937439 / 100000),
      (''MG'', - (18766947 / 1000000), 46869107 / 1000000), (''MH'', 7131474 / 1000000, 171184478 / 1000000),
      (''MK'', 41608635 / 1000000, 21745275 / 1000000), (''ML'', 17570692 / 1000000, - (3996166 / 1000000)),
      (''MM'', 21913965 / 1000000, 95956223 / 1000000), (''MN'', 46862496 / 1000000, 103846656 / 1000000),
      (''MO'', 22198745 / 1000000, 113543873 / 1000000), (''MP'', 1733083 / 100000, 14538469 / 100000),
      (''MQ'', 14641528 / 1000000, - (61024174 / 1000000)), (''MR'', 2100789 / 100000, - (10940835 / 1000000)),
      (''MS'', 16742498 / 1000000, - (62187366 / 1000000)), (''MT'', 35937496 / 1000000, 14375416 / 1000000),
      (''MU'', - (20348404 / 1000000), 57552152 / 1000000), (''MV'', 3202778 / 1000000, 7322068 / 100000),
      (''MW'', - (13254308 / 1000000), 34301525 / 1000000), (''MX'', 23634501 / 1000000, - (102552784 / 1000000)),
      (''MY'', 4210484 / 1000000, 101975766 / 1000000), (''MZ'', - (18665695 / 1000000), 35529562 / 1000000),
      (''NA'', - (2295764 / 100000), 1849041 / 100000), (''NC'', - (20904305 / 1000000), 165618042 / 1000000),
      (''NE'', 17607789 / 1000000, 8081666 / 1000000), (''NF'', - (29040835 / 1000000), 167954712 / 1000000),
      (''NG'', 9081999 / 1000000, 8675277 / 1000000), (''NI'', 12865416 / 1000000, - (85207229 / 1000000)),
      (''NL'', 52132633 / 1000000, 5291266 / 1000000), (''NO'', 60472024 / 1000000, 8468946 / 1000000),
      (''NP'', 28394857 / 1000000, 84124008 / 1000000), (''NR'', - (522778 / 1000000), 166931503 / 1000000),
      (''NU'', - (19054445 / 1000000), - (169867233 / 1000000)), (''NZ'', - (40900557 / 1000000), 174885971 / 1000000),
      (''OM'', 21512583 / 1000000, 55923255 / 1000000), (''PA'', 8537981 / 1000000, - (80782127 / 1000000)),
      (''PE'', - (9189967 / 1000000), - (75015152 / 1000000)), (''PF'', - (17679742 / 1000000), - (149406843 / 1000000)),
      (''PG'', - (6314993 / 1000000), 14395555 / 100000), (''PH'', 12879721 / 1000000, 121774017 / 1000000),
      (''PK'', 30375321 / 1000000, 69345116 / 1000000), (''PL'', 51919438 / 1000000, 19145136 / 1000000),
      (''PM'', 46941936 / 1000000, - (5627111 / 100000)), (''PN'', - (24703615 / 1000000), - (127439308 / 1000000)),
      (''PR'', 18220833 / 1000000, - (66590149 / 1000000)), (''PS'', 31952162 / 1000000, 35233154 / 1000000),
      (''PT'', 39399872 / 1000000, - (8224454 / 1000000)), (''PW'', 751498 / 100000, 13458252 / 100000),
      (''PY'', - (23442503 / 1000000), - (58443832 / 1000000)), (''QA'', 25354826 / 1000000, 51183884 / 1000000),
      (''RE'', - (21115141 / 1000000), 55536384 / 1000000), (''RO'', 45943161 / 1000000, 2496676 / 100000),
      (''RS'', 44016521 / 1000000, 21005859 / 1000000), (''RU'', 6152401 / 100000, 105318756 / 1000000),
      (''RW'', - (1940278 / 1000000), 29873888 / 1000000), (''SA'', 23885942 / 1000000, 45079162 / 1000000),
      (''SB'', - (964571 / 100000), 160156194 / 1000000), (''SC'', - (4679574 / 1000000), 55491977 / 1000000),
      (''SD'', 12862807 / 1000000, 30217636 / 1000000), (''SE'', 60128161 / 1000000, 18643501 / 1000000),
      (''SG'', 1352083 / 1000000, 103819836 / 1000000), (''SH'', - (24143474 / 1000000), - (10030696 / 1000000)),
      (''SI'', 46151241 / 1000000, 14995463 / 1000000), (''SJ'', 77553604 / 1000000, 23670272 / 1000000),
      (''SK'', 48669026 / 1000000, 19699024 / 1000000), (''SL'', 8460555 / 1000000, - (11779889 / 1000000)),
      (''SM'', 4394236 / 100000, 12457777 / 1000000), (''SN'', 14497401 / 1000000, - (14452362 / 1000000)),
      (''SO'', 5152149 / 1000000, 46199616 / 1000000), (''SR'', 3919305 / 1000000, - (56027783 / 1000000)),
      (''ST'', 18636 / 100000, 6613081 / 1000000), (''SV'', 13794185 / 1000000, - (8889653 / 100000)),
      (''SY'', 34802075 / 1000000, 38996815 / 1000000), (''SZ'', - (26522503 / 1000000), 31465866 / 1000000),
      (''TC'', 21694025 / 1000000, - (71797928 / 1000000)), (''TD'', 15454166 / 1000000, 18732207 / 1000000),
      (''TF'', - (49280366 / 1000000), 69348557 / 1000000), (''TG'', 8619543 / 1000000, 824782 / 1000000),
      (''TH'', 15870032 / 1000000, 100992541 / 1000000), (''TJ'', 38861034 / 1000000, 71276093 / 1000000),
      (''TK'', - (8967363 / 1000000), - (171855881 / 1000000)), (''TL'', - (8874217 / 1000000), 125727539 / 1000000),
      (''TM'', 38969719 / 1000000, 59556278 / 1000000), (''TN'', 33886917 / 1000000, 9537499 / 1000000),
      (''TO'', - (21178986 / 1000000), - (175198242 / 1000000)), (''TR'', 38963745 / 1000000, 35243322 / 1000000),
      (''TT'', 10691803 / 1000000, - (61222503 / 1000000)), (''TV'', - (7109535 / 1000000), 17764933 / 100000),
      (''TW'', 2369781 / 100000, 120960515 / 1000000), (''TZ'', - (6369028 / 1000000), 34888822 / 1000000),
      (''UA'', 48379433 / 1000000, 3116558 / 100000), (''UG'', 1373333 / 1000000, 32290275 / 1000000),
      (''US'', 3709024 / 100000, - (95712891 / 1000000)), (''UY'', - (32522779 / 1000000), - (55765835 / 1000000)),
      (''UZ'', 41377491 / 1000000, 64585262 / 1000000), (''VA'', 41902916 / 1000000, 12453389 / 1000000),
      (''VC'', 12984305 / 1000000, - (61287228 / 1000000)), (''VE'', 642375 / 100000, - (6658973 / 100000)),
      (''VG'', 18420695 / 1000000, - (64639968 / 1000000)), (''VI'', 18335765 / 1000000, - (64896335 / 1000000)),
      (''VN'', 14058324 / 1000000, 108277199 / 1000000), (''VU'', - (15376706 / 1000000), 166959158 / 1000000),
      (''WF'', - (13768752 / 1000000), - (177156097 / 1000000)), (''WS'', - (13759029 / 1000000), - (172104629 / 1000000)),
      (''XK'', 42602636 / 1000000, 20902977 / 1000000), (''YE'', 15552727 / 1000000, 48516388 / 1000000),
      (''YT'', - (128275 / 10000), 45166244 / 1000000), (''ZA'', - (30559482 / 1000000), 22937506 / 1000000),
      (''ZM'', - (13133897 / 1000000), 27849332 / 1000000), (''ZW'', - (19015438 / 1000000), 29154857 / 1000000)]"

record globe_theme =
  theme_dark :: nat
  baseColor :: "real \<times> real \<times> real"
  markerColor :: "real \<times> real \<times> real"
  glowColor :: "real \<times> real \<times> real"
  mapBrightness :: nat

definition THEMES :: "bool \<Rightarrow> globe_theme" where
  "THEMES dark =
     (if dark
      then \<lparr>theme_dark = 1, baseColor = (45 / 100, 5 / 10, 62 / 100), markerColor = (36 / 100, 6 / 10, 1),
            glowColor = (12 / 100, 16 / 100, 26 / 100), mapBrightness = 11\<rparr>
      else \<lparr>theme_dark = 0, baseColor = (82 / 100, 85 / 100, 9 / 10), markerColor = (13 / 100, 36 / 100, 92 / 100),
            glowColor = (1, 1, 1), mapBrightness = 9\<rparr>)"

record marker =
  place :: "real \<times> real"
  dot_size :: real

text \<open>\<open>toUpperCase\<close> of a character; the two whose capital is outside the Latin-1 range keep their place.\<close>

definition js_upper_char :: "char \<Rightarrow> string" where
  "js_upper_char c =
     (let n = code c in
      if n = 223 then ''SS''
      else if (97 \<le> n \<and> n \<le> 122) \<or> (224 \<le> n \<and> n \<le> 254 \<and> n \<noteq> 247) then [char_of (n - 32)]
      else [c])"

definition js_upper :: "string \<Rightarrow> string" where
  "js_upper s = concat (map js_upper_char s)"

text \<open>A row of the breakdown: the country's code and \<open>Number(r.requests || 0)\<close>, which is no number for
  \<^term>\<open>None\<close>.\<close>

type_synonym row = "string option \<times> real option"

definition centroid_of :: "string option \<Rightarrow> (real \<times> real) option" where
  "centroid_of c = map_of CENTROIDS (js_upper (case c of None \<Rightarrow> [] | Some s \<Rightarrow> s))"

definition marker_rows :: "row list \<Rightarrow> ((real \<times> real) \<times> real) list" where
  "marker_rows data =
     concat (map (\<lambda>(c, r). case (centroid_of c, r) of
        (Some l, Some n) \<Rightarrow> if 0 < n then [(l, n)] else []
      | _ \<Rightarrow> []) data)"

definition marker_size :: "real \<Rightarrow> real \<Rightarrow> real" where
  "marker_size m n = max (3 / 100) (min (11 / 100) (sqrt (n / m) * (11 / 100)))"

definition buildMarkers :: "row list \<Rightarrow> marker list" where
  "buildMarkers data =
     (let rows = marker_rows data in
      if rows = [] then []
      else (let m = Max (set (map snd rows)) in map (\<lambda>(l, n). \<lparr>place = l, dot_size = marker_size m n\<rparr>) rows))"

section \<open>Angles\<close>

definition TWO_PI :: real where "TWO_PI = pi * 2"

definition locationToAngles :: "real \<Rightarrow> real \<Rightarrow> real \<times> real" where
  "locationToAngles lat lng = (pi - ((lng * pi) / 180 - pi / 2), (lat * pi) / 180)"

text \<open>The remainder \<open>x % m\<close> has the sign of \<open>x\<close>.\<close>

definition js_rem :: "real \<Rightarrow> real \<Rightarrow> real" where
  "js_rem x m = x - m * of_int (if 0 \<le> x / m then \<lfloor>x / m\<rfloor> else \<lceil>x / m\<rceil>)"

definition angle_delta :: "real \<Rightarrow> real \<Rightarrow> real" where
  "angle_delta current target =
     js_rem (js_rem (target - current + pi) TWO_PI + TWO_PI) TWO_PI - pi"

definition lerpAngle :: "real \<Rightarrow> real \<Rightarrow> real \<Rightarrow> real" where
  "lerpAngle current target t = current + angle_delta current target * t"

section \<open>The controller\<close>

datatype frame_kind = EnsureFrame | TickFrame

datatype globe_effect =
    CreateGlobe nat real real globe_theme "marker list"
  | UpdateFrame nat real real "marker list"
  | UpdateData globe_theme "marker list"
  | DestroyGlobe

record globe_state =
  globe :: bool
  gwidth :: nat
  gdestroyed :: bool
  rafId :: "nat option"
  markers :: "marker list"
  dark :: bool
  prefersReduced :: bool
  targetPhi :: real
  currentPhi :: real
  targetTheta :: real
  currentTheta :: real
  autoRotate :: bool
  dragging :: "real option"
  dragStartPhi :: real
  cursor :: string
  listening :: bool
  frames :: "frame_kind timers"
  gfx :: "globe_effect list"

definition draw :: "globe_effect list \<Rightarrow> globe_state \<Rightarrow> globe_state" where
  "draw es s = s\<lparr>gfx := gfx s @ es\<rparr>"

definition onPointerDown :: "real \<Rightarrow> globe_state \<Rightarrow> globe_state" where
  "onPointerDown x s =
     s\<lparr>dragging := Some x, dragStartPhi := targetPhi s, autoRotate := False, cursor := ''grabbing''\<rparr>"

definition onPointerUp :: "globe_state \<Rightarrow> globe_state" where
  "onPointerUp s =
     (case dragging s of
        None \<Rightarrow> s
      | Some _ \<Rightarrow> s\<lparr>dragging := None, autoRotate := \<not> prefersReduced s, cursor := ''grab''\<rparr>)"

definition onPointerMove :: "real \<Rightarrow> globe_state \<Rightarrow> globe_state" where
  "onPointerMove x s =
     (case dragging s of None \<Rightarrow> s | Some d \<Rightarrow> s\<lparr>targetPhi := dragStartPhi s + (x - d) / 150\<rparr>)"

definition create :: "bool \<Rightarrow> globe_state \<Rightarrow> globe_state" where
  "create isDark s =
     draw [CreateGlobe (gwidth s) (currentPhi s) (currentTheta s) (THEMES isDark) (markers s)] (s\<lparr>globe := True\<rparr>)"

definition request_tick :: "globe_state \<Rightarrow> globe_state" where
  "request_tick s = (let (i, t) = set_timer TickFrame (frames s) in s\<lparr>frames := t, rafId := Some i\<rparr>)"

definition globe_tick :: "globe_state \<Rightarrow> globe_state" where
  "globe_tick s =
     (if gdestroyed s then s
      else
        request_tick
          (if globe s \<and> 0 < gwidth s
           then (let tphi = (if autoRotate s \<and> dragging s = None then targetPhi s + 25 / 10000 else targetPhi s);
                     phi = lerpAngle (currentPhi s) tphi (12 / 100);
                     theta = currentTheta s + (targetTheta s - currentTheta s) * (12 / 100)
                 in draw [UpdateFrame (gwidth s) phi theta (markers s)]
                      (s\<lparr>targetPhi := tphi, currentPhi := phi, currentTheta := theta\<rparr>))
           else s))"

text \<open>\<open>w\<close> is the canvas's \<open>offsetWidth\<close>.\<close>

definition ensure :: "nat \<Rightarrow> globe_state \<Rightarrow> globe_state" where
  "ensure w s =
     (if gdestroyed s \<or> w = 0 \<or> globe s then s
      else request_tick (create (dark s) (s\<lparr>gwidth := w\<rparr>)))"

definition on_canvas_resize :: "nat \<Rightarrow> globe_state \<Rightarrow> globe_state" where
  "on_canvas_resize w s =
     (if globe s then s\<lparr>gwidth := (if w \<noteq> 0 then w else gwidth s)\<rparr> else ensure w s)"

definition updateGlobe :: "row list \<Rightarrow> bool \<Rightarrow> globe_state \<Rightarrow> globe_state" where
  "updateGlobe newData isDark s =
     (if gdestroyed s then s
      else
        (let s1 = s\<lparr>dark := isDark, markers := buildMarkers newData\<rparr>
         in if globe s1 then draw [UpdateData (THEMES isDark) (markers s1)] s1 else s1))"

definition globe_focus :: "string option \<Rightarrow> globe_state \<Rightarrow> globe_state" where
  "globe_focus c s =
     (case centroid_of c of
        None \<Rightarrow> s
      | Some (lat, lng) \<Rightarrow>
          (let (phi, theta) = locationToAngles lat lng
           in s\<lparr>targetPhi := phi, targetTheta := theta, autoRotate := False\<rparr>))"

definition globe_resume :: "globe_state \<Rightarrow> globe_state" where
  "globe_resume s = (if dragging s = None then s\<lparr>autoRotate := \<not> prefersReduced s\<rparr> else s)"

definition globe_destroy :: "globe_state \<Rightarrow> globe_state" where
  "globe_destroy s0 =
     (let s1 = s0\<lparr>gdestroyed := True, frames := clear_opt (rafId s0) (frames s0), rafId := None, listening := False\<rparr>
      in if globe s1 then draw [DestroyGlobe] (s1\<lparr>globe := False\<rparr>) else s1)"

text \<open>\<open>mountTrafficGlobe\<close>: the resize observer and the first frame wait for a width.\<close>

definition mountTrafficGlobe :: "row list \<Rightarrow> bool \<Rightarrow> bool \<Rightarrow> globe_state" where
  "mountTrafficGlobe data isDark reduced =
     \<lparr>globe = False, gwidth = 0, gdestroyed = False, rafId = None, markers = buildMarkers data, dark = isDark,
      prefersReduced = reduced, targetPhi = 0, currentPhi = 0, targetTheta = 2 / 10, currentTheta = 2 / 10,
      autoRotate = \<not> reduced, dragging = None, dragStartPhi = 0, cursor = ''grab'', listening = True,
      frames = snd (set_timer EnsureFrame no_timers), gfx = []\<rparr>"

datatype globe_event =
    PointerDown real
  | PointerUp
  | PointerMove real
  | CanvasResized nat
  | AnimationFrame nat nat
  | UpdateCall "row list" bool
  | FocusCall "string option"
  | ResumeCall
  | DestroyCall

fun globe_step :: "globe_state \<Rightarrow> globe_event \<Rightarrow> globe_state" where
  "globe_step s (PointerDown x) = (if listening s then onPointerDown x s else s)"
| "globe_step s PointerUp = (if listening s then onPointerUp s else s)"
| "globe_step s (PointerMove x) = (if listening s then onPointerMove x s else s)"
| "globe_step s (CanvasResized w) = (if listening s then on_canvas_resize w s else s)"
| "globe_step s (AnimationFrame w i) =
     (case map_of (armed (frames s)) i of
        None \<Rightarrow> s
      | Some k \<Rightarrow>
          (let s1 = s\<lparr>frames := clear_timer i (frames s)\<rparr>
           in case k of EnsureFrame \<Rightarrow> ensure w s1 | TickFrame \<Rightarrow> globe_tick s1))"
| "globe_step s (UpdateCall d b) = updateGlobe d b s"
| "globe_step s (FocusCall c) = globe_focus c s"
| "globe_step s ResumeCall = globe_resume s"
| "globe_step s DestroyCall = globe_destroy s"

section \<open>Angles: the short way round\<close>

lemma js_rem_pos:
  assumes "0 \<le> x" "0 < m" shows "0 \<le> js_rem x m" "js_rem x m < m"
proof -
  have q: "0 \<le> x / m" using assms by simp
  have "of_int \<lfloor>x / m\<rfloor> * m \<le> x" "x < (of_int \<lfloor>x / m\<rfloor> + 1) * m"
    using assms(2) by (rule floor_divide_lower floor_divide_upper)+
  then show "0 \<le> js_rem x m" "js_rem x m < m" using q by (simp_all add: js_rem_def algebra_simps)
qed

lemma js_rem_above: "0 < m \<Longrightarrow> - m < js_rem x m"
proof (cases "0 \<le> x / m")
  case True
  assume m: "0 < m"
  with True have "0 \<le> x" by (simp add: zero_le_divide_iff)
  with js_rem_pos(1) [OF this m] m show ?thesis by linarith
next
  case False
  assume m: "0 < m"
  have "of_int \<lceil>x / m\<rceil> < x / m + 1" by linarith
  then have "of_int \<lceil>x / m\<rceil> * m < (x / m + 1) * m" using m by (rule mult_strict_right_mono)
  then have "of_int \<lceil>x / m\<rceil> * m < x + m" using m by (simp add: algebra_simps)
  with False show ?thesis by (simp add: js_rem_def algebra_simps)
qed

lemma js_rem_turns: "\<exists>k::int. js_rem x m = x - m * of_int k"
  by (auto simp: js_rem_def)

lemma two_pi_pos: "0 < TWO_PI" by (simp add: TWO_PI_def)

lemma angle_delta_range: "- pi \<le> angle_delta c t" "angle_delta c t < pi"
proof -
  have "0 \<le> js_rem (t - c + pi) TWO_PI + TWO_PI" using js_rem_above [OF two_pi_pos, of "t - c + pi"] by linarith
  from js_rem_pos [OF this two_pi_pos] show "- pi \<le> angle_delta c t" "angle_delta c t < pi"
    by (simp_all add: angle_delta_def TWO_PI_def)
qed

lemma angle_delta_turns: "\<exists>k::int. angle_delta c t = t - c + TWO_PI * of_int k"
proof -
  let ?a = "js_rem (t - c + pi) TWO_PI"
  obtain k :: int where k: "?a = t - c + pi - TWO_PI * of_int k" using js_rem_turns by blast
  obtain l :: int where "js_rem (?a + TWO_PI) TWO_PI = ?a + TWO_PI - TWO_PI * of_int l" using js_rem_turns by blast
  with k have "angle_delta c t = t - c + TWO_PI * of_int (1 - k - l)"
    by (simp add: angle_delta_def algebra_simps)
  then show ?thesis ..
qed

text \<open>There is only one such angle in the half-open range.\<close>

lemma angle_unique:
  assumes "- pi \<le> x" "x < pi" "- pi \<le> y" "y < pi" "x = y + TWO_PI * of_int k" shows "x = y"
proof -
  have "\<bar>x - y\<bar> < TWO_PI" using assms(1-4) by (simp add: TWO_PI_def)
  with assms(5) have "TWO_PI * \<bar>of_int k\<bar> < TWO_PI * 1" using two_pi_pos by (simp add: abs_mult)
  then have "\<bar>of_int k :: real\<bar> < 1" using two_pi_pos mult_less_cancel_left_pos by blast
  then have "k = 0" by linarith
  with assms(5) show ?thesis by simp
qed

lemma angle_delta_eqI: "- pi \<le> x \<Longrightarrow> x < pi \<Longrightarrow> x = t - c + TWO_PI * of_int k \<Longrightarrow> angle_delta c t = x"
proof -
  assume x: "- pi \<le> x" "x < pi" "x = t - c + TWO_PI * of_int k"
  obtain l :: int where "angle_delta c t = t - c + TWO_PI * of_int l" using angle_delta_turns by blast
  with x(3) have "angle_delta c t = x + TWO_PI * of_int (l - k)" by (simp add: algebra_simps)
  from angle_unique [OF angle_delta_range x(1,2) this] show ?thesis .
qed

lemma angle_delta_shortest: "\<bar>angle_delta c t\<bar> \<le> \<bar>t - c + TWO_PI * of_int j\<bar>"
proof -
  let ?y = "t - c + TWO_PI * of_int j"
  show ?thesis
  proof (cases "- pi \<le> ?y \<and> ?y < pi")
    case True
    then show ?thesis using angle_delta_eqI [of ?y t c j] by simp
  next
    case False
    then have "pi \<le> \<bar>?y\<bar>" by linarith
    with angle_delta_range [of c t] show ?thesis by linarith
  qed
qed

lemma angle_delta_eased:
  assumes "0 \<le> s" "s \<le> 1" shows "angle_delta (lerpAngle c t s) t = (1 - s) * angle_delta c t"
proof -
  obtain k :: int where k: "angle_delta c t = t - c + TWO_PI * of_int k" using angle_delta_turns by blast
  let ?d = "angle_delta c t"
  have "\<bar>(1 - s) * ?d\<bar> \<le> 1 * \<bar>?d\<bar>" unfolding abs_mult by (rule mult_right_mono) (use assms in simp_all)
  moreover have "(1 - s) * ?d < pi"
  proof (cases "0 \<le> ?d")
    case True
    then have "(1 - s) * ?d \<le> 1 * ?d" by (intro mult_right_mono) (use assms in simp_all)
    with angle_delta_range(2) [of c t] show ?thesis by simp
  next
    case False
    then have "(1 - s) * ?d \<le> 0" using assms by (simp add: mult_le_0_iff)
    then show ?thesis using pi_gt_zero by linarith
  qed
  moreover have "\<bar>?d\<bar> \<le> pi" using angle_delta_range [of c t] by linarith
  ultimately have "- pi \<le> (1 - s) * ?d" "(1 - s) * ?d < pi" by linarith+
  moreover have "(1 - s) * ?d = t - lerpAngle c t s + TWO_PI * of_int k"
    unfolding lerpAngle_def using k by (simp add: algebra_simps)
  ultimately show ?thesis by (intro angle_delta_eqI)
qed

section \<open>Markers\<close>

lemma centroids_on_globe:
  "list_all (\<lambda>(c, lat, lng). - 90 \<le> lat \<and> lat \<le> 90 \<and> - 180 \<le> lng \<and> lng \<le> 180) CENTROIDS"
  by (simp add: CENTROIDS_def)

definition on_globe :: "real \<times> real \<Rightarrow> bool" where
  "on_globe p \<longleftrightarrow> - 90 \<le> fst p \<and> fst p \<le> 90 \<and> - 180 \<le> snd p \<and> snd p \<le> 180"

lemma centroid_on_globe: "centroid_of c = Some p \<Longrightarrow> on_globe p"
  using centroids_on_globe by (fastforce simp: centroid_of_def on_globe_def list_all_iff dest: map_of_SomeD)

lemma marker_rows_ok: "p \<in> set (marker_rows data) \<Longrightarrow> on_globe (fst p) \<and> 0 < snd p"
  by (auto simp: marker_rows_def intro: centroid_on_globe split: option.splits if_splits)

lemma marker_size_range: "3 / 100 \<le> marker_size m n \<and> marker_size m n \<le> 11 / 100"
  by (simp add: marker_size_def)

lemma marker_size_max: "0 < m \<Longrightarrow> marker_size m m = 11 / 100"
  by (simp add: marker_size_def)

section \<open>The controller's invariant\<close>

definition globe_inv :: "globe_state \<Rightarrow> bool" where
  "globe_inv s \<longleftrightarrow>
     timers_fresh (frames s) \<and> distinct (map fst (armed (frames s))) \<and>
     (globe s \<longrightarrow> \<not> gdestroyed s \<and> 0 < gwidth s) \<and>
     (gdestroyed s \<longrightarrow> \<not> listening s \<and> rafId s = None) \<and>
     ids_of ((=) TickFrame) (frames s) = (if globe s then set_option (rafId s) else {}) \<and>
     (globe s \<longleftrightarrow> rafId s \<noteq> None)"

lemma fresh_frames [simp]:
  "timers_fresh t \<Longrightarrow> timers_fresh (snd (set_timer k t))" "timers_fresh t \<Longrightarrow> timers_fresh (clear_timer i t)"
  "timers_fresh t \<Longrightarrow> distinct (map fst (armed t)) \<Longrightarrow> distinct (map fst (armed (snd (set_timer k t))))"
  "distinct (map fst (armed t)) \<Longrightarrow> distinct (map fst (armed (clear_timer i t)))"
  by (auto simp: timers_fresh_def set_timer_def clear_timer_def distinct_map_filter)

lemma ids_of_armed:
  "distinct (map fst (armed t)) \<Longrightarrow> map_of (armed t) i = Some k \<Longrightarrow> i \<in> ids_of ((=) k') t \<longleftrightarrow> k = k'"
proof -
  assume d: "distinct (map fst (armed t))" and k: "map_of (armed t) i = Some k"
  have "(i, l) \<in> set (armed t) \<longleftrightarrow> k = l" for l
    using map_of_eq_Some_iff [OF d, of i l] k by simp
  then show ?thesis by (auto simp: ids_of_def image_iff)
qed

lemma draw_inv [simp]: "globe_inv (draw es s) = globe_inv s"
  by (simp add: globe_inv_def draw_def)

lemma globe_inv_fields [simp]:
  "globe_inv (s\<lparr>targetPhi := x\<rparr>) = globe_inv s" "globe_inv (s\<lparr>currentPhi := x\<rparr>) = globe_inv s"
  "globe_inv (s\<lparr>targetTheta := x\<rparr>) = globe_inv s" "globe_inv (s\<lparr>currentTheta := x\<rparr>) = globe_inv s"
  "globe_inv (s\<lparr>autoRotate := b\<rparr>) = globe_inv s" "globe_inv (s\<lparr>dragging := d\<rparr>) = globe_inv s"
  "globe_inv (s\<lparr>dragStartPhi := x\<rparr>) = globe_inv s" "globe_inv (s\<lparr>cursor := c\<rparr>) = globe_inv s"
  "globe_inv (s\<lparr>markers := ms\<rparr>) = globe_inv s" "globe_inv (s\<lparr>dark := b\<rparr>) = globe_inv s"
  by (simp_all add: globe_inv_def)

lemma inv_globe_ensure: "globe_inv s \<Longrightarrow> globe_inv (ensure w s)"
  by (auto simp: ensure_def request_tick_def create_def draw_def globe_inv_def case_prod_beta)

text \<open>A frame that fires leaves the table first.\<close>

lemma inv_frame:
  assumes s: "globe_inv s" and k: "map_of (armed (frames s)) i = Some k"
  shows "globe_inv (globe_step s (AnimationFrame w i))"
proof (cases k)
  case EnsureFrame
  have "i \<notin> ids_of ((=) TickFrame) (frames s)"
    using ids_of_armed [OF _ k, of TickFrame] s EnsureFrame by (simp add: globe_inv_def)
  then have "globe_inv (s\<lparr>frames := clear_timer i (frames s)\<rparr>)"
    using s by (auto simp: globe_inv_def)
  with k EnsureFrame show ?thesis by (simp add: inv_globe_ensure)
next
  case TickFrame
  have "i \<in> ids_of ((=) TickFrame) (frames s)"
    using ids_of_armed [OF _ k, of TickFrame] s TickFrame by (simp add: globe_inv_def)
  then have "globe s" "rafId s = Some i" using s by (auto simp: globe_inv_def split: if_splits)
  with s k TickFrame show ?thesis
    by (auto simp: globe_inv_def globe_tick_def request_tick_def draw_def Let_def case_prod_beta)
qed

lemma inv_destroy_globe: "globe_inv s \<Longrightarrow> globe_inv (globe_destroy s)"
  by (auto simp: globe_destroy_def globe_inv_def draw_def Let_def clear_opt_def split: option.splits)

lemma inv_globe_step: "globe_inv s \<Longrightarrow> globe_inv (globe_step s e)"
proof (cases e)
  case (AnimationFrame w i)
  assume s: "globe_inv s"
  show ?thesis
  proof (cases "map_of (armed (frames s)) i")
    case (Some k)
    with inv_frame [OF s Some] AnimationFrame show ?thesis by (simp only:)
  qed (use s AnimationFrame in simp)
next
  case (CanvasResized w)
  assume s: "globe_inv s"
  have "globe s \<Longrightarrow> globe_inv (s\<lparr>gwidth := (if w \<noteq> 0 then w else gwidth s)\<rparr>)" using s by (auto simp: globe_inv_def)
  with s CanvasResized show ?thesis by (simp add: on_canvas_resize_def inv_globe_ensure)
qed (auto simp: onPointerDown_def onPointerUp_def onPointerMove_def updateGlobe_def globe_focus_def
    globe_resume_def inv_destroy_globe Let_def split: option.split prod.split)

definition globe_start :: "globe_state \<Rightarrow> bool" where
  "globe_start s \<longleftrightarrow> (\<exists>data b r. s = mountTrafficGlobe data b r)"

lemma inv_globe_start: "globe_start s \<Longrightarrow> globe_inv s"
  by (auto simp: globe_start_def mountTrafficGlobe_def globe_inv_def set_timer_def no_timers_def timers_fresh_def
      ids_of_def)

interpretation traffic: event_machine globe_start "\<lambda>_ _. True" globe_step globe_inv
  by unfold_locales (auto intro: inv_globe_start inv_globe_step)

lemma globe_run_inv: "globe_start s \<Longrightarrow> globe_inv (run globe_step s es)"
  by (rule traffic.inv_run [OF traffic.inv_start]) simp_all

text \<open>After \<open>destroy\<close> nothing is drawn.\<close>

lemma globe_destroyed_step:
  assumes s: "globe_inv s" "gdestroyed s"
  shows "gdestroyed (globe_step s e) \<and> gfx (globe_step s e) = gfx s"
proof -
  have off: "\<not> globe s" "\<not> listening s" "rafId s = None" using s by (auto simp: globe_inv_def)
  show ?thesis
  proof (cases e)
    case (AnimationFrame w i)
    show ?thesis
    proof (cases "map_of (armed (frames s)) i")
      case (Some k)
      with AnimationFrame s show ?thesis by (cases k) (simp_all add: ensure_def globe_tick_def)
    qed (use s AnimationFrame in simp)
  qed (use s off in \<open>auto simp: updateGlobe_def globe_focus_def globe_resume_def globe_destroy_def Let_def
      split: option.split prod.split\<close>)
qed

lemma globe_destroyed_run:
  "globe_inv s \<Longrightarrow> gdestroyed s \<Longrightarrow> gfx (run globe_step s es) = gfx s"
proof (induction es arbitrary: s)
  case (Cons e es)
  from globe_destroyed_step [OF Cons.prems, of e] Cons.IH [of "globe_step s e"] inv_globe_step [OF Cons.prems(1), of e]
  show ?case by (simp del: globe_step.simps)
qed simp

section \<open>Properties\<close>

text \<open>The globe turns the short way. Easing by any share moves along an angle that differs from the
  target by whole turns, and no other such angle is shorter.\<close>

theorem lerpAngle_shortest:
  "\<exists>k::int. lerpAngle current target t = current + (target - current + TWO_PI * of_int k) * t \<and>
     \<bar>target - current + TWO_PI * of_int k\<bar> \<le> \<bar>target - current + TWO_PI * of_int j\<bar>"
  using angle_delta_turns [of current target] angle_delta_shortest [of current target j]
  by (auto simp: lerpAngle_def)

text \<open>The globe arrives. With the target at rest, each frame leaves 88 percent of the remaining
  angle, so after \<open>n\<close> frames the share 0.88 to the power of \<open>n\<close> is left.\<close>

theorem lerpAngle_converges:
  "angle_delta (((\<lambda>c. lerpAngle c target (12 / 100)) ^^ n) current) target =
     (88 / 100) ^ n * angle_delta current target"
  by (induction n) (simp_all add: angle_delta_eased)

text \<open>Every marker lies on the globe and is between 0.03 and 0.11 wide, whatever the data.\<close>

theorem markers_in_range:
  "list_all (\<lambda>m. on_globe (place m) \<and> 3 / 100 \<le> dot_size m \<and> dot_size m \<le> 11 / 100) (buildMarkers data)"
  using marker_rows_ok [of _ data] marker_size_range
  by (auto simp: buildMarkers_def Let_def list_all_iff)

text \<open>C36: One animation loop. In every history exactly one animation frame of the loop is scheduled
  while the globe exists and none otherwise, it exists only with a known width, and after
  \<open>destroy\<close> no further frame, update or creation reaches the renderer.\<close>

theorem globe_single_loop:
  assumes "globe_start s"
  shows "card (ids_of ((=) TickFrame) (frames (run globe_step s es))) = (if globe (run globe_step s es) then 1 else 0) \<and>
    globe (run globe_step s es) \<le> (0 < gwidth (run globe_step s es)) \<and>
    gfx (run globe_step s (es @ DestroyCall # fs)) = gfx (run globe_step s (es @ [DestroyCall]))"
proof (intro conjI)
  note i = globe_run_inv [OF assms]
  show "card (ids_of ((=) TickFrame) (frames (run globe_step s es))) = (if globe (run globe_step s es) then 1 else 0)"
    using i [of es] by (auto simp: globe_inv_def)
  show "globe (run globe_step s es) \<le> (0 < gwidth (run globe_step s es))"
    using i [of es] by (simp add: globe_inv_def le_bool_def)
  have "gdestroyed (globe_destroy t)" for t by (simp add: globe_destroy_def Let_def draw_def)
  then show "gfx (run globe_step s (es @ DestroyCall # fs)) = gfx (run globe_step s (es @ [DestroyCall]))"
    using globe_destroyed_run [OF i [of "es @ [DestroyCall]"], of fs] by simp
qed

definition sample_globe :: globe_state where
  "sample_globe = mountTrafficGlobe [(Some ''de'', Some 9), (None, None)] True False"

theorem globe_single_loop_witness:
  "card (ids_of ((=) TickFrame) (frames (run globe_step sample_globe [AnimationFrame 300 1]))) = 1"
proof -
  have "globe_start sample_globe" unfolding globe_start_def sample_globe_def by blast
  from globe_single_loop [OF this, of "[AnimationFrame 300 1]"]
  have "card (ids_of ((=) TickFrame) (frames (run globe_step sample_globe [AnimationFrame 300 1]))) =
      (if globe (run globe_step sample_globe [AnimationFrame 300 1]) then 1 else 0)" by blast
  moreover have "globe (run globe_step sample_globe [AnimationFrame 300 1])"
    by (simp add: sample_globe_def mountTrafficGlobe_def set_timer_def no_timers_def clear_timer_def ensure_def
        create_def draw_def request_tick_def Let_def)
  ultimately show ?thesis by simp
qed

end
