(* ===== verification/RequestFailure.thy ===== *)
theory RequestFailure
  imports JSPrelude "HOL-Library.Multiset"
begin

text \<open>
  The handling of failed Livewire requests, resources/js/livewire-request-failure.js: which
  failures are taken over, when the console is warned and when the user sees a toast. Times are
  milliseconds; \<^term>\<open>None\<close> stands for negative infinity. What the handler does is logged with the
  time at which it happens.
\<close>

definition INFRASTRUCTURE_FAILURE_STATUSES :: "nat list" where
  "INFRASTRUCTURE_FAILURE_STATUSES = [502, 503, 504, 520, 521, 522, 523, 524, 525, 526, 527, 530]"

definition USER_GESTURE_EVENTS :: "string list" where
  "USER_GESTURE_EVENTS = [''click'', ''submit'', ''keydown'', ''input'', ''change'']"

definition GESTURE_WINDOW_MS :: nat where "GESTURE_WINDOW_MS = 2000"
definition WARN_COOLDOWN_MS :: nat where "WARN_COOLDOWN_MS = 10000"
definition WARN_CONTENT_MAX_LENGTH :: nat where "WARN_CONTENT_MAX_LENGTH = 2000"

datatype response_content = TextContent string | OtherContent

datatype failure_effect = PreventDefault | Warn nat response_content | Toast

record failure_state =
  lastWarnAt :: "nat option"
  lastToastGestureAt :: "nat option"
  lastGestureAt :: "nat option"
  inFlight :: "nat option list"
  failureLog :: "(nat \<times> failure_effect) list"

definition log_failure :: "nat \<Rightarrow> failure_effect list \<Rightarrow> failure_state \<Rightarrow> failure_state" where
  "log_failure t es s = s\<lparr>failureLog := failureLog s @ map (Pair t) es\<rparr>"

text \<open>\<open>a > b\<close> and \<open>t - a >= d\<close> with negative infinities.\<close>

definition later_than :: "nat option \<Rightarrow> nat option \<Rightarrow> bool" where
  "later_than a b = (case a of None \<Rightarrow> False | Some x \<Rightarrow> (case b of None \<Rightarrow> True | Some y \<Rightarrow> y < x))"

definition elapsed :: "nat \<Rightarrow> nat option \<Rightarrow> nat \<Rightarrow> bool" where
  "elapsed t a d = (case a of None \<Rightarrow> True | Some x \<Rightarrow> int d \<le> int t - int x)"

definition trim_content :: "response_content \<Rightarrow> response_content" where
  "trim_content c = (case c of TextContent s \<Rightarrow> TextContent (take WARN_CONTENT_MAX_LENGTH s) | OtherContent \<Rightarrow> OtherContent)"

text \<open>The handler \<open>createLivewireRequestFailureHandler\<close> makes; \<open>hasToast\<close> says whether
  \<open>window.toast\<close> exists.\<close>

definition warn_step :: "nat \<Rightarrow> nat \<Rightarrow> response_content \<Rightarrow> failure_state \<Rightarrow> failure_state" where
  "warn_step now status content s =
     (if elapsed now (lastWarnAt s) WARN_COOLDOWN_MS
      then log_failure now [Warn status (trim_content content)] (s\<lparr>lastWarnAt := Some now\<rparr>) else s)"

definition toast_step :: "nat \<Rightarrow> bool \<Rightarrow> nat option \<Rightarrow> failure_state \<Rightarrow> failure_state" where
  "toast_step now hasToast gestureAt s =
     (if later_than gestureAt (lastToastGestureAt s)
      then log_failure now (if hasToast then [Toast] else []) (s\<lparr>lastToastGestureAt := gestureAt\<rparr>) else s)"

definition handle_failure ::
    "nat \<Rightarrow> bool \<Rightarrow> nat \<Rightarrow> response_content \<Rightarrow> nat option \<Rightarrow> failure_state \<Rightarrow> failure_state" where
  "handle_failure now hasToast status content gestureAt s =
     (if status \<notin> set INFRASTRUCTURE_FAILURE_STATUSES then s
      else toast_step now hasToast gestureAt (warn_step now status content (log_failure now [PreventDefault] s)))"

text \<open>\<open>registerLivewireRequestFailureHandler\<close>: the listeners, and the hook that classifies a request
  when it is sent.\<close>

definition markUserGesture :: "nat \<Rightarrow> string \<Rightarrow> bool \<Rightarrow> failure_state \<Rightarrow> failure_state" where
  "markUserGesture now event isTrusted s =
     (if event \<in> set USER_GESTURE_EVENTS \<and> isTrusted then s\<lparr>lastGestureAt := Some now\<rparr> else s)"

definition gesture_of_request :: "nat \<Rightarrow> failure_state \<Rightarrow> nat option" where
  "gesture_of_request now s =
     (case lastGestureAt s of
        None \<Rightarrow> None
      | Some g \<Rightarrow> if int now - int g \<le> int GESTURE_WINDOW_MS then Some g else None)"

definition on_request :: "nat \<Rightarrow> failure_state \<Rightarrow> failure_state" where
  "on_request now s = s\<lparr>inFlight := inFlight s @ [gesture_of_request now s]\<rparr>"

text \<open>The \<open>i\<close>-th request fails.\<close>

definition on_fail :: "nat \<Rightarrow> bool \<Rightarrow> nat \<Rightarrow> nat \<Rightarrow> response_content \<Rightarrow> failure_state \<Rightarrow> failure_state" where
  "on_fail now hasToast i status content s =
     (if length (inFlight s) \<le> i then s
      else handle_failure now hasToast status content (inFlight s ! i) s)"

definition failure_start :: failure_state where
  "failure_start =
     \<lparr>lastWarnAt = None, lastToastGestureAt = None, lastGestureAt = None, inFlight = [], failureLog = []\<rparr>"

datatype failure_event =
    UserEvent nat string bool
  | RequestSent nat
  | RequestFailed nat bool nat nat response_content

fun failure_step :: "failure_state \<Rightarrow> failure_event \<Rightarrow> failure_state" where
  "failure_step s (UserEvent now event trusted) = markUserGesture now event trusted s"
| "failure_step s (RequestSent now) = on_request now s"
| "failure_step s (RequestFailed now hasToast i status content) = on_fail now hasToast i status content s"

section \<open>Toasts\<close>

text \<open>The times of the gestures in a history, and the toasts shown.\<close>

definition gesture_times :: "failure_event list \<Rightarrow> nat set" where
  "gesture_times es = {t. \<exists>ev. UserEvent t ev True \<in> set es \<and> ev \<in> set USER_GESTURE_EVENTS}"

definition toasts :: "failure_state \<Rightarrow> nat" where
  "toasts s = length (filter (\<lambda>(t, x). x = Toast) (failureLog s))"

definition gestures_until :: "nat set \<Rightarrow> nat option \<Rightarrow> nat set" where
  "gestures_until G l = {g \<in> G. case l of None \<Rightarrow> False | Some y \<Rightarrow> g \<le> y}"

definition toast_inv :: "nat set \<Rightarrow> failure_state \<Rightarrow> bool" where
  "toast_inv G s \<longleftrightarrow>
     set_option (lastGestureAt s) \<subseteq> G \<and> (\<forall>g\<in>set (inFlight s). set_option g \<subseteq> G) \<and>
     toasts s \<le> card (gestures_until G (lastToastGestureAt s))"

lemma toasts_log [simp]:
  "toasts (log_failure t es s) = toasts s + length (filter (\<lambda>x. x = Toast) es)"
  by (simp add: toasts_def log_failure_def filter_map comp_def)

lemma log_fields [simp]:
  "lastGestureAt (log_failure t es s) = lastGestureAt s" "inFlight (log_failure t es s) = inFlight s"
  "lastToastGestureAt (log_failure t es s) = lastToastGestureAt s" "lastWarnAt (log_failure t es s) = lastWarnAt s"
  by (simp_all add: log_failure_def)

lemma toasts_fields [simp]:
  "toasts (s\<lparr>lastWarnAt := a\<rparr>) = toasts s" "toasts (s\<lparr>lastToastGestureAt := a\<rparr>) = toasts s"
  "toasts (s\<lparr>lastGestureAt := a\<rparr>) = toasts s" "toasts (s\<lparr>inFlight := q\<rparr>) = toasts s"
  by (simp_all add: toasts_def)

lemma finite_until: "finite (gestures_until G l)"
  by (cases l) (auto simp: gestures_until_def)

lemma toast_inv_log: "Toast \<notin> set es \<Longrightarrow> toast_inv G s \<Longrightarrow> toast_inv G (log_failure t es s)"
proof -
  assume "Toast \<notin> set es"
  then have "filter (\<lambda>x. x = Toast) es = []" by (auto simp: filter_empty_conv)
  then show "toast_inv G s \<Longrightarrow> ?thesis" by (simp add: toast_inv_def)
qed

lemma toast_inv_warn: "toast_inv G s \<Longrightarrow> toast_inv G (warn_step now status c s)"
  by (auto simp: warn_step_def toast_inv_def)

lemma toast_inv_toast:
  assumes "toast_inv G s" "set_option g \<subseteq> G" shows "toast_inv G (toast_step now h g s)"
proof (cases "later_than g (lastToastGestureAt s)")
  case True
  then obtain x where x: "g = Some x" by (auto simp: later_than_def split: option.splits)
  have "gestures_until G (lastToastGestureAt s) \<subseteq> gestures_until G (Some x) - {x}" "x \<in> gestures_until G (Some x)"
    using True x assms(2) by (auto simp: gestures_until_def later_than_def split: option.splits)
  then have "gestures_until G (lastToastGestureAt s) \<subset> gestures_until G (Some x)" by blast
  then have "card (gestures_until G (lastToastGestureAt s)) < card (gestures_until G (Some x))"
    by (rule psubset_card_mono [OF finite_until])
  with True assms(1) x show ?thesis by (simp add: toast_step_def toast_inv_def)
qed (use assms in \<open>simp add: toast_step_def\<close>)

lemma toast_inv_step:
  assumes "toast_inv G s" "\<And>t ev. e = UserEvent t ev True \<Longrightarrow> ev \<in> set USER_GESTURE_EVENTS \<Longrightarrow> t \<in> G"
  shows "toast_inv G (failure_step s e)"
proof (cases e)
  case (RequestFailed now h i status c)
  have "set_option (inFlight s ! i) \<subseteq> G" if "i < length (inFlight s)"
    using assms(1) nth_mem [OF that] by (auto simp: toast_inv_def)
  with RequestFailed assms(1) show ?thesis
    by (simp add: on_fail_def handle_failure_def toast_inv_toast toast_inv_warn toast_inv_log)
next
  case (UserEvent t ev trusted)
  with assms show ?thesis by (auto simp: markUserGesture_def toast_inv_def)
next
  case (RequestSent t)
  with assms show ?thesis
    by (auto simp: on_request_def gesture_of_request_def toast_inv_def split: option.splits if_splits)
qed

lemma toast_inv_run: "gesture_times es \<subseteq> G \<Longrightarrow> toast_inv G s \<Longrightarrow> toast_inv G (run failure_step s es)"
proof (induction es arbitrary: s)
  case (Cons e es)
  have "toast_inv G (failure_step s e)"
    by (rule toast_inv_step [OF Cons.prems(2)]) (use Cons.prems(1) in \<open>auto simp: gesture_times_def\<close>)
  moreover have "gesture_times es \<subseteq> G" using Cons.prems(1) by (auto simp: gesture_times_def)
  ultimately show ?case using Cons.IH by simp
qed simp

lemma finite_gesture_times: "finite (gesture_times es)"
proof -
  have "gesture_times es \<subseteq> (\<lambda>e. case e of UserEvent t ev b \<Rightarrow> t | _ \<Rightarrow> 0) ` set es"
    by (force simp: gesture_times_def)
  then show ?thesis by (rule finite_subset) simp
qed

section \<open>Warnings\<close>

definition warn_times :: "failure_state \<Rightarrow> nat list" where
  "warn_times s = map fst (filter (\<lambda>(t, x). case x of Warn _ _ \<Rightarrow> True | _ \<Rightarrow> False) (failureLog s))"

text \<open>Each warning comes at least the cooldown after every earlier one.\<close>

definition warn_inv :: "failure_state \<Rightarrow> bool" where
  "warn_inv s \<longleftrightarrow>
     sorted_wrt (\<lambda>a b. a + WARN_COOLDOWN_MS \<le> b) (warn_times s) \<and>
     (\<forall>t\<in>set (warn_times s). \<exists>l. lastWarnAt s = Some l \<and> t \<le> l)"

lemma warn_times_log [simp]:
  "warn_times (log_failure t [PreventDefault] s) = warn_times s"
  "warn_times (log_failure t [Toast] s) = warn_times s"
  "warn_times (log_failure t [] s) = warn_times s"
  "warn_times (log_failure t [Warn st c] s) = warn_times s @ [t]"
  by (simp_all add: warn_times_def log_failure_def)

lemma warn_times_fields [simp]:
  "warn_times (s\<lparr>lastWarnAt := a\<rparr>) = warn_times s" "warn_times (s\<lparr>lastToastGestureAt := a\<rparr>) = warn_times s"
  "warn_times (s\<lparr>lastGestureAt := a\<rparr>) = warn_times s" "warn_times (s\<lparr>inFlight := q\<rparr>) = warn_times s"
  by (simp_all add: warn_times_def)

lemma warn_inv_warn: "warn_inv s \<Longrightarrow> warn_inv (warn_step now status c s)"
  by (fastforce simp: warn_inv_def warn_step_def elapsed_def sorted_wrt_append split: option.splits)

lemma warn_inv_step: "warn_inv s \<Longrightarrow> warn_inv (failure_step s e)"
proof (cases e)
  case (RequestFailed now h i status c)
  assume s: "warn_inv s"
  have toast: "warn_inv (toast_step now h g t)" if "warn_inv t" for g t
    using that by (auto simp: toast_step_def warn_inv_def)
  have "warn_inv (log_failure now [PreventDefault] s)" using s by (simp add: warn_inv_def)
  with RequestFailed s toast warn_inv_warn show ?thesis by (simp add: on_fail_def handle_failure_def)
qed (simp_all add: markUserGesture_def on_request_def warn_inv_def)

lemma warn_inv_start: "warn_inv failure_start"
  by (simp add: warn_inv_def warn_times_def failure_start_def)

interpretation failures: event_machine "\<lambda>s. s = failure_start" "\<lambda>_ _. True" failure_step warn_inv
  by unfold_locales (simp_all add: warn_inv_start warn_inv_step)

section \<open>Properties\<close>

text \<open>C37: Feedback is rationed. In every history the user sees at most one toast per gesture, and any
  two console warnings are at least ten seconds apart.\<close>

theorem failure_feedback_bounded:
  "toasts (run failure_step failure_start es) \<le> card (gesture_times es) \<and>
   sorted_wrt (\<lambda>a b. a + WARN_COOLDOWN_MS \<le> b) (warn_times (run failure_step failure_start es))"
proof (intro conjI)
  have "toast_inv (gesture_times es) (run failure_step failure_start es)"
    by (rule toast_inv_run) (simp_all add: toast_inv_def failure_start_def toasts_def gestures_until_def)
  then have "toasts (run failure_step failure_start es) \<le>
      card (gestures_until (gesture_times es) (lastToastGestureAt (run failure_step failure_start es)))"
    by (simp add: toast_inv_def)
  also have "\<dots> \<le> card (gesture_times es)"
    by (rule card_mono [OF finite_gesture_times]) (auto simp: gestures_until_def)
  finally show "toasts (run failure_step failure_start es) \<le> card (gesture_times es)" .
  have "warn_inv (run failure_step failure_start es)"
    by (rule failures.inv_run [OF failures.inv_start]) simp_all
  then show "sorted_wrt (\<lambda>a b. a + WARN_COOLDOWN_MS \<le> b) (warn_times (run failure_step failure_start es))"
    by (simp add: warn_inv_def)
qed

text \<open>What a failure does. A failure whose status is not one of the infrastructure failures changes
  nothing and is left to Livewire; any other is taken over first, before anything is shown.\<close>

theorem failure_outcome:
  "failureLog (handle_failure now hasToast status content gestureAt s) = failureLog s @
     (if status \<notin> set INFRASTRUCTURE_FAILURE_STATUSES then []
      else map (Pair now)
        (PreventDefault #
         (if elapsed now (lastWarnAt s) WARN_COOLDOWN_MS then [Warn status (trim_content content)] else []) @
         (if later_than gestureAt (lastToastGestureAt s) \<and> hasToast then [Toast] else [])))"
  by (simp add: handle_failure_def toast_step_def warn_step_def log_failure_def)

end
