(* ===== verification/SubmitAction.thy ===== *)
theory SubmitAction
  imports JSPrelude
begin

text \<open>
  Reading the submitAction of a confirmation modal, resources/js/modal-confirmation.js: the
  method's name and its arguments, quoted or plain.
\<close>

section \<open>Parsing\<close>

text \<open>\<open>s.lastIndexOf(c)\<close> for a character.\<close>

definition js_lastIndexOf :: "string \<Rightarrow> char \<Rightarrow> nat option" where
  "js_lastIndexOf s c = map_option (\<lambda>i. length s - 1 - i) (js_indexOf (rev s) [c])"

record argument_state =
  params :: "string list"
  current :: string
  quote :: "char option"
  quoted :: bool

definition finish :: "argument_state \<Rightarrow> argument_state" where
  "finish s =
     (let v = (if quoted s then current s else js_trim (current s))
      in s\<lparr>params := (if v \<noteq> [] \<or> quoted s then params s @ [v] else params s), current := [], quoted := False\<rparr>)"

text \<open>The loop over the characters of the arguments; an escape inside quotes takes the next one too.\<close>

fun argument_loop :: "string \<Rightarrow> argument_state \<Rightarrow> argument_state" where
  "argument_loop [] s = s"
| "argument_loop (c # cs) s =
     (case quote s of
        Some q \<Rightarrow>
          if c = bsl \<and> cs \<noteq> []
          then (case cs of d # ds \<Rightarrow> argument_loop ds (s\<lparr>current := current s @ [d]\<rparr>) | [] \<Rightarrow> s)
          else if c = q then argument_loop cs (s\<lparr>quote := None\<rparr>)
          else argument_loop cs (s\<lparr>current := current s @ [c]\<rparr>)
      | None \<Rightarrow>
          if (c = sq \<or> c = dq) \<and> js_trim (current s) = []
          then argument_loop cs (s\<lparr>quote := Some c, quoted := True, current := []\<rparr>)
          else if c = CHR '','' then argument_loop cs (finish s)
          else if \<not> quoted s then argument_loop cs (s\<lparr>current := current s @ [c]\<rparr>)
          else argument_loop cs s)"

definition no_arguments :: argument_state where
  "no_arguments = \<lparr>params = [], current = [], quote = None, quoted = False\<rparr>"

definition parseSubmitAction :: "string \<Rightarrow> string \<times> string list" where
  "parseSubmitAction submitAction =
     (case js_indexOf submitAction ''('' of
        None \<Rightarrow> (js_trim submitAction, [])
      | Some open' \<Rightarrow>
          (let argumentText =
                 (case js_lastIndexOf submitAction (CHR '')'') of
                    None \<Rightarrow> drop (Suc open') submitAction
                  | Some close' \<Rightarrow>
                      if open' < close' then take (close' - Suc open') (drop (Suc open') submitAction)
                      else drop (Suc open') submitAction)
           in (js_trim (take open' submitAction), params (finish (argument_loop argumentText no_arguments)))))"

section \<open>Writing an action\<close>

text \<open>An argument in quotes, with the quote and the backslash escaped, and the call with its arguments.\<close>

definition escape_char :: "char \<Rightarrow> char \<Rightarrow> string" where
  "escape_char q c = (if c = q \<or> c = bsl then [bsl, c] else [c])"

definition quote_argument :: "char \<Rightarrow> string \<Rightarrow> string" where
  "quote_argument q a = q # concat (map (escape_char q) a) @ [q]"

definition render_action :: "string \<Rightarrow> (char \<times> string) list \<Rightarrow> string" where
  "render_action name args =
     name @ ''('' @ js_join '', '' (map (\<lambda>(q, a). quote_argument q a) args) @ '')''"

lemma loop_quoted:
  "q \<noteq> bsl \<Longrightarrow>
    argument_loop (concat (map (escape_char q) a) @ q # r) \<lparr>params = ps, current = x, quote = Some q, quoted = b\<rparr> =
    argument_loop r \<lparr>params = ps, current = x @ a, quote = None, quoted = b\<rparr>"
proof (induction a arbitrary: x)
  case (Cons c a)
  from Cons.IH [OF Cons.prems, of "x @ [c]"] Cons.prems show ?case
    by (auto simp: escape_char_def)
qed simp

lemma loop_argument:
  assumes "q = sq \<or> q = dq" "js_trim x = []"
  shows "argument_loop (quote_argument q a @ r) \<lparr>params = ps, current = x, quote = None, quoted = b\<rparr> =
    argument_loop r \<lparr>params = ps, current = a, quote = None, quoted = True\<rparr>"
proof -
  have "q \<noteq> bsl" using assms(1) by auto
  from loop_quoted [OF this, of a r ps "[]" True] assms show ?thesis
    by (auto simp: quote_argument_def)
qed

lemma finish_quoted:
  "finish \<lparr>params = ps, current = a, quote = None, quoted = True\<rparr> =
    \<lparr>params = ps @ [a], current = [], quote = None, quoted = False\<rparr>"
  by (simp add: finish_def)

lemma loop_comma:
  "argument_loop ('', '' @ r) \<lparr>params = ps, current = a, quote = None, quoted = True\<rparr> =
    argument_loop r \<lparr>params = ps @ [a], current = '' '', quote = None, quoted = False\<rparr>"
  by (simp add: finish_quoted)

lemma trim_space: "js_trim '' '' = []"
  by (simp add: js_trim_def is_ws_def code_def)

lemma loop_arguments:
  assumes "list_all (\<lambda>(q, a). q = sq \<or> q = dq) args" "js_trim x = []"
  shows "params (finish (argument_loop (js_join '', '' (map (\<lambda>(q, a). quote_argument q a) args))
      \<lparr>params = ps, current = x, quote = None, quoted = False\<rparr>)) = ps @ map snd args"
  using assms
proof (induction args arbitrary: ps x rule: induct_list012)
  case 1
  then show ?case by (simp add: finish_def)
next
  case (2 p)
  obtain q a where p: "p = (q, a)" by force
  with loop_argument [of q x a "[]" ps False] 2 show ?case by (simp add: finish_quoted)
next
  case (3 p p' args)
  obtain q a where p: "p = (q, a)" by force
  let ?r = "js_join '', '' (map (\<lambda>(q, a). quote_argument q a) (p' # args))"
  have "argument_loop (js_join '', '' (map (\<lambda>(q, a). quote_argument q a) (p # p' # args)))
      \<lparr>params = ps, current = x, quote = None, quoted = False\<rparr> =
      argument_loop ?r \<lparr>params = ps @ [a], current = '' '', quote = None, quoted = False\<rparr>"
    using loop_argument [of q x a "'', '' @ ?r" ps False] "3.prems" loop_comma [of ?r ps a] by (simp add: p)
  then show ?case
    using "3.IH"(2) [of "'' ''" "ps @ [a]"] "3.prems" trim_space by (simp add: p)
qed

lemma js_lastIndexOf_snoc: "js_lastIndexOf (s @ [c]) c = Some (length s)"
  by (simp add: js_lastIndexOf_def js_startsWith_def)

lemma js_indexOf_char: "c \<notin> set s \<Longrightarrow> js_indexOf (s @ c # r) [c] = Some (length s)"
  by (induction s) (auto simp: js_startsWith_def)

section \<open>Properties\<close>

text \<open>C38: A written action is read back. A method name without an opening parenthesis and without
  surrounding white space, called with arguments in single or double quotes whose own quotes and
  backslashes are escaped, is parsed to that name and exactly those arguments, whatever commas,
  parentheses and spaces they hold.\<close>

theorem parseSubmitAction_round_trip:
  assumes "CHR ''('' \<notin> set name" "js_trim name = name" "list_all (\<lambda>(q, a). q = sq \<or> q = dq) args"
  shows "parseSubmitAction (render_action name args) = (name, map snd args)"
proof -
  let ?r = "js_join '', '' (map (\<lambda>(q, a). quote_argument q a) args)"
  have "js_indexOf (render_action name args) ''('' = Some (length name)"
    using js_indexOf_char [OF assms(1), of "?r @ '')''"] by (simp add: render_action_def)
  moreover have "js_lastIndexOf (render_action name args) (CHR '')'') = Some (length (name @ ''('' @ ?r))"
    using js_lastIndexOf_snoc [of "name @ ''('' @ ?r" "CHR '')''"] by (simp add: render_action_def)
  moreover have "take (length ?r) (drop (Suc (length name)) (render_action name args)) = ?r"
    by (simp add: render_action_def)
  moreover have "take (length name) (render_action name args) = name" by (simp add: render_action_def)
  moreover have "params (finish (argument_loop ?r no_arguments)) = map snd args"
    using loop_arguments [OF assms(3), of "[]" "[]"] by (simp add: no_arguments_def)
  ultimately show ?thesis using assms(2) by (simp add: parseSubmitAction_def)
qed

theorem parseSubmitAction_round_trip_witness:
  "parseSubmitAction (render_action ''save'' [(sq, ''a, b''), (dq, ''c)d''), (sq, ''it'' @ [sq] @ ''s'')]) =
    (''save'', [''a, b'', ''c)d'', ''it'' @ [sq] @ ''s''])"
  using parseSubmitAction_round_trip
    [of "''save''" "[(sq, ''a, b''), (dq, ''c)d''), (sq, ''it'' @ [sq] @ ''s'')]"]
  by (simp add: js_trim_def is_ws_def code_def)

end
