(* ===== verification/SidebarAccordion.thy ===== *)
theory SidebarAccordion
  imports JSPrelude "HOL-Library.AList"
begin

text \<open>
  The collapsible groups of the settings sidebar, resources/js/settings-sidebar-accordion.js.
  The stored text is missing, malformed or the JSON value it parses to; storing may be refused
  by the browser.
\<close>

section \<open>The component\<close>

datatype stored = Missing | Malformed | Stored json

record accordion =
  activeGroup :: string
  storageKey :: string
  groups :: json
  search :: string
  labels :: "string list"

text \<open>The arguments of the component and their defaults; \<open>labels\<close> is used if it is an array.\<close>

definition settingsSidebarAccordion :: "string option \<Rightarrow> string option \<Rightarrow> string list option \<Rightarrow> accordion" where
  "settingsSidebarAccordion active key labels' =
     \<lparr>activeGroup = (if truthy active then the active else []),
      storageKey = (if truthy key then the key else ''coolify.settings-sidebar''),
      groups = JObj [], search = [],
      labels = (case labels' of Some ls \<Rightarrow> ls | None \<Rightarrow> [])\<rparr>"

definition searching :: "accordion \<Rightarrow> bool" where
  "searching s \<longleftrightarrow> js_trim (search s) \<noteq> []"

definition matches :: "string \<Rightarrow> accordion \<Rightarrow> bool" where
  "matches label s \<longleftrightarrow>
     (if \<not> searching s then True else js_includes (js_lower label) (js_lower (js_trim (search s))))"

definition hasResults :: "accordion \<Rightarrow> bool" where
  "hasResults s \<longleftrightarrow> \<not> searching s \<or> list_ex (\<lambda>l. matches l s) (labels s)"

text \<open>An own property of an object or an array, and the entries a spread copies.\<close>

definition own_property :: "json \<Rightarrow> string \<Rightarrow> json option" where
  "own_property v k =
     (case v of
        JObj es \<Rightarrow> map_of es k
      | JArr xs \<Rightarrow>
          if k = ''length'' then Some (JNum (int (length xs)))
          else map_of (zip (map nat_to_string [0..<length xs]) xs) k
      | _ \<Rightarrow> None)"

definition spread :: "json \<Rightarrow> (string \<times> json) list" where
  "spread v =
     (case v of
        JObj es \<Rightarrow> es
      | JArr xs \<Rightarrow> zip (map nat_to_string [0..<length xs]) xs
      | _ \<Rightarrow> [])"

definition load :: "stored \<Rightarrow> json" where
  "load st =
     (case st of
        Stored v \<Rightarrow> (case v of JObj es \<Rightarrow> v | JArr xs \<Rightarrow> v | _ \<Rightarrow> JObj [])
      | _ \<Rightarrow> JObj [])"

definition accordion_init :: "stored \<Rightarrow> accordion \<Rightarrow> accordion" where
  "accordion_init st s = s\<lparr>groups := load st\<rparr>"

definition isOpen :: "string \<Rightarrow> accordion \<Rightarrow> json" where
  "isOpen g s =
     (if g = activeGroup s then JBool True
      else (case own_property (groups s) g of Some v \<Rightarrow> v | None \<Rightarrow> JBool True))"

text \<open>\<open>refused\<close>: \<open>setItem\<close> throws.\<close>

definition toggle :: "string \<Rightarrow> bool \<Rightarrow> accordion \<times> stored \<Rightarrow> accordion \<times> stored" where
  "toggle g refused = (\<lambda>(s, st).
     (let gs = JObj (AList.update g (JBool (\<not> json_truthy (isOpen g s))) (spread (groups s)))
      in (s\<lparr>groups := gs\<rparr>, if refused then st else Stored gs)))"

abbreviation is_open :: "string \<Rightarrow> accordion \<Rightarrow> bool" where
  "is_open g s \<equiv> json_truthy (isOpen g s)"

lemma spread_own: "k \<noteq> ''length'' \<Longrightarrow> map_of (spread v) k = own_property v k"
  by (cases v) (simp_all add: spread_def own_property_def)

lemma own_JObj [simp]: "own_property (JObj es) k = map_of es k"
  by (simp add: own_property_def)

section \<open>Properties\<close>

text \<open>A toggle changes one group and survives a reload. For a group that is not the active one,
  toggling it turns its state around and leaves every other group as it is (a group named
  like the length of a stored array excepted); a fresh page with the same active group that
  loads what was stored shows the same, and the active group is always open.\<close>

theorem toggle_persists:
  assumes "g \<noteq> activeGroup s" "h \<noteq> g" "h \<noteq> ''length''" "toggle g False (s, st) = (s', st')"
    "activeGroup s' = activeGroup t"
  shows "is_open g s' = (\<not> is_open g s) \<and> is_open h s' = is_open h s \<and>
    isOpen k (accordion_init st' t) = isOpen k s' \<and> is_open (activeGroup s) s'"
proof -
  let ?gs = "AList.update g (JBool (\<not> is_open g s)) (spread (groups s))"
  have s': "s' = s\<lparr>groups := JObj ?gs\<rparr>" "st' = Stored (JObj ?gs)"
    using assms(4) by (auto simp: toggle_def Let_def)
  have "activeGroup t = activeGroup s" using assms(5) by (simp add: s')
  then have "isOpen k (accordion_init st' t) = isOpen k s'"
    by (simp add: s' isOpen_def accordion_init_def load_def)
  moreover have "is_open g s' = (\<not> is_open g s)"
    using assms(1) by (simp add: s' isOpen_def update_conv')
  moreover have "is_open h s' = is_open h s"
    using assms(2,3) by (simp add: s' isOpen_def update_conv' spread_own)
  moreover have "is_open (activeGroup s) s'" by (simp add: s' isOpen_def)
  ultimately show ?thesis by blast
qed

definition sample_accordion :: accordion where
  "sample_accordion = settingsSidebarAccordion (Some ''general'') None None"

theorem toggle_persists_witness:
  "is_open ''advanced'' (fst (toggle ''advanced'' False (sample_accordion, Missing))) = False"
proof -
  let ?r = "toggle ''advanced'' False (sample_accordion, Missing)"
  have "is_open ''advanced'' (fst ?r) = (\<not> is_open ''advanced'' sample_accordion)"
    using toggle_persists [where g = "''advanced''" and h = "''network''" and s = sample_accordion and st = Missing
        and s' = "fst ?r" and st' = "snd ?r" and t = "fst ?r" and k = "[]"]
    by (simp add: sample_accordion_def settingsSidebarAccordion_def truthy_def)
  then show ?thesis
    by (simp add: sample_accordion_def settingsSidebarAccordion_def isOpen_def own_property_def truthy_def)
qed

text \<open>A search shows results exactly when some label contains what is typed, white space around it
  and case aside; without anything typed everything is shown.\<close>

theorem hasResults_iff:
  "hasResults s = (js_trim (search s) = [] \<or>
     (\<exists>l a b. l \<in> set (labels s) \<and> js_lower l = a @ js_lower (js_trim (search s)) @ b))"
  by (auto simp: hasResults_def matches_def searching_def list_ex_iff js_includes_iff)

end
