(* ===== verification/CopyButton.thy ===== *)
theory CopyButton
  imports JSPrelude
begin

text \<open>
  The copy button, resources/js/copy-button.js: the clipboard where the page may use it, a
  hidden text area and the copy command where it may not. The awaited write settles in a later
  step.
\<close>

section \<open>The component\<close>

datatype copy_timer = TCopied

datatype exec_result = ExecTrue | ExecFalse | ExecThrows

datatype copy_effect =
    ToastUnavailable
  | ToastFailed
  | ClipboardRequest string
  | ExecCopy string

text \<open>Where the focus is: on no element (or the body), on an element of the page, on a text area of the
  fallback.\<close>

datatype copy_focus = NoElement | PageElement nat | CopyArea

record copy_state =
  copied :: bool
  copyTimers :: "copy_timer timers"
  writes :: nat
  strayAreas :: nat
  activeElement :: copy_focus
  copyFx :: "copy_effect list"

definition copy_start :: copy_state where
  "copy_start = \<lparr>copied = False, copyTimers = no_timers, writes = 0, strayAreas = 0, activeElement = NoElement, copyFx = []\<rparr>"

definition emit_copy :: "copy_effect list \<Rightarrow> copy_state \<Rightarrow> copy_state" where
  "emit_copy es s = s\<lparr>copyFx := copyFx s @ es\<rparr>"

text \<open>The lines after the copy succeeded: the mark, and the timer that takes it away.\<close>

definition mark_copied :: "copy_state \<Rightarrow> copy_state" where
  "mark_copied s = s\<lparr>copied := True, copyTimers := snd (set_timer TCopied (copyTimers s))\<rparr>"

text \<open>The fallback: a text area next to the button, focused, selected and copied; it is removed and the focus
  goes back to where it was, unless the command throws.\<close>

definition copy_fallback :: "exec_result \<Rightarrow> string \<Rightarrow> copy_state \<Rightarrow> copy_state" where
  "copy_fallback r value s0 =
     (let previousFocus = activeElement s0;
          s = emit_copy [ExecCopy value] (s0\<lparr>strayAreas := Suc (strayAreas s0), activeElement := CopyArea\<rparr>);
          removed = s\<lparr>strayAreas := strayAreas s - 1, activeElement := previousFocus\<rparr> in
      case r of
        ExecTrue \<Rightarrow> mark_copied removed
      | ExecFalse \<Rightarrow> emit_copy [ToastFailed] removed
      | ExecThrows \<Rightarrow> emit_copy [ToastFailed] s)"

definition copy :: "bool \<Rightarrow> bool \<Rightarrow> exec_result \<Rightarrow> string option \<Rightarrow> copy_state \<Rightarrow> copy_state" where
  "copy hasClipboard secure r value s =
     (case value of
        None \<Rightarrow> emit_copy [ToastUnavailable] s
      | Some v \<Rightarrow>
          if hasClipboard \<and> secure then emit_copy [ClipboardRequest v] (s\<lparr>writes := Suc (writes s)\<rparr>)
          else copy_fallback r v s)"

definition write_settled :: "bool \<Rightarrow> copy_state \<Rightarrow> copy_state" where
  "write_settled ok s =
     (if writes s = 0 then s
      else (let s1 = s\<lparr>writes := writes s - 1\<rparr> in if ok then mark_copied s1 else emit_copy [ToastFailed] s1))"

datatype copy_event =
    CopyClick bool bool exec_result "string option"
  | WriteSettled bool
  | CopyTimer nat
  | FocusMoves copy_focus

fun copy_step :: "copy_state \<Rightarrow> copy_event \<Rightarrow> copy_state" where
  "copy_step s (CopyClick c sec r v) = copy c sec r v s"
| "copy_step s (WriteSettled ok) = write_settled ok s"
| "copy_step s (CopyTimer i) =
     (if map_of (armed (copyTimers s)) i = None then s
      else s\<lparr>copied := False, copyTimers := clear_timer i (copyTimers s)\<rparr>)"
| "copy_step s (FocusMoves f) = s\<lparr>activeElement := f\<rparr>"

section \<open>The mark goes away\<close>

text \<open>While the mark is shown, a timer that takes it away is armed.\<close>

definition copy_inv :: "copy_state \<Rightarrow> bool" where
  "copy_inv s \<longleftrightarrow> (copied s \<longrightarrow> armed (copyTimers s) \<noteq> [])"

lemma copy_inv_step: "copy_inv s \<Longrightarrow> copy_inv (copy_step s e)"
  by (cases e) (auto simp: copy_inv_def copy_def copy_fallback_def mark_copied_def emit_copy_def write_settled_def
      set_timer_def Let_def split: option.split exec_result.split)

interpretation copy_button: event_machine "\<lambda>s. s = copy_start" "\<lambda>_ _. True" copy_step copy_inv
  by unfold_locales (simp_all add: copy_inv_step, simp add: copy_inv_def copy_start_def)

definition failed_toasts :: "copy_state \<Rightarrow> nat" where
  "failed_toasts s = length (filter (\<lambda>x. x = ToastFailed) (copyFx s))"

lemma failed_toasts_emit [simp]:
  "failed_toasts (emit_copy [ToastFailed] s) = Suc (failed_toasts s)"
  "failed_toasts (emit_copy [ToastUnavailable] s) = failed_toasts s"
  "failed_toasts (emit_copy [ClipboardRequest v] s) = failed_toasts s"
  "failed_toasts (emit_copy [ExecCopy v] s) = failed_toasts s"
  by (simp_all add: failed_toasts_def emit_copy_def)

section \<open>Properties\<close>

text \<open>The mark says that a copy succeeded, and goes away. In every history a marked button has a
  timer armed that takes the mark away; and a fallback copy marks the button exactly when the copy
  command reports success, otherwise shows one failure toast and leaves the mark as it was, and
  leaves its text area in the page, with the focus in it, exactly when the command throws.\<close>

theorem copy_feedback:
  "copied (run copy_step copy_start es) \<le> (armed (copyTimers (run copy_step copy_start es)) \<noteq> []) \<and>
   copied (copy_fallback r value s) = (r = ExecTrue \<or> copied s) \<and>
   failed_toasts (copy_fallback r value s) = failed_toasts s + (if r = ExecTrue then 0 else 1) \<and>
   strayAreas (copy_fallback r value s) = strayAreas s + (if r = ExecThrows then 1 else 0) \<and>
   activeElement (copy_fallback r value s) = (if r = ExecThrows then CopyArea else activeElement s)"
proof (intro conjI)
  have "copy_inv (run copy_step copy_start es)"
    by (rule copy_button.inv_run [OF copy_button.inv_start]) simp_all
  then show "copied (run copy_step copy_start es) \<le> (armed (copyTimers (run copy_step copy_start es)) \<noteq> [])"
    by (simp add: copy_inv_def le_bool_def)
  show "copied (copy_fallback r value s) = (r = ExecTrue \<or> copied s)"
    by (cases r) (simp_all add: copy_fallback_def mark_copied_def emit_copy_def Let_def)
  have m: "failed_toasts (mark_copied t) = failed_toasts t"
    "failed_toasts (t\<lparr>strayAreas := n, activeElement := f\<rparr>) = failed_toasts t" for t n f
    by (simp_all add: failed_toasts_def mark_copied_def)
  show "failed_toasts (copy_fallback r value s) = failed_toasts s + (if r = ExecTrue then 0 else 1)"
    by (cases r) (simp_all add: copy_fallback_def m Let_def)
  show "strayAreas (copy_fallback r value s) = strayAreas s + (if r = ExecThrows then 1 else 0)"
    "activeElement (copy_fallback r value s) = (if r = ExecThrows then CopyArea else activeElement s)"
    by (cases r; simp add: copy_fallback_def mark_copied_def emit_copy_def Let_def)+
qed

end
