(* ===== verification/SectionScroll.thy ===== *)
theory SectionScroll
  imports JSPrelude Complex_Main
begin

text \<open>
  Scrolling to a settings section and flashing it, resources/js/app.js. One record holds what
  one element and the variables of its latest run hold: a new run first ends the previous one,
  whose frame and listener are cancelled, so no older run can act. The host's frames and
  timers share one table.
\<close>

section \<open>A run\<close>

datatype section_timer = ScrollFrame | UnflashTimer

record section_state =
  highlighted :: bool
  sectionHighlightTimer :: "nat option"
  hasCleanup :: bool
  finished :: bool
  rafId :: "nat option"
  scrollEndHandler :: bool
  lastTop :: "real option"
  stableFrames :: nat
  frameCount :: nat
  host :: "section_timer timers"
  scrolls :: nat
  flashes :: nat

definition maxFrames :: nat where "maxFrames = 180"

definition section_start :: section_state where
  "section_start =
     \<lparr>highlighted = False, sectionHighlightTimer = None, hasCleanup = False, finished = False, rafId = None,
      scrollEndHandler = False, lastTop = None, stableFrames = 0, frameCount = 0, host = no_timers, scrolls = 0,
      flashes = 0\<rparr>"

definition runHighlight :: "section_state \<Rightarrow> section_state" where
  "runHighlight s =
     (let (i, t) = set_timer UnflashTimer (host s)
      in s\<lparr>highlighted := True, sectionHighlightTimer := Some i, host := t, flashes := Suc (flashes s)\<rparr>)"

definition cleanup_run :: "section_state \<Rightarrow> section_state" where
  "cleanup_run s =
     s\<lparr>host := clear_opt (sectionHighlightTimer s) (clear_opt (rafId s) (host s)), rafId := None,
       scrollEndHandler := False, sectionHighlightTimer := None\<rparr>"

definition finish_run :: "section_state \<Rightarrow> section_state" where
  "finish_run s = (if finished s then s else runHighlight (cleanup_run (s\<lparr>finished := True\<rparr>)))"

text \<open>The cleanup an earlier run left on the element.\<close>

definition previous_cleanup :: "section_state \<Rightarrow> section_state" where
  "previous_cleanup s =
     (if hasCleanup s
      then (cleanup_run (s\<lparr>finished := True\<rparr>))\<lparr>highlighted := False, hasCleanup := False\<rparr> else s)"

definition request_frame :: "section_state \<Rightarrow> section_state" where
  "request_frame s = (let (i, t) = set_timer ScrollFrame (host s) in s\<lparr>host := t, rafId := Some i\<rparr>)"

definition scrollToSettingsSection :: "section_state \<Rightarrow> section_state" where
  "scrollToSettingsSection s0 =
     (let s = previous_cleanup s0
      in request_frame
           (s\<lparr>finished := False, rafId := None, hasCleanup := True, scrolls := Suc (scrolls s), scrollEndHandler := True,
              lastTop := None, stableFrames := 0, frameCount := 0\<rparr>))"

text \<open>A frame, with the element's position in the viewport.\<close>

definition scroll_tick :: "real \<Rightarrow> section_state \<Rightarrow> section_state" where
  "scroll_tick y0 s0 =
     (if finished s0 then s0
      else
        (let stable = (case lastTop s0 of None \<Rightarrow> False | Some y \<Rightarrow> \<bar>y0 - y\<bar> < 1 / 2);
             s = s0\<lparr>frameCount := Suc (frameCount s0), stableFrames := (if stable then Suc (stableFrames s0) else 0),
                    lastTop := Some y0\<rparr>
         in if 4 < frameCount s \<and> 4 \<le> stableFrames s then finish_run s
            else if maxFrames \<le> frameCount s then finish_run s
            else request_frame s))"

text \<open>The hash of the address, without its sign; \<open>decode\<close> is \<open>decodeURIComponent\<close>, which may throw.\<close>

definition hash_section :: "(string \<Rightarrow> string option) \<Rightarrow> string \<Rightarrow> string option" where
  "hash_section decode hash = (if length hash < 2 then None else decode (drop 1 hash))"

datatype section_event =
    ScrollTo
  | ScrollEnd
  | FrameFires real nat
  | UnflashFires nat

fun section_step :: "section_state \<Rightarrow> section_event \<Rightarrow> section_state" where
  "section_step s ScrollTo = scrollToSettingsSection s"
| "section_step s ScrollEnd = (if scrollEndHandler s then finish_run (s\<lparr>scrollEndHandler := False\<rparr>) else s)"
| "section_step s (FrameFires y0 i) =
     (if map_of (armed (host s)) i = Some ScrollFrame
      then scroll_tick y0 (s\<lparr>host := clear_timer i (host s)\<rparr>) else s)"
| "section_step s (UnflashFires i) =
     (if map_of (armed (host s)) i = Some UnflashTimer
      then s\<lparr>host := clear_timer i (host s), highlighted := False\<rparr> else s)"

section \<open>The invariant\<close>

definition section_inv :: "section_state \<Rightarrow> bool" where
  "section_inv s \<longleftrightarrow>
     timers_fresh (host s) \<and>
     ids_of ((=) ScrollFrame) (host s) \<subseteq> set_option (rafId s) \<and>
     ids_of ((=) UnflashTimer) (host s) \<subseteq> set_option (sectionHighlightTimer s) \<and>
     (finished s \<or> \<not> hasCleanup s \<longrightarrow> rafId s = None) \<and>
     (highlighted s \<longrightarrow> (\<exists>i. sectionHighlightTimer s = Some i \<and> map_of (armed (host s)) i = Some UnflashTimer)) \<and>
     (hasCleanup s \<and> \<not> finished s \<longrightarrow>
        sectionHighlightTimer s = None \<and>
        (\<exists>i. rafId s = Some i \<and> map_of (armed (host s)) i = Some ScrollFrame) \<and> frameCount s < maxFrames) \<and>
     (hasCleanup s \<or> sectionHighlightTimer s = None) \<and> (scrollEndHandler s \<longrightarrow> hasCleanup s) \<and>
     flashes s + (if hasCleanup s \<and> \<not> finished s then 1 else 0) \<le> scrolls s"

lemma host_simps [simp]:
  "timers_fresh t \<Longrightarrow> timers_fresh (snd (set_timer k t))" "timers_fresh t \<Longrightarrow> timers_fresh (clear_timer i t)"
  "timers_fresh t \<Longrightarrow> timers_fresh (clear_opt h t)"
  "map_of (armed (snd (set_timer k t))) (nextId t) = Some k"
  by (auto simp: timers_fresh_def set_timer_def clear_timer_def clear_opt_def split: option.splits)

text \<open>After the cleanup of a run neither a frame nor a timer is left.\<close>

lemma cleanup_idle:
  assumes "section_inv s" "t = cleanup_run (s\<lparr>finished := b\<rparr>)"
  shows "ids_of ((=) ScrollFrame) (host t) = {}" "ids_of ((=) UnflashTimer) (host t) = {}"
    "timers_fresh (host t)" "rafId t = None" "sectionHighlightTimer t = None"
  using assms by (auto simp: section_inv_def cleanup_run_def)

lemma inv_run_highlight:
  assumes "ids_of ((=) ScrollFrame) (host s) = {}" "ids_of ((=) UnflashTimer) (host s) = {}" "timers_fresh (host s)"
    "rafId s = None" "finished s" "hasCleanup s" "Suc (flashes s) \<le> scrolls s"
  shows "section_inv (runHighlight s)"
  using assms by (auto simp: section_inv_def runHighlight_def case_prod_beta)

lemma finish_simps:
  "hasCleanup (cleanup_run s) = hasCleanup s" "flashes (cleanup_run s) = flashes s" "scrolls (cleanup_run s) = scrolls s"
  "finished (cleanup_run s) = finished s"
  by (simp_all add: cleanup_run_def)

lemma inv_finish:
  assumes s: "section_inv s" and h: "hasCleanup s" shows "section_inv (finish_run s)"
proof (cases "finished s")
  case False
  note c = cleanup_idle [OF s refl, of True]
  have "flashes s + 1 \<le> scrolls s" using s h False by (auto simp: section_inv_def split: if_splits)
  with c h False show ?thesis
    by (simp add: finish_run_def inv_run_highlight finish_simps)
qed (use s in \<open>simp add: finish_run_def\<close>)

lemma inv_scrollTo: "section_inv s \<Longrightarrow> section_inv (scrollToSettingsSection s)"
proof -
  assume s: "section_inv s"
  let ?p = "previous_cleanup s"
  have "ids_of ((=) ScrollFrame) (host ?p) = {} \<and> ids_of ((=) UnflashTimer) (host ?p) = {} \<and> timers_fresh (host ?p) \<and>
    sectionHighlightTimer ?p = None \<and> \<not> highlighted ?p \<and> flashes ?p \<le> scrolls ?p"
    using s cleanup_idle [OF s refl, of True]
    by (auto simp: previous_cleanup_def finish_simps section_inv_def)
  then show ?thesis
    by (auto simp: scrollToSettingsSection_def request_frame_def Let_def case_prod_beta section_inv_def maxFrames_def)
qed

text \<open>A frame that fires has left the table; the run it belongs to is under way.\<close>

lemma frame_fires:
  assumes "section_inv s" "map_of (armed (host s)) i = Some ScrollFrame"
  shows "rafId s = Some i" "hasCleanup s" "\<not> finished s"
proof -
  have "i \<in> ids_of ((=) ScrollFrame) (host s)"
    using map_of_SomeD [OF assms(2)] by (force simp: ids_of_def)
  with assms(1) show "rafId s = Some i" by (auto simp: section_inv_def)
  with assms(1) show "hasCleanup s" "\<not> finished s" by (auto simp: section_inv_def)
qed

text \<open>Finishing a run from the middle of a frame.\<close>

lemma inv_finish_frame:
  assumes s: "section_inv s" and r: "hasCleanup s" "\<not> finished s" "t = s\<lparr>host := clear_timer i (host s), frameCount := n, stableFrames := m, lastTop := y\<rparr>"
  shows "section_inv (finish_run t)"
proof -
  have "ids_of ((=) ScrollFrame) (host (cleanup_run (t\<lparr>finished := True\<rparr>))) = {}"
    "ids_of ((=) UnflashTimer) (host (cleanup_run (t\<lparr>finished := True\<rparr>))) = {}"
    "timers_fresh (host (cleanup_run (t\<lparr>finished := True\<rparr>)))"
    using s by (auto simp: r(3) section_inv_def cleanup_run_def)
  moreover have "flashes s + 1 \<le> scrolls s" using s r by (auto simp: section_inv_def split: if_splits)
  ultimately have "section_inv (runHighlight (cleanup_run (t\<lparr>finished := True\<rparr>)))"
    using r(1,2) by (intro inv_run_highlight) (simp_all add: finish_simps, simp_all add: cleanup_run_def r(3))
  moreover have "\<not> finished t" using r by simp
  ultimately show ?thesis by (simp add: finish_run_def)
qed

lemma inv_next_frame:
  assumes "section_inv s" "hasCleanup s" "\<not> finished s" "rafId s = Some i" "n < maxFrames"
  shows "section_inv (request_frame (s\<lparr>host := clear_timer i (host s), frameCount := n, stableFrames := m, lastTop := y\<rparr>))"
  using assms by (auto simp: section_inv_def request_frame_def case_prod_beta split: if_splits)

lemma inv_section_step: "section_inv s \<Longrightarrow> section_inv (section_step s e)"
proof (cases e)
  case (FrameFires y0 i)
  assume s: "section_inv s"
  show ?thesis
  proof (cases "map_of (armed (host s)) i = Some ScrollFrame")
    case True
    note f = frame_fires [OF s True]
    from FrameFires True f inv_finish_frame [OF s f(2,3) refl] inv_next_frame [OF s f(2,3,1)]
    show ?thesis by (simp add: scroll_tick_def Let_def)
  qed (use s FrameFires in simp)
next
  case ScrollEnd
  assume s: "section_inv s"
  have "section_inv (s\<lparr>scrollEndHandler := False\<rparr>)" "scrollEndHandler s \<longrightarrow> hasCleanup s"
    using s by (simp_all add: section_inv_def)
  with s ScrollEnd show ?thesis
    by (cases "hasCleanup s") (auto simp: inv_finish)
next
  case (UnflashFires i)
  assume s: "section_inv s"
  have "map_of (armed (clear_timer i (host s))) j = Some ScrollFrame"
    if "map_of (armed (host s)) i = Some UnflashTimer" "map_of (armed (host s)) j = Some ScrollFrame" for j
    using that by (cases "i = j") (simp_all add: map_of_clear)
  with s UnflashFires show ?thesis by (auto simp: section_inv_def)
qed (use inv_scrollTo in simp)

lemma inv_section_start: "section_inv section_start"
  by (simp add: section_inv_def section_start_def timers_fresh_def no_timers_def ids_of_def)

interpretation section_scroll: event_machine "\<lambda>s. s = section_start" "\<lambda>_ _. True" section_step section_inv
  by unfold_locales (simp_all add: inv_section_start inv_section_step)

lemma section_run_inv: "section_inv (run section_step section_start es)"
  by (rule section_scroll.inv_run [OF section_scroll.inv_start]) simp_all

section \<open>Frames of one run\<close>

text \<open>The pending frame fires again and again, with the positions it sees.\<close>

definition next_frame :: "real \<Rightarrow> section_state \<Rightarrow> section_state" where
  "next_frame y0 s = section_step s (FrameFires y0 (case rafId s of Some i \<Rightarrow> i | None \<Rightarrow> 0))"

lemma next_frame_running:
  assumes s: "section_inv s" "hasCleanup s" "\<not> finished s"
  shows "finished (next_frame y0 s) \<and> flashes (next_frame y0 s) = Suc (flashes s) \<or>
    \<not> finished (next_frame y0 s) \<and> hasCleanup (next_frame y0 s) \<and> flashes (next_frame y0 s) = flashes s \<and>
    frameCount (next_frame y0 s) = Suc (frameCount s)"
proof -
  obtain i where "rafId s = Some i" "map_of (armed (host s)) i = Some ScrollFrame"
    using s by (auto simp: section_inv_def)
  then show ?thesis
    using s by (auto simp: next_frame_def scroll_tick_def Let_def finish_run_def runHighlight_def cleanup_run_def
        request_frame_def case_prod_beta)
qed

lemma next_frame_finished:
  assumes "section_inv s" "finished s" shows "next_frame y0 s = s"
proof -
  have "map_of (armed (host s)) i \<noteq> Some ScrollFrame" for i
    using frame_fires(3) [OF assms(1)] assms(2) by blast
  then show ?thesis by (simp add: next_frame_def)
qed

lemma frames_finish:
  assumes "section_inv s" "hasCleanup s" "\<not> finished s" "maxFrames \<le> frameCount s + length ys"
  shows "finished (fold next_frame ys s) \<and> flashes (fold next_frame ys s) = Suc (flashes s)"
  using assms
proof (induction ys arbitrary: s)
  case Nil
  then show ?case by (auto simp: section_inv_def)
next
  case (Cons y0 ys)
  have inv: "section_inv (next_frame y0 s)" using Cons.prems(1) by (simp add: next_frame_def inv_section_step del: section_step.simps)
  have stay: "fold next_frame ys t = t" if "section_inv t" "finished t" for t
    using that by (induction ys) (simp_all add: next_frame_finished)
  from next_frame_running [OF Cons.prems(1-3), of y0] show ?case
  proof
    assume "finished (next_frame y0 s) \<and> flashes (next_frame y0 s) = Suc (flashes s)"
    with stay [OF inv] show ?thesis by simp
  next
    assume r: "\<not> finished (next_frame y0 s) \<and> hasCleanup (next_frame y0 s) \<and> flashes (next_frame y0 s) = flashes s \<and>
      frameCount (next_frame y0 s) = Suc (frameCount s)"
    have "finished (fold next_frame ys (next_frame y0 s)) \<and>
        flashes (fold next_frame ys (next_frame y0 s)) = Suc (flashes (next_frame y0 s))"
      by (rule Cons.IH [OF inv]) (use r Cons.prems(4) in simp_all)
    with r show ?thesis by simp
  qed
qed

section \<open>Properties\<close>



text \<open>A flash ends. In every history a highlighted section has the timer armed that takes the
  highlight away, at most one frame is pending, and there are no more flashes than scroll
  requests.\<close>

theorem section_flash_ends:
  "highlighted (run section_step section_start es) \<le>
     (UnflashTimer \<in> set (map snd (armed (host (run section_step section_start es))))) \<and>
   card (ids_of ((=) ScrollFrame) (host (run section_step section_start es))) \<le> 1 \<and>
   flashes (run section_step section_start es) \<le> scrolls (run section_step section_start es)"
proof -
  let ?s = "run section_step section_start es"
  have i: "section_inv ?s" by (rule section_run_inv)
  have "highlighted ?s \<Longrightarrow> UnflashTimer \<in> set (map snd (armed (host ?s)))"
    using i by (force simp: section_inv_def dest: map_of_SomeD)
  moreover have "card (ids_of ((=) ScrollFrame) (host ?s)) \<le> card (set_option (rafId ?s))"
    by (rule card_mono) (use i in \<open>simp_all add: section_inv_def\<close>)
  moreover have "card (set_option (rafId ?s)) \<le> 1" by (cases "rafId ?s") simp_all
  moreover have "flashes ?s \<le> scrolls ?s" using i by (simp add: section_inv_def split: if_splits)
  ultimately show ?thesis by (auto simp: le_bool_def)
qed

end
