(* ===== verification/AppBootstrap.thy ===== *)
theory AppBootstrap
  imports SectionScroll
begin

text \<open>
  What resources/js/app.js does when it is loaded: it listens to the document. Livewire's start
  registers the request failure handler, Alpine's start registers the components, a navigation removes
  leftover x-cloak attributes, and a loaded or navigated page scrolls to the section of its address.
\<close>

record element =
  attributes :: "(string \<times> string) list"

definition removeAttribute :: "string \<Rightarrow> element \<Rightarrow> element" where
  "removeAttribute k e = e\<lparr>attributes := filter (\<lambda>a. fst a \<noteq> k) (attributes e)\<rparr>"

definition has_attribute :: "string \<Rightarrow> element \<Rightarrow> bool" where
  "has_attribute k e \<longleftrightarrow> k \<in> set (map fst (attributes e))"

definition strip_cloak :: "element list \<Rightarrow> element list" where
  "strip_cloak doc = map (\<lambda>e. if has_attribute ''x-cloak'' e then removeAttribute ''x-cloak'' e else e) doc"

text \<open>The four initialize functions of the listeners to \<open>alpine:init\<close>, by the names they register.\<close>

definition alpine_providers :: "string list" where
  "alpine_providers = [''terminalData'', ''copyButton'', ''runtimeLogs'', ''settingsSidebarAccordion'']"

record app =
  document :: "element list"
  providers :: "string list"
  failureHandlers :: nat
  sectionFrames :: "string list"

definition app_start :: "element list \<Rightarrow> app" where
  "app_start doc = \<lparr>document = doc, providers = [], failureHandlers = 0, sectionFrames = []\<rparr>"

text \<open>\<open>scrollToHashSettingsSection\<close> for the address's hash; a hash that does not decode throws in its
  own listener. \<open>SectionFrame\<close> is the frame it requested.\<close>

definition scrollToHashSettingsSection :: "(string \<Rightarrow> string option) \<Rightarrow> string \<Rightarrow> app \<Rightarrow> app" where
  "scrollToHashSettingsSection decode hash a =
     (case hash_section decode hash of None \<Rightarrow> a | Some i \<Rightarrow> a\<lparr>sectionFrames := sectionFrames a @ [i]\<rparr>)"

datatype app_event =
    LivewireInit
  | LivewireNavigated string "element list"
  | AlpineInit
  | ContentLoaded string

text \<open>The listeners run in the order of their registration. A navigation brings its document.\<close>

fun app_step :: "(string \<Rightarrow> string option) \<Rightarrow> app \<Rightarrow> app_event \<Rightarrow> app" where
  "app_step decode a LivewireInit = a\<lparr>failureHandlers := Suc (failureHandlers a)\<rparr>"
| "app_step decode a (LivewireNavigated hash doc) =
     scrollToHashSettingsSection decode hash (a\<lparr>document := strip_cloak doc\<rparr>)"
| "app_step decode a AlpineInit = a\<lparr>providers := fold List.insert alpine_providers (providers a)\<rparr>"
| "app_step decode a (ContentLoaded hash) = scrollToHashSettingsSection decode hash a"

lemma strip_cloak_ok:
  "list_all (\<lambda>e. \<not> has_attribute ''x-cloak'' e) (strip_cloak doc)"
  "map (\<lambda>e. filter (\<lambda>a. fst a \<noteq> ''x-cloak'') (attributes e)) doc = map attributes (strip_cloak doc)"
proof -
  have "attributes (if has_attribute ''x-cloak'' e then removeAttribute ''x-cloak'' e else e)
      = filter (\<lambda>a. fst a \<noteq> ''x-cloak'') (attributes e)" for e
    by (auto simp: has_attribute_def removeAttribute_def image_iff intro!: filter_True [symmetric])
  then show "map (\<lambda>e. filter (\<lambda>a. fst a \<noteq> ''x-cloak'') (attributes e)) doc = map attributes (strip_cloak doc)"
    by (simp add: strip_cloak_def)
  show "list_all (\<lambda>e. \<not> has_attribute ''x-cloak'' e) (strip_cloak doc)"
    by (auto simp: strip_cloak_def list_all_iff has_attribute_def removeAttribute_def)
qed

lemma document_scroll [simp]: "document (scrollToHashSettingsSection decode hash a) = document a"
  by (simp add: scrollToHashSettingsSection_def split: option.split)

text \<open>After the first navigation no element keeps its x-cloak, however the pages were rendered.\<close>

lemma navigated_uncloaked:
  "list_all (\<lambda>e. \<not> has_attribute ''x-cloak'' e)
     (document (run (app_step decode) (app_start doc) (es @ LivewireNavigated hash page # fs)))"
proof -
  have "list_all (\<lambda>e. \<not> has_attribute ''x-cloak'' e) (document a) \<Longrightarrow>
      list_all (\<lambda>e. \<not> has_attribute ''x-cloak'' e) (document (run (app_step decode) a fs))" for a
  proof (induction fs arbitrary: a)
    case (Cons f fs)
    then show ?case by (cases f) (simp_all add: strip_cloak_ok(1))
  qed simp
  then show ?thesis by (simp add: strip_cloak_ok(1))
qed

lemma providers_after_init:
  "set alpine_providers \<subseteq> set (providers (run (app_step decode) a (es @ [AlpineInit])))"
  by (simp add: alpine_providers_def)

end
