(* ===== verification/DebugLog.thy ===== *)
theory DebugLog
  imports TerminalClient UpgradeAuth
begin

text \<open>
  The debug logs of the terminal: the switch in the address and the local storage of the browser
  (resources/js/terminal.js), and the log lines of the server (terminal-server.js). \<open>Console level
  message args\<close> is a call of a method of \<open>console\<close>. The report of the theme that two of the messages carry.
\<close>

datatype 'a console = Console string string "'a list"

section \<open>The browser\<close>

text \<open>\<open>param\<close> is the value of \<open>terminal-debug\<close> in the address; \<open>dev\<close> is \<open>import.meta.env.DEV\<close>, which
  the build fixes.\<close>

definition store_debug_parameter :: "string option \<Rightarrow> (string \<Rightarrow> string option) \<Rightarrow> string \<Rightarrow> string option" where
  "store_debug_parameter param storage =
     (if param = Some ''1'' \<or> param = Some ''0'' then storage(''coolify-terminal-debug'' := param) else storage)"

definition browser_debug_enabled :: "bool \<Rightarrow> (string \<Rightarrow> string option) \<Rightarrow> bool" where
  "browser_debug_enabled dev storage \<longleftrightarrow> dev \<or> storage ''coolify-terminal-debug'' = Some ''1''"

definition browser_log :: "bool \<Rightarrow> string \<Rightarrow> string \<Rightarrow> 'a list \<Rightarrow> 'a console list" where
  "browser_log enabled level msg context = (if \<not> enabled then [] else [Console level msg context])"

text \<open>Loading the module with each of the given addresses in turn; every load reads the switch.\<close>

fun page_loads :: "bool \<Rightarrow> (string \<Rightarrow> string option) \<Rightarrow> string option list \<Rightarrow> bool list \<times> (string \<Rightarrow> string option)" where
  "page_loads dev storage [] = ([], storage)"
| "page_loads dev storage (p # ps) =
     (let storage' = store_debug_parameter p storage;
          (bs, final) = page_loads dev storage' ps
      in (browser_debug_enabled dev storage' # bs, final))"

text \<open>What the theme messages report. The page says which elements there are and how they are drawn:
  the shell around the terminal (its theme, background, the two custom properties and the background of
  its pseudo element), and the viewport and screen of an opened terminal. \<open>None\<close> is null or undefined.\<close>

record shell_look =
  consoleTheme :: "string option"
  shell_background :: string
  theme_background :: string
  theme_opacity :: string
  pseudo_background :: string

record theme_page =
  closest_shell :: "shell_look option"
  viewport_background :: "string option"
  screen_background :: "string option"

record theme_snapshot =
  requestedTheme :: string
  snap_selectedTheme :: string
  terminalExists :: bool
  terminalOpened :: bool
  snap_terminalActive :: bool
  snap_connectionState :: connection_state
  shellTheme :: "string option"
  shellBackground :: "string option"
  shellThemeBackground :: "string option"
  shellThemeOpacity :: "string option"
  shellPseudoBackground :: "string option"
  viewportBackground :: "string option"
  screenBackground :: "string option"
  xtermBackground :: "string option"
  xtermForeground :: "string option"
  xtermCursor :: "string option"

definition xterm_color :: "client \<Rightarrow> string \<Rightarrow> string option" where
  "xterm_color s k =
     (case (term s, termTheme (look s)) of (Some t, Some th) \<Rightarrow> map_of th k | _ \<Rightarrow> None)"

definition terminalThemeDebugSnapshot :: "theme_page \<Rightarrow> string \<Rightarrow> client \<Rightarrow> theme_snapshot" where
  "terminalThemeDebugSnapshot pg themeName s =
     (let shell = closest_shell pg;
          opened = (case term s of None \<Rightarrow> False | Some t \<Rightarrow> term_initialized t)
      in \<lparr>requestedTheme = themeName, snap_selectedTheme = selectedTheme (look s),
          terminalExists = (term s \<noteq> None), terminalOpened = opened,
          snap_terminalActive = terminalActive s, snap_connectionState = connectionState s,
          shellTheme = Option.bind shell consoleTheme,
          shellBackground = map_option shell_background shell,
          shellThemeBackground = map_option theme_background shell,
          shellThemeOpacity = map_option theme_opacity shell,
          shellPseudoBackground = map_option pseudo_background shell,
          viewportBackground = (if opened then viewport_background pg else None),
          screenBackground = (if opened then screen_background pg else None),
          xtermBackground = xterm_color s ''background'', xtermForeground = xterm_color s ''foreground'',
          xtermCursor = xterm_color s ''cursor''\<rparr>)"

section \<open>The server\<close>

definition server_log :: "bool \<Rightarrow> string \<Rightarrow> string \<Rightarrow> (string \<times> 'a) list \<Rightarrow> (string \<times> 'a) list console list" where
  "server_log enabled level msg context =
     (if \<not> enabled then []
      else
        (let formattedMessage = ''[TerminalServer] '' @ msg
         in if 0 < length context then [Console level formattedMessage [context]]
            else [Console level formattedMessage []]))"

section \<open>Lemmas\<close>

text \<open>The switch holds until an address sets it again: in a production build a page logs exactly when
  the last address with a switch said 1, or, without one, when the storage did.\<close>

lemma page_loads_last:
  "fst (page_loads False storage (ps @ [p])) =
     fst (page_loads False storage ps) @
       [(case find (\<lambda>q. q = Some ''1'' \<or> q = Some ''0'') (p # rev ps) of
           Some q \<Rightarrow> q = Some ''1'' | None \<Rightarrow> storage ''coolify-terminal-debug'' = Some ''1'')]"
proof (induction ps arbitrary: storage)
  case Nil
  show ?case by (auto simp: store_debug_parameter_def browser_debug_enabled_def)
next
  case (Cons q ps)
  have "find P (xs @ [x]) = (case find P xs of Some y \<Rightarrow> Some y | None \<Rightarrow> if P x then Some x else None)" for P xs and x :: "string option"
    by (induction xs) auto
  then have f: "find P (p # rev (q # ps)) = (case find P (p # rev ps) of Some y \<Rightarrow> Some y | None \<Rightarrow> if P q then Some q else None)" for P
    by simp
  show ?case
    using Cons.IH [of "store_debug_parameter q storage"]
    unfolding f by (auto simp: split_beta Let_def store_debug_parameter_def split: option.splits)
qed

text \<open>Applying a known theme shows: the report names it as requested and as selected, and the colours are
  those of its palette.\<close>

lemma snapshot_applied:
  fixes pg c n s
  assumes "applicationTerminalThemes (systemTheme (look s)) n = Some th" "n \<noteq> ''system''"
    and "hasTerm (look s)" "term s \<noteq> None"
  defines "r \<equiv> terminalThemeDebugSnapshot pg n (s\<lparr>look := setTerminalTheme c n (look s)\<rparr>)"
  shows "snap_selectedTheme r = n" "requestedTheme r = n" "xtermBackground r = map_of th ''background''"
    "xtermForeground r = map_of th ''foreground''" "xtermCursor r = map_of th ''cursor''"
  using assms(1-4)
  by (auto simp: r_def terminalThemeDebugSnapshot_def xterm_color_def setTerminalTheme_def applicationTerminalThemes_def Let_def)

lemma silent_logs: "browser_log False level m ctx = []" "server_log False level m ctx' = []"
  by (simp_all add: browser_log_def server_log_def)

end
