(* ===== verification/ScrollLock.thy ===== *)
theory ScrollLock
  imports TerminalFullscreen
begin

text \<open>
  Which wheel and touch events still scroll while the terminal is in fullscreen: the handler that
  \<open>lockPageScroll\<close> installs on the window (resources/js/terminal.js), and that it is installed exactly
  while the page is locked.
\<close>

section \<open>The handler\<close>

text \<open>\<open>target.closest(selector)\<close>; a selector is the predicate of the elements that match it.\<close>

fun closest :: "(el \<Rightarrow> bool) \<Rightarrow> nat \<Rightarrow> el option \<Rightarrow> page \<Rightarrow> el option" where
  "closest sel _ None pg = None"
| "closest sel 0 (Some n) pg = (if sel n then Some n else None)"
| "closest sel (Suc k) (Some n) pg = (if sel n then Some n else closest sel k (parentElement pg n) pg)"

text \<open>The elements the three selectors of the handler match.\<close>

record scroll_areas =
  xtermViewport :: "el \<Rightarrow> bool"
  mobileToolbar :: "el \<Rightarrow> bool"
  fullscreenButton :: "el \<Rightarrow> bool"

text \<open>Whether the handler prevents the default; a target that is no element is \<open>None\<close>.\<close>

definition preventPageScrollHandler :: "scroll_areas \<Rightarrow> page \<Rightarrow> el option \<Rightarrow> bool" where
  "preventPageScrollHandler a pg target =
     (case target of
        None \<Rightarrow> True
      | Some t \<Rightarrow>
          if closest (xtermViewport a) (dom_size pg) (Some t) pg \<noteq> None
             \<or> closest (mobileToolbar a) (dom_size pg) (Some t) pg \<noteq> None
             \<or> closest (fullscreenButton a) (dom_size pg) (Some t) pg \<noteq> None
          then False else True)"

text \<open>A wheel or touch event on the window, which reaches the handler only while it is installed.\<close>

definition scroll_prevented :: "scroll_areas \<Rightarrow> page \<Rightarrow> el option \<Rightarrow> bool" where
  "scroll_prevented a pg target \<longleftrightarrow> scrollHandlers pg \<and> preventPageScrollHandler a pg target"

section \<open>Lemmas\<close>

fun lineage :: "nat \<Rightarrow> el option \<Rightarrow> page \<Rightarrow> el list" where
  "lineage _ None pg = []"
| "lineage 0 (Some n) pg = [n]"
| "lineage (Suc k) (Some n) pg = n # lineage k (parentElement pg n) pg"

lemma closest_find: "closest sel k n pg = find sel (lineage k n pg)"
  by (induction sel k n pg rule: closest.induct) simp_all

lemma closest_main_closest: "closest_main k n pg = closest (isMain pg) k n pg"
  by (induction k n pg rule: closest_main.induct) simp_all

text \<open>The handler lets an event through exactly when its target lies in one of the three areas.\<close>

lemma handler_areas:
  "preventPageScrollHandler a pg (Some t) \<longleftrightarrow>
     (\<forall>n\<in>set (lineage (dom_size pg) (Some t) pg). \<not> xtermViewport a n \<and> \<not> mobileToolbar a n \<and> \<not> fullscreenButton a n)"
  by (auto simp: preventPageScrollHandler_def closest_find find_None_iff)

section \<open>Installed while locked\<close>

definition handlers_ok :: "fullscreen_state \<Rightarrow> bool" where
  "handlers_ok s \<longleftrightarrow> scrollHandlers (page s) = pageScrollLocked s"

lemma handlers_moved [simp]:
  "scrollHandlers (move_to h e pg) = scrollHandlers pg" "scrollHandlers (on_style e f pg) = scrollHandlers pg"
  "scrollHandlers (on_wrapper f pg) = scrollHandlers pg" "scrollHandlers (clear_wrapper_size pg) = scrollHandlers pg"
  by (simp_all add: move_to_def on_style_def on_wrapper_def clear_wrapper_size_def split: option.split)

lemma handlers_salvage [simp]: "scrollHandlers (salvageStrayFullscreenNodes pg) = scrollHandlers pg"
  by (rule salvage_frame) simp

lemma handlers_restored [simp]: "scrollHandlers (restore_patches ps pg) = scrollHandlers pg"
  unfolding restore_patches_def by (rule fold_same) (simp split: prod.split)

lemma handlers_loop: "scrollHandlers (fst (patch_loop k n pg ps)) = scrollHandlers pg"
  by (induction k n pg ps rule: patch_loop.induct) simp_all

lemma handlers_restoreAncestors: "handlers_ok (restoreAncestorsAfterFullscreen s) = handlers_ok s"
  by (simp add: handlers_ok_def restoreAncestorsAfterFullscreen_def split: option.split)

lemma handlers_patch: "handlers_ok s \<Longrightarrow> handlers_ok (patchAncestorsForFullscreen b w s)"
proof -
  assume ok: "handlers_ok s"
  let ?s = "restoreAncestorsAfterFullscreen s"
  obtain pg ps where l: "patch_loop (dom_size (page ?s)) (parentElement (page ?s) w) (page ?s) [] = (pg, ps)" by fastforce
  then have "scrollHandlers pg = pageScrollLocked ?s"
    using handlers_loop [of "dom_size (page ?s)" "parentElement (page ?s) w" "page ?s" "[]"] ok
      handlers_restoreAncestors [of s] by (simp add: handlers_ok_def)
  with l show ?thesis by (simp add: patchAncestorsForFullscreen_def handlers_ok_def Let_def split: option.split)
qed

lemma handlers_lock: "handlers_ok s \<Longrightarrow> handlers_ok (lockPageScroll b s)"
  by (simp add: lockPageScroll_def handlers_ok_def Let_def)

lemma handlers_unlock: "handlers_ok s \<Longrightarrow> handlers_ok (unlockPageScroll s)"
  by (simp add: unlockPageScroll_def handlers_ok_def Let_def split: prod.split)

lemma handlers_keyboard: "handlers_ok s \<Longrightarrow> handlers_ok (updateKeyboardInset b s)"
  by (simp add: handlers_ok_def updateKeyboardInset_def syncFullscreenShellWithKeyboard_def measureKeyboard_def Let_def
      split: option.split)

lemma handlers_enter: "handlers_ok s \<Longrightarrow> handlers_ok (enterFullscreen b s)"
proof -
  assume ok: "handlers_ok s"
  have "handlers_ok (lockPageScroll b (patchAncestorsForFullscreen b w (s\<lparr>page := salvageStrayFullscreenNodes (page s)\<rparr>)))" for w
    by (intro handlers_lock handlers_patch) (use ok in \<open>simp add: handlers_ok_def\<close>)
  with ok show ?thesis
    by (auto simp: enterFullscreen_def Let_def split: option.split intro!: handlers_keyboard) (simp add: handlers_ok_def)
qed

lemma handlers_exit: "handlers_ok s \<Longrightarrow> handlers_ok (exitFullscreen b s)"
proof -
  assume "handlers_ok s"
  then have "handlers_ok (unlockPageScroll (restoreAncestorsAfterFullscreen s))"
    by (intro handlers_unlock) (simp add: handlers_restoreAncestors)
  then show ?thesis
    unfolding exitFullscreen_def Let_def by (intro handlers_keyboard) (simp add: handlers_ok_def)
qed

end
