(* ===== verification/FullscreenSafety.thy ===== *)
theory FullscreenSafety
  imports ScrollLock ClientClaims
begin

text \<open>
  The fullscreen mode over whole histories of the terminal component (resources/js/terminal.js): the
  page scroll is locked and its handlers are installed exactly while the terminal is in fullscreen,
  whatever events end it: the button, a closed socket, a finished shell or the cleanup of the page.
\<close>

section \<open>The fullscreen fields\<close>

definition shell_ok :: "fullscreen_state \<Rightarrow> bool" where
  "shell_ok f \<longleftrightarrow> pageScrollLocked f = fullscreen f \<and> scrollHandlers (page f) = fullscreen f"

lemma shell_handlers: "shell_ok f \<longleftrightarrow> handlers_ok f \<and> pageScrollLocked f = fullscreen f"
  by (auto simp: shell_ok_def handlers_ok_def)

lemma restoreAncestors_flags [simp]:
  "fullscreen (restoreAncestorsAfterFullscreen f) = fullscreen f"
  "pageScrollLocked (restoreAncestorsAfterFullscreen f) = pageScrollLocked f"
  by (simp_all add: restoreAncestorsAfterFullscreen_def split: option.split)

lemma patch_flags [simp]:
  "fullscreen (patchAncestorsForFullscreen b w f) = fullscreen f"
  "pageScrollLocked (patchAncestorsForFullscreen b w f) = pageScrollLocked f"
  by (simp_all add: patchAncestorsForFullscreen_def Let_def split_beta split: option.split)

lemma lock_flags [simp]: "pageScrollLocked (lockPageScroll b f)" "\<not> pageScrollLocked (unlockPageScroll f)"
  by (simp_all add: lockPageScroll_def unlockPageScroll_def Let_def split_beta)

lemma keyboard_flags [simp]:
  "fullscreen (updateKeyboardInset b f) = fullscreen f" "pageScrollLocked (updateKeyboardInset b f) = pageScrollLocked f"
  by (simp_all add: updateKeyboardInset_def syncFullscreenShellWithKeyboard_def measureKeyboard_def Let_def split: option.split)

lemma shell_enter: "shell_ok f \<Longrightarrow> shell_ok (enterFullscreen b f)"
proof (cases "terminalWrapper (page f) = None \<or> fullscreen f")
  case False
  then have "fullscreen (enterFullscreen b f) \<and> pageScrollLocked (enterFullscreen b f)"
    by (auto simp: enterFullscreen_def Let_def)
  then show "shell_ok f \<Longrightarrow> ?thesis" by (simp add: shell_handlers handlers_enter)
qed (auto simp: enterFullscreen_def split: option.split)

lemma shell_exit: "shell_ok f \<Longrightarrow> shell_ok (exitFullscreen b f) \<and> \<not> fullscreen (exitFullscreen b f)"
  by (auto simp: shell_handlers handlers_exit) (auto simp: exitFullscreen_def Let_def)

lemma shell_keyboard: "shell_ok f \<Longrightarrow> shell_ok (updateKeyboardInset b f)"
  by (simp add: shell_handlers handlers_keyboard)

lemma shell_page: "shell_ok f \<Longrightarrow> scrollHandlers pg = scrollHandlers (page f) \<Longrightarrow> shell_ok (f\<lparr>page := pg\<rparr>)"
  by (simp add: shell_ok_def)

lemma unlock_idle: "\<not> pageScrollLocked f \<Longrightarrow> unlockPageScroll f = f"
  by (simp add: unlockPageScroll_def)

lemma enter_fullscreen: "terminalWrapper (page f) \<noteq> None \<Longrightarrow> fullscreen (enterFullscreen b f)"
  by (auto simp: enterFullscreen_def Let_def)

section \<open>The component\<close>

text \<open>Most of the component does not touch the fields.\<close>

interpretation shell_fields: session_fields "\<lambda>t. fs t = f" for f
  by unfold_locales (simp_all add: effect_def clearSessionStartTimeout_def split: option.split)

lemma fs_fail [simp]: "fs (failTerminalConnection m o' s) = fs s"
  by (rule shell_fields.keeps_fail) simp

lemma fs_frame [simp]:
  "fs (sendMessage m s) = fs s" "fs (arm k (\<lambda>i s. s\<lparr>keepAliveInterval := i\<rparr>) s) = fs s" "fs (once k s) = fs s"
  "fs (clearAllTimers s) = fs s" "fs (resetTerminalSessionCountdown s) = fs s" "fs (closeSocket why s) = fs s"
  "fs (clearSessionStartTimeout s) = fs s" "fs (later tk s) = fs s" "fs (effect es s) = fs s"
  "fs (updateTerminalSessionCountdown v s) = fs s" "fs (resetPingTimeout s) = fs s"
  by (simp_all add: sendMessage_def arm_eq once_def clearAllTimers_def resetTerminalSessionCountdown_def closeSocket_def
      clearSessionStartTimeout_def later_def effect_def updateTerminalSessionCountdown_def resetPingTimeout_def split: option.split)

lemma fs_ops [simp]:
  "fs (resizeTerminal v s) = fs s" "fs (scheduleReconnect v s) = fs s" "fs (startTerminalSessionCountdown v s) = fs s"
  "fs (pingTimedOut s) = fs s" "fs (connectTimedOut s) = fs s" "fs (handleSocketError s) = fs s" "fs (focusWhenReady s) = fs s"
  "fs (resetTerminal s) = fs s" "fs (flowControlCallback s) = fs s" "fs (on_rejection r t s) = fs s"
  "fs (write_output v d s) = fs s" "fs (sendTerminalInput x s) = fs s" "fs (sendCommandWhenReady m s) = fs s"
  by (simp_all add: resizeTerminal_def Let_def scheduleReconnect_def arm_eq startTerminalSessionCountdown_def pingTimedOut_def
      connectTimedOut_def handleSocketError_def focusWhenReady_def resetTerminal_def flowControlCallback_def on_rejection_def
      write_output_def sendTerminalInput_def sendCommandWhenReady_def split: option.split prod.split)

lemma fs_connect [simp]:
  "fs (initializeWebSocket v s) = fs s" "fs (ensureWebSocketConnection v s) = fs s" "fs (reconnectFires v s) = fs s"
  "fs (keepAlive v s) = fs s" "fs (handleVisibilityChange v s) = fs s" "fs (handleSocketOpen v s) = fs s"
  by (simp_all add: initializeWebSocket_def handleConnectionError_def Let_def arm_eq ensureWebSocketConnection_def
      reconnectFires_def keepAlive_def handleVisibilityChange_def handleSocketOpen_def split: option.split)

interpretation shell_host: session_host "\<lambda>t. fs t = f" "\<lambda>_. True" ensureWebSocketConnection for f
  by unfold_locales (simp_all add: armTerminalSessionStartTimeout_def Let_def split_beta)

lemma fs_session [simp]:
  "fs (beginTerminalSessionStart (ensureWebSocketConnection v) s) = fs s" "fs (completeTerminalSessionStart s) = fs s"
  "fs (failTerminalSessionStart m s) = fs s" "fs (cancelTerminalAutoStart s) = fs s" "fs (sessionStartTimedOut s) = fs s"
  by (rule shell_host.keeps_begin shell_fields.keeps_complete shell_fields.keeps_failStart shell_fields.keeps_cancel
      shell_fields.keeps_timedOut; simp)+

lemma fs_exit [simp]: "fs (client_exitFullscreen v s) = exitFullscreen (window v) (fs s)"
  by (simp add: client_exitFullscreen_def)

lemma fs_ptyReady [simp]: "fs (on_pty_ready v s) = fs s"
  by (auto simp: on_pty_ready_def Let_def split: option.split)

lemma fs_unprocessable [simp]: "fs (on_unprocessable s) = fs s"
  by (auto simp: on_unprocessable_def Let_def split: option.split)

lemma shell_ptyExited: "shell_ok (fs s) \<Longrightarrow> shell_ok (fs (on_pty_exited v s))"
  by (auto simp: on_pty_exited_def Let_def shell_exit split: option.split)

lemma shell_message: "shell_ok (fs s) \<Longrightarrow> shell_ok (fs (handleSocketMessage v d s))"
  by (auto simp: handleSocketMessage_def shell_ptyExited split: ws_data.split option.split)

lemma shell_close: "shell_ok (fs s) \<Longrightarrow> shell_ok (fs (handleSocketClose v c s))"
  by (simp add: handleSocketClose_def Let_def shell_exit split: option.split)

lemma shell_inset: "shell_ok (fs s) \<Longrightarrow> shell_ok (fs (updateInset v s))"
  by (simp add: updateInset_def Let_def shell_keyboard)

lemma shell_tick: "shell_ok (fs s) \<Longrightarrow> shell_ok (fs (run_tick v k s))"
  by (auto simp: run_tick_def Let_def shell_page split: tick.split)

lemma shell_timer: "shell_ok (fs s) \<Longrightarrow> shell_ok (fs (run_timer v k s))"
  by (simp add: run_timer_def shell_inset split: client_timer.split)

lemma shell_cleanup: "shell_ok (fs s) \<Longrightarrow> shell_ok (fs (cleanup v s))"
  using shell_exit [of "fs s" "window v"]
  by (simp add: cleanup_def Let_def checkIfProcessIsRunningAndKillIt_def unlock_idle shell_ok_def)

lemma shell_step: "shell_ok (fs s) \<Longrightarrow> shell_ok (fs (client_step s e))"
proof (cases e)
  case (TimerFires v i)
  assume "shell_ok (fs s)"
  with TimerFires shell_timer [of s] shell_timer [of "s\<lparr>timers := clear_timer i (timers s)\<rparr>"] show ?thesis
    by (simp split: option.split)
next
  case (NextTick v)
  assume "shell_ok (fs s)"
  then have "shell_ok (fs (run_tick v k (s\<lparr>ticks := ks\<rparr>)))" for k ks by (intro shell_tick) simp
  with NextTick \<open>shell_ok (fs s)\<close> show ?thesis by (simp split: list.split)
next
  case (SocketClosed v i failed c)
  assume "shell_ok (fs s)"
  with SocketClosed show ?thesis by (auto simp: Let_def intro!: shell_close)
next
  case (FullscreenButton v)
  assume "shell_ok (fs s)"
  with FullscreenButton shell_enter shell_exit show ?thesis
    by (simp add: client_makeFullscreen_def client_enterFullscreen_def)
qed (simp_all add: shell_message shell_inset shell_cleanup onTerminalToken_def syncKeyboardInset_def Let_def arm_eq
    watchTerminalActive_def onWrapperResized_def on_term_data_def on_custom_key_def sendTerminalControl_def
    toggleTerminalModifier_def sendTerminalKey_def pasteFromClipboard_def copyTerminalSelection_def destroy_def
    split: option.split clipboard.split)

lemma shell_run: "shell_ok (fs s) \<Longrightarrow> shell_ok (fs (run client_step s es))"
  by (induction es arbitrary: s) (simp_all add: shell_step)

lemma shell_start: "client_start s \<Longrightarrow> \<not> scrollHandlers (page (fs s)) \<Longrightarrow> shell_ok (fs s)"
proof -
  assume "client_start s" and h: "\<not> scrollHandlers (page (fs s))"
  then obtain v a el ob pg th where s: "s = client_init v a el ob (terminalData pg th)"
    unfolding client_start_def by blast
  have "\<not> fullscreen (fs s) \<and> \<not> pageScrollLocked (fs s)"
    by (simp add: s client_init_def Let_def setupTerminal_def updateInset_def terminalData_def fullscreen_start_def
        armTerminalSessionStartTimeout_def split_beta)
  with h show ?thesis by (simp add: shell_ok_def)
qed

section \<open>Claims\<close>

text \<open>C31: Scrolling the page is blocked exactly in fullscreen. In every history of the component that
  starts on a page without handlers, a wheel or touch event on the page is prevented if and only if the
  terminal is in fullscreen and the event's target lies neither in the terminal's own viewport nor in
  the mobile toolbar nor in the fullscreen button; so no way of leaving fullscreen leaves the page stuck.\<close>

theorem fullscreen_blocks_scroll:
  assumes "client_start s" "\<not> scrollHandlers (page (fs s))" and t: "t = run client_step s es"
  shows "scroll_prevented a (page (fs t)) target \<longleftrightarrow>
    fullscreen (fs t) \<and> (case target of None \<Rightarrow> True | Some n \<Rightarrow>
      list_all (\<lambda>e. \<not> xtermViewport a e \<and> \<not> mobileToolbar a e \<and> \<not> fullscreenButton a e)
        (lineage (dom_size (page (fs t))) (Some n) (page (fs t))))"
proof -
  have "shell_ok (fs t)" unfolding t by (rule shell_run [OF shell_start [OF assms(1,2)]])
  then show ?thesis
    by (cases target) (simp_all add: scroll_prevented_def shell_ok_def preventPageScrollHandler_def [of a _ None]
        handler_areas list_all_iff)
qed

text \<open>On a small page whose terminal is in fullscreen, a wheel over the main element does nothing and one
  over the terminal scrolls it.\<close>

definition sample_areas :: scroll_areas where
  "sample_areas = \<lparr>xtermViewport = (\<lambda>e. e = 3), mobileToolbar = (\<lambda>_. False), fullscreenButton = (\<lambda>_. False)\<rparr>"

lemma sample_fs: "fs sample_client = updateKeyboardInset sample_browser (fullscreen_start sample_page)"
  by (simp add: sample_client_eq sample_calm_def)

lemma sample_handlers: "\<not> scrollHandlers (page (fs sample_client))"
  using handlers_keyboard [of "fullscreen_start sample_page" sample_browser]
  by (simp add: sample_fs handlers_ok_def) (simp add: fullscreen_start_def sample_page_def handlers_ok_def)

theorem fullscreen_blocks_scroll_witness:
  "scroll_prevented sample_areas (page (fs (client_step sample_client (FullscreenButton sample_env)))) None
    \<and> \<not> scroll_prevented sample_areas (page (fs sample_client)) None"
proof -
  let ?t = "client_step sample_client (FullscreenButton sample_env)"
  have w: "terminalWrapper (page (fs sample_client)) \<noteq> None" "\<not> fullscreen (fs sample_client)"
    by (simp_all add: sample_fs) (simp_all add: fullscreen_start_def sample_page_def)
  then have "fs ?t = enterFullscreen (window sample_env) (fs sample_client)"
    by (auto simp: client_makeFullscreen_def client_enterFullscreen_def)
  with enter_fullscreen [OF w(1)] have on: "fullscreen (fs ?t)" by simp
  have "?t = run client_step sample_client [FullscreenButton sample_env]" by simp
  from fullscreen_blocks_scroll [OF sample_client_start sample_handlers this, of sample_areas None] on
    fullscreen_blocks_scroll [OF sample_client_start sample_handlers, of sample_client "[]" sample_areas None] w(2)
  show ?thesis by simp
qed

end
