(* ===== verification/ViteConfig.thy ===== *)
theory ViteConfig
  imports JSPrelude
begin

text \<open>
  The configuration of the development server, vite.config.js: a function of two environments, the
  variables of the process and those of the environment files, which \<open>loadEnv\<close> of the bundler reads.
  \<open>js_number\<close> is \<open>Number\<close> on strings, \<open>None\<close> for NaN.
\<close>

section \<open>The configuration\<close>

record hmr_options =
  hmr_host :: string
  hmr_clientPort :: "nat option"
  hmr_protocol :: string

record vite_server =
  watch_ignored :: "string list"
  listen_host :: string
  listen_port :: "nat option"
  strictPort :: bool
  allowedHosts :: bool
  cors :: bool
  origin :: string
  hmr :: hmr_options

record vite_config =
  dev_server :: vite_server
  laravel_input :: "string list"
  laravel_refresh :: bool

text \<open>\<open>process.env.X || env.X\<close>\<close>

definition setting :: "(string \<Rightarrow> string option) \<Rightarrow> (string \<Rightarrow> string option) \<Rightarrow> string \<Rightarrow> string option" where
  "setting processEnv env x =
     (if truthy (processEnv x) then processEnv x else if truthy (env x) then env x else None)"

definition text_setting :: "(string \<Rightarrow> string option) \<Rightarrow> (string \<Rightarrow> string option) \<Rightarrow> string \<Rightarrow> string \<Rightarrow> string" where
  "text_setting processEnv env x dflt = js_trim (case setting processEnv env x of None \<Rightarrow> dflt | Some v \<Rightarrow> v)"

definition viteHost :: "(string \<Rightarrow> string option) \<Rightarrow> (string \<Rightarrow> string option) \<Rightarrow> string" where
  "viteHost p e = text_setting p e ''VITE_HOST'' ''localhost''"

definition viteHmrHost :: "(string \<Rightarrow> string option) \<Rightarrow> (string \<Rightarrow> string option) \<Rightarrow> string" where
  "viteHmrHost p e = text_setting p e ''VITE_HMR_HOST'' (viteHost p e)"

definition vitePort ::
    "(string \<Rightarrow> nat option) \<Rightarrow> (string \<Rightarrow> string option) \<Rightarrow> (string \<Rightarrow> string option) \<Rightarrow> nat option" where
  "vitePort js_number p e = (case setting p e ''VITE_PORT'' of None \<Rightarrow> Some 5173 | Some v \<Rightarrow> js_number v)"

definition viteProtocol :: "(string \<Rightarrow> string option) \<Rightarrow> (string \<Rightarrow> string option) \<Rightarrow> string" where
  "viteProtocol p e = text_setting p e ''VITE_PROTOCOL'' ''http''"

definition number_text :: "nat option \<Rightarrow> string" where
  "number_text n = (case n of None \<Rightarrow> ''NaN'' | Some k \<Rightarrow> nat_to_string k)"

definition defineConfig ::
    "(string \<Rightarrow> nat option) \<Rightarrow> (string \<Rightarrow> string option) \<Rightarrow> (string \<Rightarrow> string option) \<Rightarrow> vite_config" where
  "defineConfig js_number p e =
     \<lparr>dev_server =
        \<lparr>watch_ignored = [''**/dev_*_data/**'', ''**/storage/**'', ''**/vendor/**''],
         listen_host = ''0.0.0.0'', listen_port = vitePort js_number p e, strictPort = True, allowedHosts = True, cors = True,
         origin = viteProtocol p e @ ''://'' @ viteHost p e @ '':'' @ number_text (vitePort js_number p e),
         hmr = \<lparr>hmr_host = viteHmrHost p e, hmr_clientPort = vitePort js_number p e,
                 hmr_protocol = (if viteProtocol p e = ''https'' then ''wss'' else ''ws'')\<rparr>\<rparr>,
      laravel_input = [''resources/css/app.css'', ''resources/js/app.js''], laravel_refresh = True\<rparr>"

section \<open>Lemmas\<close>

text \<open>Without settings the server is the local one; a variable of the process overrides the files.\<close>

lemma port_5173: "nat_to_string 5173 = ''5173''"
  by (simp add: nat_to_string.simps [of 5173] nat_to_string.simps [of 517] nat_to_string.simps [of 51]
      nat_to_string.simps [of 5] char_of_def bit_0)

lemma config_default:
  "origin (dev_server (defineConfig num (\<lambda>_. None) (\<lambda>_. None))) = ''http://localhost:5173''"
  "hmr (dev_server (defineConfig num (\<lambda>_. None) (\<lambda>_. None))) =
     \<lparr>hmr_host = ''localhost'', hmr_clientPort = Some 5173, hmr_protocol = ''ws''\<rparr>"
  by (simp_all add: defineConfig_def viteHost_def viteHmrHost_def vitePort_def viteProtocol_def text_setting_def setting_def
      truthy_def number_text_def js_trim_def is_ws_def code_def char_of_def port_5173)

lemma setting_override: "truthy (p x) \<Longrightarrow> setting p e x = p x"
  by (simp add: setting_def)

lemma config_override: "list_all (\<lambda>x. truthy (p x)) [''VITE_HOST'', ''VITE_HMR_HOST'', ''VITE_PORT'', ''VITE_PROTOCOL''] \<Longrightarrow>
    defineConfig num p e = defineConfig num p e'"
  by (simp add: defineConfig_def viteHost_def viteHmrHost_def vitePort_def viteProtocol_def text_setting_def setting_override)

text \<open>Hot updates use the port of the pages, the secure scheme exactly when the pages do, and the host of the
  pages unless they have one of their own.\<close>

lemma config_consistent:
  fixes num p e
  defines "s \<equiv> dev_server (defineConfig num p e)"
  shows "hmr_clientPort (hmr s) = listen_port s"
    and "hmr_protocol (hmr s) = ''wss'' \<longleftrightarrow> origin s = ''https://'' @ viteHost p e @ '':'' @ number_text (listen_port s)"
    and "setting p e ''VITE_HMR_HOST'' = None \<Longrightarrow> hmr_host (hmr s) = js_trim (viteHost p e)"
proof -
  have "x @ ''://'' @ y = ''https://'' @ y \<longleftrightarrow> x = ''https''" for x y :: string
    using append_same_eq [of x "''://'' @ y" "''https''"] by simp
  from this [of "viteProtocol p e" "viteHost p e @ '':'' @ number_text (listen_port s)"]
  show "hmr_protocol (hmr s) = ''wss'' \<longleftrightarrow> origin s = ''https://'' @ viteHost p e @ '':'' @ number_text (listen_port s)"
    by (simp add: s_def defineConfig_def)
qed (simp_all add: s_def defineConfig_def viteHmrHost_def text_setting_def)

end
