(* ===== verification/RejectionFixture.thy ===== *)
theory RejectionFixture
  imports TerminalConnection UpgradeAuth "HOL-Library.Word"
begin

text \<open>
  The stand-in for the terminal server that the browser tests run
  (tests/Fixtures/terminal-websocket-rejection-server.mjs), down to the bytes of the WebSocket frames it
  writes: that they are well formed, and that the terminal component takes them for the rejections of the
  real server. The digest of the handshake is a function of node:crypto and a parameter.
\<close>

section \<open>Frames\<close>

type_synonym byte = "8 word"

text \<open>\<open>Buffer.from\<close> and \<open>Buffer.byteLength\<close> encode text as UTF-8; a Latin-1 character takes one byte
  or two.\<close>

definition utf8_char :: "char \<Rightarrow> byte list" where
  "utf8_char c =
     (if code c < 128 then [of_nat (code c)]
      else [or 0xC0 (of_nat (code c div 64)), or 0x80 (of_nat (code c mod 64))])"

definition utf8 :: "string \<Rightarrow> byte list" where
  "utf8 s = concat (map utf8_char s)"

definition frame :: "byte \<Rightarrow> byte list \<Rightarrow> string + byte list" where
  "frame opcode payload =
     (if length payload > 125 then Inl ''Fixture only supports short frames.''
      else Inr ([or 0x80 opcode, of_nat (length payload)] @ payload))"

text \<open>\<open>writeUInt16BE\<close> throws when the number needs more than two bytes.\<close>

definition closeFrame :: "nat \<Rightarrow> string \<Rightarrow> string + byte list" where
  "closeFrame wsCode why =
     (if 65535 < wsCode then Inl ''ERR_OUT_OF_RANGE''
      else frame 0x8 ([of_nat (wsCode div 256), of_nat (wsCode mod 256)] @ utf8 why))"

section \<open>The server\<close>

datatype fixture_effect =
    Respond nat "(string \<times> string) list" string
  | SocketWrite nat "byte list"
  | SocketEnd nat "byte list"
  | SocketDestroy nat
  | PrintPort nat
  | ThrowError string

record fixture =
  mode :: string
  upgrades :: nat
  waitingData :: "nat list"
  fixtureFx :: "fixture_effect list"

definition fixture_start :: "string option \<Rightarrow> fixture" where
  "fixture_start arg =
     \<lparr>mode = (case arg of None \<Rightarrow> ''close-on-upgrade'' | Some m \<Rightarrow> m), upgrades = 0, waitingData = [], fixtureFx = []\<rparr>"

definition fixture_emit :: "fixture_effect list \<Rightarrow> fixture \<Rightarrow> fixture" where
  "fixture_emit es s = s\<lparr>fixtureFx := fixtureFx s @ es\<rparr>"

definition handshake :: "string \<Rightarrow> string" where
  "handshake accept = js_join [cr, lf]
     [''HTTP/1.1 101 Switching Protocols'', ''Upgrade: websocket'', ''Connection: Upgrade'',
      ''Sec-WebSocket-Accept: '' @ accept, [], []]"

text \<open>Frames on a socket, in order; an error is thrown out of the callback and leaves the rest.\<close>

fun put_frames :: "((byte list \<Rightarrow> fixture_effect) \<times> (string + byte list)) list \<Rightarrow> fixture \<Rightarrow> fixture" where
  "put_frames [] s = s"
| "put_frames ((put, Inl e) # fs) s = fixture_emit [ThrowError e] s"
| "put_frames ((put, Inr bs) # fs) s = put_frames fs (fixture_emit [put bs] s)"

definition rejected_message :: string where
  "rejected_message = ''Unauthorized: Terminal token was rejected''"

text \<open>Sockets are numbered; the key is the header of the upgrade request. \<open>SocketFails\<close> and \<open>DataArrives\<close>
  are events of upgraded sockets.\<close>

datatype fixture_event =
    StatsRequest
  | UpgradeArrives nat "string option"
  | DataArrives nat
  | SocketFails nat
  | Listening nat

definition on_upgrade :: "(string \<Rightarrow> string) \<Rightarrow> nat \<Rightarrow> string option \<Rightarrow> fixture \<Rightarrow> fixture" where
  "on_upgrade digest n key s0 =
     (let accept = digest ((case key of None \<Rightarrow> ''undefined'' | Some k \<Rightarrow> k) @ ''258EAFA5-E914-47DA-95CA-C5AB0DC85B11'');
          s = fixture_emit [SocketWrite n (utf8 (handshake accept))] (s0\<lparr>upgrades := Suc (upgrades s0)\<rparr>)
      in if mode s = ''close-on-upgrade''
         then put_frames [(SocketEnd n, closeFrame 4401 ''Unauthorized: Invalid credentials'')] s
         else s\<lparr>waitingData := n # waitingData s\<rparr>)"

definition on_data :: "nat \<Rightarrow> fixture \<Rightarrow> fixture" where
  "on_data n s =
     (if n \<notin> set (waitingData s) then s
      else put_frames [(SocketWrite n, frame 0x1 (utf8 rejected_message)),
                       (SocketEnd n, closeFrame 4403 rejected_message)]
             (s\<lparr>waitingData := filter (\<lambda>m. m \<noteq> n) (waitingData s)\<rparr>))"

fun fixture_step :: "(string \<Rightarrow> string) \<Rightarrow> fixture \<Rightarrow> fixture_event \<Rightarrow> fixture" where
  "fixture_step digest s StatsRequest =
     fixture_emit [Respond 200 [(''Content-Type'', ''application/json''), (''Access-Control-Allow-Origin'', ''*'')]
       (js_stringify (JObj [(''upgrades'', JNum (int (upgrades s)))]))] s"
| "fixture_step digest s (UpgradeArrives n key) = on_upgrade digest n key s"
| "fixture_step digest s (DataArrives n) = on_data n s"
| "fixture_step digest s (SocketFails n) = fixture_emit [SocketDestroy n] s"
| "fixture_step digest s (Listening port') = fixture_emit [PrintPort port'] s"

section \<open>Reading frames\<close>

text \<open>How the other end reads an unmasked frame with a short payload: whether it is the last fragment, its
  opcode, its payload and the bytes behind it.\<close>

fun read_frame :: "byte list \<Rightarrow> (bool \<times> nat \<times> byte list \<times> byte list) option" where
  "read_frame (b0 # b1 # rest) =
     (if 125 < unat b1 \<or> length rest < unat b1 then None
      else Some (128 \<le> unat b0, unat b0 mod 16, take (unat b1) rest, drop (unat b1) rest))"
| "read_frame _ = None"

fun read_utf8 :: "byte list \<Rightarrow> string" where
  "read_utf8 [] = []"
| "read_utf8 [b] = [char_of (unat b)]"
| "read_utf8 (b # c # bs) =
     (if unat b < 128 then char_of (unat b) # read_utf8 (c # bs)
      else char_of (unat b mod 32 * 64 + unat c mod 64) # read_utf8 bs)"

fun read_close :: "byte list \<Rightarrow> (nat \<times> string) option" where
  "read_close (a # b # bs) = Some (unat a * 256 + unat b, read_utf8 bs)"
| "read_close _ = None"

lemma utf8_simps [simp]: "utf8 [] = []" "utf8 (c # s) = utf8_char c @ utf8 s"
  by (simp_all add: utf8_def)

lemma code_less: "code c < 256"
  by (simp add: code_def)

lemma char_code [simp]: "char_of (code c) = c"
  by (simp add: code_def)

text \<open>The high bit leaves the bits below it alone.\<close>

lemma high_bit: assumes "n < 64" shows "unat (or 0x80 (of_nat n) :: byte) = 128 + n"
proof -
  have "list_all (\<lambda>k. unat (or 0x80 (of_nat k) :: byte) = 128 + k) [0..<64]" by code_simp
  with assms show ?thesis by (simp add: list_all_iff)
qed

lemma lead_byte: assumes "n < 4" shows "unat (or 0xC0 (of_nat n) :: byte) = 192 + n"
proof -
  from assms consider "n = 0" | "n = 1" | "n = 2" | "n = 3" by linarith
  then show ?thesis by cases simp_all
qed

lemma byte_nat: "n < 256 \<Longrightarrow> unat (of_nat n :: byte) = n"
  by (simp add: unat_of_nat take_bit_eq_mod)

lemma read_ascii: "unat b < 128 \<Longrightarrow> read_utf8 (b # bs) = char_of (unat b) # read_utf8 bs"
  by (cases bs) simp_all

lemma low_bits: "k < n \<Longrightarrow> n dvd m \<Longrightarrow> (m + k) mod n = (k::nat)"
  by (auto simp: dvd_def)

lemma read_utf8_char: "read_utf8 (utf8_char c @ bs) = c # read_utf8 bs"
proof (cases "code c < 128")
  case True
  have "unat (of_nat (code c) :: byte) = code c" by (rule byte_nat [OF code_less])
  with True show ?thesis using read_ascii [of "of_nat (code c)" bs] by (simp add: utf8_char_def)
next
  case False
  let ?b = "or 0xC0 (of_nat (code c div 64)) :: byte" and ?d = "or 0x80 (of_nat (code c mod 64)) :: byte"
  have b: "unat ?b = 192 + code c div 64"
    by (rule lead_byte) (use code_less [of c] in linarith)
  have d: "unat ?d = 128 + code c mod 64" by (rule high_bit) simp
  have "unat ?b mod 32 = code c div 64"
    unfolding b by (rule low_bits) (use code_less [of c] in linarith, simp)
  moreover have "unat ?d mod 64 = code c mod 64"
    unfolding d by (rule low_bits) simp_all
  moreover have "\<not> unat ?b < 128" by (simp add: b)
  moreover have "utf8_char c @ bs = ?b # ?d # bs" using False by (simp add: utf8_char_def)
  ultimately have "read_utf8 (utf8_char c @ bs) = char_of (code c div 64 * 64 + code c mod 64) # read_utf8 bs"
    by (simp only: read_utf8.simps if_False)
  then show ?thesis by (simp only: div_mult_mod_eq char_code)
qed

lemma read_utf8_round_trip: "read_utf8 (utf8 s) = s"
  by (induction s) (simp_all add: read_utf8_char)

lemma length_utf8: "length (utf8 s) = utf8_length s"
  by (induction s) (simp_all add: utf8_length_def utf8_char_def)

lemma frame_fits: "frame opcode p = Inl e \<longleftrightarrow> e = ''Fixture only supports short frames.'' \<and> 125 < length p"
  by (auto simp: frame_def)

lemma read_frame_written:
  assumes "frame (of_nat k) p = Inr bs" "k < 16"
  shows "read_frame (bs @ rest) = Some (True, k, p, rest)"
proof -
  from assms(1) have l: "\<not> 125 < length p" and bs: "bs = [or 0x80 (of_nat k), of_nat (length p)] @ p"
    by (auto simp: frame_def split: if_splits)
  have "unat (or 0x80 (of_nat k) :: byte) = 128 + k" by (rule high_bit) (use assms(2) in simp)
  moreover have "unat (of_nat (length p) :: byte) = length p" by (rule byte_nat) (use l in simp)
  moreover have "(128 + k) mod 16 = k" by (rule low_bits) (use assms(2) in simp_all)
  ultimately show ?thesis using l by (simp add: bs)
qed

text \<open>A close frame gives back its code and its reason; it is refused exactly when the code needs more
  than two bytes or the reason more than 123.\<close>

lemma closeFrame_round_trip:
  assumes "c \<le> 65535" "utf8_length why \<le> 123"
  obtains bs p where "closeFrame c why = Inr bs" "read_frame (bs @ rest) = Some (True, 8, p, rest)"
    "read_close p = Some (c, why)"
proof -
  let ?p = "[of_nat (c div 256), of_nat (c mod 256)] @ utf8 why :: byte list"
  have "\<not> 125 < length ?p" using assms(2) by (simp add: length_utf8)
  then obtain bs where bs: "frame (of_nat 8) ?p = Inr bs" by (simp add: frame_def)
  have "unat (of_nat (c div 256) :: byte) = c div 256" "unat (of_nat (c mod 256) :: byte) = c mod 256"
    by (rule byte_nat; use assms(1) in linarith)+
  then have "read_close ?p = Some (c, why)" by (simp add: read_utf8_round_trip)
  moreover have "closeFrame c why = Inr bs" using bs assms(1) by (simp add: closeFrame_def)
  ultimately show thesis using that read_frame_written [OF bs] by simp
qed

lemma closeFrame_refused: "(\<exists>e. closeFrame c why = Inl e) \<longleftrightarrow> 65535 < c \<or> 123 < utf8_length why"
  by (auto simp: closeFrame_def frame_def length_utf8)

section \<open>What the terminal component makes of it\<close>

definition rejects_text :: "byte list \<Rightarrow> bool" where
  "rejects_text bs = (case read_frame bs of
      None \<Rightarrow> False
    | Some (fin, opcode, p, rest) \<Rightarrow>
        fin \<and> opcode = 1 \<and> rest = []
        \<and> classifyTerminalServerMessage (TextFrame (read_utf8 p)) = Some AuthRejectedMessage)"

definition rejects_close :: "byte list \<Rightarrow> bool" where
  "rejects_close bs = (case read_frame bs of
      None \<Rightarrow> False
    | Some (fin, opcode, p, rest) \<Rightarrow>
        fin \<and> opcode = 8 \<and> rest = []
        \<and> (case read_close p of
             None \<Rightarrow> False
           | Some (c, why) \<Rightarrow>
               (\<forall>pending n m. resolveTerminalCloseOutcome c pending n m
                  = \<lparr>out_authRejected = True, out_reconnect = False, out_error = Some err_authRejected\<rparr>)
               \<and> js_startsWith why ''Unauthorized: ''))"

fun rejecting :: "fixture_effect \<Rightarrow> bool" where
  "rejecting (SocketWrite n bs) \<longleftrightarrow> (\<exists>accept. bs = utf8 (handshake accept)) \<or> rejects_text bs"
| "rejecting (SocketEnd n bs) \<longleftrightarrow> rejects_close bs"
| "rejecting (ThrowError e) \<longleftrightarrow> False"
| "rejecting _ \<longleftrightarrow> True"

lemma rejecting_close:
  assumes "isTerminalAuthRejectionCode c" "utf8_length why \<le> 123" "js_startsWith why ''Unauthorized: ''"
  obtains bs where "closeFrame c why = Inr bs" "rejects_close bs"
proof -
  have "c \<le> 65535" using assms(1) by (auto simp: isTerminalAuthRejectionCode_def client_AUTH_REJECTED_def client_TOKEN_REJECTED_def)
  then show thesis
  proof (rule closeFrame_round_trip [OF _ assms(2), where rest = "[]"])
    fix bs p
    assume "closeFrame c why = Inr bs" and "read_frame (bs @ []) = Some (True, 8, p, [])" and "read_close p = Some (c, why)"
    with assms(1,3) show thesis
      by (intro that [of bs]) (simp_all add: rejects_close_def resolveTerminalCloseOutcome_def)
  qed
qed

lemma rejecting_frame:
  assumes "classifyTerminalServerMessage (TextFrame why) = Some AuthRejectedMessage" "utf8_length why \<le> 125"
  obtains bs where "frame 0x1 (utf8 why) = Inr bs" "rejects_text bs"
proof -
  obtain bs where bs: "frame (of_nat 1) (utf8 why) = Inr bs"
    using assms(2) by (simp add: frame_def length_utf8)
  have "rejects_text bs"
    using read_frame_written [OF bs, of "[]"] assms(1) by (simp add: rejects_text_def read_utf8_round_trip)
  with bs show thesis by (intro that [of bs]) simp_all
qed

lemma fixture_emit_fx [simp]: "fixtureFx (fixture_emit es s) = fixtureFx s @ es"
  by (simp add: fixture_emit_def)

lemma fixture_emit_sel [simp]:
  "upgrades (fixture_emit es s) = upgrades s" "mode (fixture_emit es s) = mode s"
  "waitingData (fixture_emit es s) = waitingData s"
  by (simp_all add: fixture_emit_def)

lemma put_frames_sel [simp]:
  "upgrades (put_frames fs s) = upgrades s" "mode (put_frames fs s) = mode s"
  "waitingData (put_frames fs s) = waitingData s"
  by (induction fs s rule: put_frames.induct) simp_all

lemma on_upgrade_log: "\<exists>os. fixtureFx (on_upgrade digest n key s) = fixtureFx s @ os \<and> list_all rejecting os"
proof -
  have "isTerminalAuthRejectionCode 4401" by (simp add: isTerminalAuthRejectionCode_def client_AUTH_REJECTED_def)
  then obtain bs where "closeFrame 4401 ''Unauthorized: Invalid credentials'' = Inr bs" "rejects_close bs"
  proof (rule rejecting_close)
    show "utf8_length ''Unauthorized: Invalid credentials'' \<le> 123" by (simp add: utf8_length_def code_def)
    show "js_startsWith ''Unauthorized: Invalid credentials'' ''Unauthorized: ''" by (simp add: js_startsWith_def)
  qed
  then show ?thesis by (auto simp: on_upgrade_def Let_def)
qed

lemma on_data_log: "\<exists>os. fixtureFx (on_data n s) = fixtureFx s @ os \<and> list_all rejecting os"
proof -
  have l: "utf8_length rejected_message \<le> 123" by (simp add: utf8_length_def rejected_message_def code_def)
  have "isTerminalAuthRejectionCode 4403" by (simp add: isTerminalAuthRejectionCode_def client_TOKEN_REJECTED_def)
  then obtain bs where "closeFrame 4403 rejected_message = Inr bs" "rejects_close bs"
    by (rule rejecting_close [OF _ l]) (simp add: js_startsWith_def rejected_message_def)
  moreover have "classifyTerminalServerMessage (TextFrame rejected_message) = Some AuthRejectedMessage"
    by (simp add: classifyTerminalServerMessage_def AUTH_REJECTION_MESSAGES_def rejected_message_def)
  then obtain cs where "frame 0x1 (utf8 rejected_message) = Inr cs" "rejects_text cs"
    by (rule rejecting_frame) (use l in simp)
  ultimately show ?thesis by (auto simp: on_data_def Let_def)
qed

lemma fixture_step_log: "\<exists>os. fixtureFx (fixture_step digest s e) = fixtureFx s @ os \<and> list_all rejecting os"
  by (cases e) (simp_all add: on_upgrade_log on_data_log)

interpretation fixture_log: logging_machine "\<lambda>s. \<exists>arg. s = fixture_start arg" "\<lambda>_ _. True"
    "fixture_step digest" "\<lambda>_. True" fixtureFx rejecting for digest
  by unfold_locales (auto simp: fixture_start_def fixture_step_log)

fun is_upgrade :: "fixture_event \<Rightarrow> bool" where
  "is_upgrade (UpgradeArrives n key) = True"
| "is_upgrade _ = False"

lemma fixture_step_upgrades: "upgrades (fixture_step digest s e) = upgrades s + (if is_upgrade e then 1 else 0)"
  by (cases e) (simp_all add: on_upgrade_def on_data_def Let_def)

lemma upgrades_run: "upgrades (run (fixture_step digest) s es) = upgrades s + length (filter is_upgrade es)"
  by (induction es arbitrary: s) (simp_all add: fixture_step_upgrades)

text \<open>In every history of the stand-in, each frame it writes reads as a rejection: the text frame is
  classified as a rejected token, and every close frame carries a code on which the component gives up
  without reconnecting, with a reason that starts like the real server's; no callback throws. And
  \<open>/stats\<close> answers the number of upgrades that arrived.\<close>

theorem fixture_rejects_like_server:
  "list_all rejecting (fixtureFx (run (fixture_step digest) (fixture_start arg) es))
   \<and> fixtureFx (fixture_step digest (run (fixture_step digest) (fixture_start arg) es) StatsRequest)
     = fixtureFx (run (fixture_step digest) (fixture_start arg) es)
       @ [Respond 200 [(''Content-Type'', ''application/json''), (''Access-Control-Allow-Origin'', ''*'')]
           (js_stringify (JObj [(''upgrades'', JNum (int (length (filter is_upgrade es))))]))]"
proof
  show "list_all rejecting (fixtureFx (run (fixture_step digest) (fixture_start arg) es))"
    by (rule fixture_log.log_allowed) auto
  have "upgrades (run (fixture_step digest) (fixture_start arg) es) = length (filter is_upgrade es)"
    by (simp add: upgrades_run) (simp add: fixture_start_def)
  then show "fixtureFx (fixture_step digest (run (fixture_step digest) (fixture_start arg) es) StatsRequest)
     = fixtureFx (run (fixture_step digest) (fixture_start arg) es)
       @ [Respond 200 [(''Content-Type'', ''application/json''), (''Access-Control-Allow-Origin'', ''*'')]
           (js_stringify (JObj [(''upgrades'', JNum (int (length (filter is_upgrade es))))]))]"
    by simp
qed

end
