(* ===== verification/UnitTests.thy ===== *)
theory UnitTests
  imports ShellParse SshPolicy UpgradeAuth TerminalConnection LogText SubmitAction RequestFailure
begin

text \<open>
  The unit tests of the repository, as statements about the definitions. Each lemma is one test of
  terminal-utils.test.js, terminal-connection.test.js, terminal.test.js, runtime-logs.test.js,
  modal-confirmation.test.js or livewire-request-failure.test.js, with its inputs and the values it expects, evaluated by the kernel.
\<close>

section \<open>Terminal utilities\<close>

text \<open>The end of the command lines: the delimiter, the script and the delimiter again.\<close>

definition test_heredoc :: string where
  "test_heredoc = [bsl] @ ''$abc'' @ [lf] @ ''echo hi'' @ [lf] @ ''abc''"

definition test_options :: string where
  "test_options = ''-i /var/www/html/storage/app/ssh/keys/ssh_key@cm123 -o StrictHostKeyChecking=no -o UserKnownHostsFile=/dev/null -o PasswordAuthentication=no -o ConnectTimeout=10 -o ServerAliveInterval=20 -o RequestTTY=no -o LogLevel=ERROR ''"

definition test_args :: "string list" where
  "test_args = [''-i'', ''/var/www/html/storage/app/ssh/keys/ssh_key@cm123'', ''-o'', ''StrictHostKeyChecking=no'',
     ''-o'', ''UserKnownHostsFile=/dev/null'', ''-o'', ''PasswordAuthentication=no'', ''-o'', ''ConnectTimeout=10'',
     ''-o'', ''ServerAliveInterval=20'', ''-o'', ''RequestTTY=yes'', ''-o'', ''LogLevel=ERROR'', ''-p'', ''22'', ''root@10.0.0.5'']"

lemma getTerminalProcessEnv_tests:
  "getTerminalProcessEnv [''PATH'' \<mapsto> ''/usr/local/bin:/usr/bin:/bin'', ''APP_KEY'' \<mapsto> ''must-not-be-inherited'']
     = [(''PATH'', ''/usr/local/bin:/usr/bin:/bin'')]"
  "getTerminalProcessEnv [''APP_KEY'' \<mapsto> ''must-not-be-inherited'']
     = [(''PATH'', ''/usr/local/sbin:/usr/local/bin:/usr/sbin:/usr/bin:/sbin:/bin'')]"
  "getTerminalProcessEnv [''PATH'' \<mapsto> '''', ''APP_KEY'' \<mapsto> ''must-not-be-inherited'']
     = [(''PATH'', ''/usr/local/sbin:/usr/local/bin:/usr/sbin:/usr/bin:/sbin:/bin'')]"
  by (simp_all add: getTerminalProcessEnv_def DEFAULT_TERMINAL_PATH_def)

lemma quoted_target_test:
  "extractTargetHost (extractSshArgs (''timeout 3600 ssh -o StrictHostKeyChecking=no -o UserKnownHostsFile=/dev/null -o LogLevel=ERROR -o ServerAliveInterval=20 -o ConnectTimeout=10 'root'@'10.0.0.5' 'bash -se' << ''
     @ [bsl] @ test_heredoc)) = Some ''10.0.0.5''"
  by code_simp

lemma quoted_port_test:
  "take 5 (extractSshArgs (''timeout 3600 ssh -p '22' -o StrictHostKeyChecking=no 'root'@'10.0.0.5' 'bash -se' << '' @ [bsl] @ test_heredoc))
     = [''-p'', ''22'', ''-o'', ''StrictHostKeyChecking=no'', ''root@10.0.0.5'']"
  by code_simp

lemma proxy_command_test:
  "extractSshArgs (''timeout 3600 ssh -o ProxyCommand='cloudflared access ssh --hostname %h' -o StrictHostKeyChecking=no 'root'@'example.com' 'bash -se' << ''
     @ [bsl] @ test_heredoc)
   = [''-o'', ''ProxyCommand=cloudflared access ssh --hostname %h'', ''-o'', ''StrictHostKeyChecking=no'', ''root@example.com'',
      ''-o'', ''RequestTTY=yes'']"
  by code_simp

lemma shell_fallback_test:
  "extractTargetHost (extractSshArgs (''timeout 3600 ssh -o StrictHostKeyChecking=no 'root'@'10.0.0.5' 'if command -v bash >/dev/null 2>&1; then exec bash -se; else exec sh -se; fi' << ''
     @ [bsl] @ test_heredoc)) = Some ''10.0.0.5''"
  by code_simp

lemma isAuthorizedTargetHost_tests:
  "isAuthorizedTargetHost (Some ([sq] @ ''10.0.0.5'' @ [sq])) [''10.0.0.5'']"
  "isAuthorizedTargetHost (Some (dq # ''host.docker.internal'' @ [dq])) [''host.docker.internal'']"
  "normalizeHostForAuthorization (Some ([sq] @ ''[2001:db8::10]'' @ [sq])) = Some ''2001:db8::10''"
  "isAuthorizedTargetHost (Some ([sq] @ ''[2001:db8::10]'' @ [sq])) [''2001:db8::10'']"
  "\<not> isAuthorizedTargetHost (Some ([sq] @ ''10.0.0.9'' @ [sq])) [''10.0.0.5'']"
  by code_simp+

definition test_items :: "ssh_item list" where
  "test_items = [Identity ''/var/www/html/storage/app/ssh/keys/ssh_key@cm123'', Opt ''StrictHostKeyChecking'' ''no'',
     Opt ''UserKnownHostsFile'' ''/dev/null'', Opt ''PasswordAuthentication'' ''no'', Opt ''ConnectTimeout'' ''10'',
     Opt ''ServerAliveInterval'' ''20'', Opt ''RequestTTY'' ''yes'', Opt ''LogLevel'' ''ERROR'', Port ''22'']"

definition test_acc :: "string list \<Rightarrow> ssh_acc" where
  "test_acc seen = \<lparr>seenOptions = [''LogLevel'', ''RequestTTY'', ''ServerAliveInterval'', ''ConnectTimeout'',
     ''PasswordAuthentication'', ''UserKnownHostsFile'', ''StrictHostKeyChecking''] @ seen,
     hasIdentityFile = True, hasPort = True, targetHost = None\<rparr>"

lemma validate_loop_items:
  "admits a its = Some b \<Longrightarrow> validate_loop a (concat (map render its) @ rest) = validate_loop b rest"
  by (induction its arbitrary: a) (auto simp: validate_loop_render split: option.splits)

lemma test_items_ok: "list_all item_ok test_items"
  unfolding test_items_def
  by (simp add: is_identity_file_def prefixed_id_def js_startsWith_def char_eval is_port_def
      all_digits_def digits_val_def isAllowedSshOption_def fixedOptions_def has_control_def)

text \<open>The loop over all generated arguments but the last, after some other options.\<close>

lemma test_loop:
  assumes "set seen \<subseteq> {''ProxyCommand'', ''ControlMaster'', ''ControlPath'', ''ControlPersist''}"
  shows "validate_loop (ssh_acc0\<lparr>seenOptions := seen\<rparr>) (butlast test_args @ rest) = validate_loop (test_acc seen) rest"
proof -
  have "admits (ssh_acc0\<lparr>seenOptions := seen\<rparr>) test_items = Some (test_acc seen)"
    using assms test_items_ok by (auto simp: test_items_def test_acc_def ssh_acc0_def)
  moreover have "butlast test_args = concat (map render test_items)"
    by (simp add: test_args_def test_items_def)
  ultimately show ?thesis using validate_loop_items by metis
qed

definition accepted_after :: "ssh_acc \<Rightarrow> string list \<Rightarrow> string list \<Rightarrow> bool" where
  "accepted_after a rest hosts = (case validate_loop a rest of None \<Rightarrow> False | Some b \<Rightarrow> accepts_acc b hosts)"

lemma validate_test_args: "validateSshArgs (butlast test_args @ rest) hosts = accepted_after (test_acc []) rest hosts"
proof -
  have "ssh_acc0\<lparr>seenOptions := []\<rparr> = ssh_acc0" by (simp add: ssh_acc0_def)
  moreover have "butlast test_args \<noteq> []" by (simp add: test_args_def)
  ultimately show ?thesis using test_loop [of "[]" rest] by (simp add: validateSshArgs_def accepted_after_def)
qed

lemma validate_after_options:
  assumes "validate_loop ssh_acc0 (pre @ butlast test_args @ rest)
      = validate_loop (ssh_acc0\<lparr>seenOptions := seen\<rparr>) (butlast test_args @ rest)"
    and "set seen \<subseteq> {''ProxyCommand'', ''ControlMaster'', ''ControlPath'', ''ControlPersist''}"
  shows "validateSshArgs (pre @ butlast test_args @ rest) hosts = accepted_after (test_acc seen) rest hosts"
proof -
  have "butlast test_args \<noteq> []" by (simp add: test_args_def)
  with assms(1) test_loop [OF assms(2), of rest] show ?thesis by (simp add: validateSshArgs_def accepted_after_def)
qed

lemma test_args_split: "butlast test_args @ [''root@10.0.0.5''] = test_args"
  by (simp add: test_args_def)

lemma accepted_args_test: "validateSshArgs test_args [''10.0.0.5'']"
proof -
  have "accepted_after (test_acc []) [''root@10.0.0.5''] [''10.0.0.5'']" by code_simp
  then show ?thesis unfolding validate_test_args [symmetric] test_args_split .
qed

lemma repeated_flags_test:
  "\<not> validateSshArgs ([''-i'', test_args ! 1] @ test_args) [''10.0.0.5'']"
  "\<not> validateSshArgs (butlast test_args @ [''-p'', ''22'', ''root@10.0.0.5'']) [''10.0.0.5'']"
  "\<not> validateSshArgs (butlast test_args @ [''root@-oProxyCommand=id'']) [''-oproxycommand=id'']"
  "\<not> validateSshArgs (butlast test_args @ [''-root@10.0.0.5'']) [''10.0.0.5'']"
  "\<not> validateSshArgs (butlast test_args @ [''-evil@10.0.0.5'']) [''10.0.0.5'']"
  unfolding validate_test_args by code_simp+

lemma cloudflare_proxy_test:
  "validateSshArgs ([''-o'', ''ProxyCommand=cloudflared access ssh --hostname %h''] @ butlast test_args @ [''root@example.com'']) [''example.com'']"
  "\<not> validateSshArgs ([''-o'', ''ProxyCommand=cloudflared access ssh --hostname %h; id''] @ butlast test_args @ [''root@example.com''])
     [''example.com'']"
proof -
  have "validate_loop ssh_acc0 ([''-o'', ''ProxyCommand=cloudflared access ssh --hostname %h''] @ xs)
      = validate_loop (ssh_acc0\<lparr>seenOptions := [''ProxyCommand'']\<rparr>) xs" for xs
    by (simp add: has_control_def js_indexOf.simps js_startsWith_def isAllowedSshOption_def fixedOptions_def ssh_acc0_def)
  moreover have "accepted_after (test_acc [''ProxyCommand'']) [''root@example.com''] [''example.com'']" by code_simp
  ultimately show "validateSshArgs ([''-o'', ''ProxyCommand=cloudflared access ssh --hostname %h''] @ butlast test_args @ [''root@example.com'']) [''example.com'']"
    by (subst validate_after_options [where seen = "[''ProxyCommand'']"]) simp_all
qed (simp add: validateSshArgs_def has_control_def js_startsWith_def isAllowedSshOption_def fixedOptions_def ssh_acc0_def)

lemma injected_proxy_test:
  "\<not> validateSshArgs (extractSshArgs (''timeout 300 ssh -o 'ProxyCommand=/bin/busybox id >/tmp/marker' root@10.0.0.5 'bash -se' << ''
     @ [bsl] @ ''ENDSSH'' @ [lf] @ ''ENDSSH'')) [''10.0.0.5'']"
  by code_simp

lemma unknown_options_test:
  "\<not> validateSshArgs ([''-F'', ''/tmp/config''] @ test_args) [''10.0.0.5'']"
  "\<not> validateSshArgs ([''-i'', ''/tmp/attacker-key''] @ drop 2 test_args) [''10.0.0.5'']"
  "\<not> validateSshArgs ([''-i'', ''/var/www/html/storage/app/ssh/keys/../ssh_key@victim''] @ drop 2 test_args) [''10.0.0.5'']"
  "\<not> validateSshArgs ([''-o'', ''Include=/tmp/config''] @ test_args) [''10.0.0.5'']"
  "\<not> validateSshArgs ([''-o'', ''IdentityFile=/tmp/key''] @ test_args) [''10.0.0.5'']"
  "\<not> validateSshArgs ([''-o'', ''PermitLocalCommand=yes''] @ test_args) [''10.0.0.5'']"
  "\<not> validateSshArgs ([''-o'', ''LocalCommand=id''] @ test_args) [''10.0.0.5'']"
  by code_simp+

lemma multiplexing_test:
  "validateSshArgs ([''-o'', ''ControlMaster=auto'', ''-o'', ''ControlPath=/var/www/html/storage/app/ssh/mux/mux_cm123'',
     ''-o'', ''ControlPersist=3600''] @ butlast test_args @ [''root@10.0.0.5'']) [''10.0.0.5'']"
  "sanitizeSshArgs ([''-o'', ''ControlMaster=auto'', ''-o'', ''ControlPath=/var/www/html/storage/app/ssh/mux/mux_cm123'',
     ''-o'', ''ControlPersist=3600''] @ test_args) = test_args"
proof -
  let ?mux = "[''-o'', ''ControlMaster=auto'', ''-o'', ''ControlPath=/var/www/html/storage/app/ssh/mux/mux_cm123'', ''-o'', ''ControlPersist=3600'']"
  let ?seen = "[''ControlPersist'', ''ControlPath'', ''ControlMaster'']"
  have "validate_loop ssh_acc0 (?mux @ xs) = validate_loop (ssh_acc0\<lparr>seenOptions := ?seen\<rparr>) xs" for xs
    by (simp add: has_control_def js_startsWith_def isAllowedSshOption_def fixedOptions_def ssh_acc0_def prefixed_id_def
        all_digits_def digits_val_def char_eval)
  moreover have "accepted_after (test_acc ?seen) [''root@10.0.0.5''] [''10.0.0.5'']" by code_simp
  ultimately show "validateSshArgs (?mux @ butlast test_args @ [''root@10.0.0.5'']) [''10.0.0.5'']"
    by (subst validate_after_options [where seen = ?seen]) simp_all
  show "sanitizeSshArgs (?mux @ test_args) = test_args" by code_simp
qed

lemma session_timeout_test: "getTerminalSessionTimeout = MAX_TERMINAL_SESSION_TIMEOUT_SECONDS"
  by (simp add: getTerminalSessionTimeout_def)

section \<open>Authentication of upgrades\<close>

lemma missing_cookies_test:
  "authenticateTerminalUpgrade \<lparr>laravelSession = None, xsrfToken = Some ''xsrf'', sessionCookieName = ''coolify_session''\<rparr> post
     = Refused AUTH_REJECTED ''Unauthorized: Missing required tokens'' None None"
  "authenticateTerminalUpgrade \<lparr>laravelSession = Some ''session'', xsrfToken = None, sessionCookieName = ''coolify_session''\<rparr> post
     = Refused AUTH_REJECTED ''Unauthorized: Missing required tokens'' None None"
  "AUTH_REJECTED = 4401" "TOKEN_REJECTED = 4403"
  by (simp_all add: authenticateTerminalUpgrade_def truthy_def AUTH_REJECTED_def TOKEN_REJECTED_def)

lemma authenticated_test:
  "authenticateTerminalUpgrade
     \<lparr>laravelSession = Some ''session-value'', xsrfToken = Some ''xsrf-value'', sessionCookieName = ''coolify_session''\<rparr> post
   = Authenticated \<longleftrightarrow>
   post ''/terminal/auth'' [(''Cookie'', ''coolify_session=session-value''), (''X-XSRF-TOKEN'', ''xsrf-value'')] = Inr 200"
  by (simp add: authenticateTerminalUpgrade_def truthy_def split: sum.split)

lemma refused_status_test:
  "st \<noteq> 200 \<Longrightarrow> authenticateTerminalUpgrade
     \<lparr>laravelSession = Some ''session'', xsrfToken = Some ''xsrf'', sessionCookieName = ''coolify_session''\<rparr> (\<lambda>_ _. Inr st)
   = Refused AUTH_REJECTED ''Unauthorized: Invalid credentials'' (Some st) None"
  by (simp add: authenticateTerminalUpgrade_def truthy_def)

lemma unreachable_test:
  "authenticateTerminalUpgrade
     \<lparr>laravelSession = Some ''session'', xsrfToken = Some ''xsrf'', sessionCookieName = ''coolify_session''\<rparr>
     (\<lambda>_ _. Inl ''connect ECONNREFUSED'')
   = Refused AUTH_UNAVAILABLE ''Internal Server Error'' None (Some ''connect ECONNREFUSED'')"
  by (simp add: authenticateTerminalUpgrade_def truthy_def)

lemma rejection_tests:
  "filter (\<lambda>e. e \<noteq> SetTerminateTimer 2000 \<and> e \<noteq> ClearTerminateTimer) (rejected_fx (run rejected_step
     (rejected_start (Some TOKEN_REJECTED) (Some ''Unauthorized: Terminal token was rejected'')
        (Some ''Unauthorized: Terminal token was rejected'') 2000) [PeerClosed]))
   = [SendText ''Unauthorized: Terminal token was rejected'', CloseWith (Some 4403) (Some ''Unauthorized: Terminal token was rejected'')]"
  "rejected_fx (run rejected_step (rejected_start (Some AUTH_REJECTED) (Some ''Unauthorized: Invalid credentials'') None 5)
     [TerminateTimerFires])
   = [SetTerminateTimer 5, CloseWith (Some 4401) (Some ''Unauthorized: Invalid credentials''), TerminateSocket]"
  "last (rejected_fx (run rejected_step (rejected_start (Some AUTH_REJECTED) (Some ''Unauthorized: Invalid credentials'') None 2000)
     [PeerError])) = TerminateSocket"
  by (simp_all add: rejected_start_def rejectTerminalSocket_def AUTH_REJECTED_def TOKEN_REJECTED_def)

lemma upgrade_tests:
  "upgrade_fx (run (createTerminalUpgradeHandler 2000) upgrade_start
     [UpgradeRequest True, AuthSettled (Inr (ResultObject True None None)), UpgradeCallback])
   = [AddErrorListener, RemoveErrorListener, HandleUpgrade, EmitConnection]"
  "upgrade_fx (run (createTerminalUpgradeHandler 2000) upgrade_start
     [UpgradeRequest True, AuthSettled (Inr (ResultObject False (Some 4401) (Some ''Unauthorized: Invalid credentials''))), UpgradeCallback])
   = [AddErrorListener, RemoveErrorListener, HandleUpgrade,
      OnRejected (ResultObject False (Some 4401) (Some ''Unauthorized: Invalid credentials'')),
      RejectWs [SetTerminateTimer 2000, CloseWith (Some 4401) (Some ''Unauthorized: Invalid credentials'')]]"
  "upgrade_fx (run (createTerminalUpgradeHandler 2000) upgrade_start
     [UpgradeRequest True, AuthSettled (Inl ''boom''), UpgradeCallback])
   = [AddErrorListener, RemoveErrorListener, HandleUpgrade, OnRejected (ResultObject False (Some 1011) (Some ''Internal Server Error'')),
      RejectWs [SetTerminateTimer 2000, CloseWith (Some 1011) (Some ''Internal Server Error'')]]"
  "upgrade_fx (run (createTerminalUpgradeHandler 2000) upgrade_start [UpgradeRequest False]) = [HandleUpgrade]"
  "upgrade_fx (run (createTerminalUpgradeHandler 2000) upgrade_start
     [UpgradeRequest True, RawSocketError, AuthSettled (Inr (ResultObject True None None)), UpgradeCallback])
   = [AddErrorListener, DestroyRawSocket, RemoveErrorListener]"
  by (simp_all add: upgrade_start_def emit_up_def settled_value_def upgrade_callback_def rejectTerminalSocket_def
      AUTH_UNAVAILABLE_def Let_def)

section \<open>The browser's side of a connection\<close>

lemma close_code_tests:
  "isTerminalAuthRejectionCode 4401" "isTerminalAuthRejectionCode 4403"
  "\<not> isTerminalAuthRejectionCode 1006" "\<not> isTerminalAuthRejectionCode 4000"
  by (simp_all add: isTerminalAuthRejectionCode_def client_AUTH_REJECTED_def client_TOKEN_REJECTED_def)

lemma close_outcome_tests:
  "c \<in> {4401, 4403} \<Longrightarrow> resolveTerminalCloseOutcome c pending 0 10 = \<lparr>out_authRejected = True, out_reconnect = False,
     out_error = Some ''Terminal access was rejected. Reload the page and try again.''\<rparr>"
  "resolveTerminalCloseOutcome 1000 True 0 10 = \<lparr>out_authRejected = False, out_reconnect = False, out_error = None\<rparr>"
  "c \<in> {1006, 1011, 1001, 4000} \<Longrightarrow> resolveTerminalCloseOutcome c True 0 10 =
     \<lparr>out_authRejected = False, out_reconnect = True, out_error = Some err_connectionFailed\<rparr>"
  "resolveTerminalCloseOutcome 1006 False 9 10 = \<lparr>out_authRejected = False, out_reconnect = True, out_error = None\<rparr>"
  "resolveTerminalCloseOutcome 1006 False 10 10 =
     \<lparr>out_authRejected = False, out_reconnect = False, out_error = Some err_connectionFailed\<rparr>"
  by (auto simp: resolveTerminalCloseOutcome_def isTerminalAuthRejectionCode_def client_AUTH_REJECTED_def
      client_TOKEN_REJECTED_def NORMAL_def err_authRejected_def)

lemma classify_tests:
  "classifyTerminalServerMessage (TextFrame ''Unauthorized: Invalid terminal token'') = Some AuthRejectedMessage"
  "classifyTerminalServerMessage (TextFrame ''Unauthorized: Terminal token was rejected'') = Some AuthRejectedMessage"
  "classifyTerminalServerMessage (TextFrame ''Unauthorized: Missing required tokens'') = Some AuthRejectedMessage"
  "classifyTerminalServerMessage (TextFrame ''Unauthorized: Target host 10.0.0.5 not in authorized list'') = Some StartupRejectedMessage"
  "classifyTerminalServerMessage (TextFrame ''Invalid SSH command: No target host found'') = Some StartupRejectedMessage"
  "classifyTerminalServerMessage (TextFrame ''pty-ready'') = None"
  "classifyTerminalServerMessage (TextFrame ''root@host:~# '') = None"
  "classifyTerminalServerMessage OtherFrame = None"
  by (simp_all add: classifyTerminalServerMessage_def AUTH_REJECTION_MESSAGES_def js_startsWith_def)

lemma timeout_tests:
  "TERMINAL_CONNECT_TIMEOUT_MS = 15000" "TERMINAL_CONNECT_TIMEOUT_MS \<le> TERMINAL_SESSION_START_TIMEOUT_MS"
  "TERMINAL_SESSION_START_TIMEOUT_MS \<le> 30000"
  "err_timeout = ''Timed out while connecting to the terminal. Reload the page and try again.''"
  by (simp_all add: TERMINAL_CONNECT_TIMEOUT_MS_def TERMINAL_SESSION_START_TIMEOUT_MS_def err_timeout_def)

lemma remaining_time_tests:
  "formatTerminalSessionRemainingTime 28800 = ''8h 00m 00s''"
  "formatTerminalSessionRemainingTime (7 * 60 * 60 + 59 * 60 + 59) = ''7h 59m 59s''"
  "formatTerminalSessionRemainingTime (65 * 60) = ''1h 05m 00s''"
  "formatTerminalSessionRemainingTime 59 = ''0m 59s''"
  "formatTerminalSessionRemainingTime 0 = ''expired''"
  by (simp_all add: formatTerminalSessionRemainingTime_def two_digits_def js_padStart_def Let_def nat_to_string.simps char_of_def bit_0)

text \<open>The host of the session-start methods, and the passing of the start timeout.\<close>

definition test_host :: host where
  "test_host = \<lparr>starting = False, terminalActive = False, connectionError = None, authRejected = False,
     pendingCommand = None, sessionStartTimeoutId = None, timers = no_timers, fx = []\<rparr>"

definition auto_start :: "host \<Rightarrow> host" where
  "auto_start s = armTerminalSessionStartTimeout (s\<lparr>starting := True\<rparr>)"

definition all_timers_fire :: "host \<Rightarrow> host" where
  "all_timers_fire s = fold (\<lambda>(i, k) s. if map_of (armed (timers s)) i = Some TSessionStart
     then sessionStartTimedOut (s\<lparr>timers := clear_timer i (timers s)\<rparr>) else s) (armed (timers s)) s"

lemmas host_eval = test_host_def auto_start_def all_timers_fire_def armTerminalSessionStartTimeout_def
  clearSessionStartTimeout_def sessionStartTimedOut_def isTerminalSessionPending_def failTerminalConnection_def
  beginTerminalSessionStart_def completeTerminalSessionStart_def failTerminalSessionStart_def cancelTerminalAutoStart_def
  effect_def set_timer_def clear_timer_def no_timers_def truthy_def Let_def

lemma auto_start_timeout_test:
  "connectionError (auto_start test_host) = None" "starting (auto_start test_host)"
  "all_timers_fire (auto_start test_host) = test_host\<lparr>connectionError := Some err_timeout,
     timers := \<lparr>armed = [], nextId = 2\<rparr>, fx := [Dispatch ''error'' (Some err_timeout)]\<rparr>"
  by (simp_all add: host_eval)

lemma token_replaces_timer_test:
  "armed (timers (beginTerminalSessionStart id (auto_start test_host))) = [(2, TSessionStart)]"
  "all_timers_fire (completeTerminalSessionStart
     ((beginTerminalSessionStart id (auto_start test_host))\<lparr>terminalActive := True\<rparr>))
   = test_host\<lparr>terminalActive := True, timers := \<lparr>armed = [], nextId = 3\<rparr>\<rparr>"
  by (simp_all add: host_eval)

lemma start_failure_test:
  "all_timers_fire (failTerminalSessionStart (Some ''The container is not running.'')
     (auto_start (test_host\<lparr>pendingCommand := Some t\<rparr>)))
   = test_host\<lparr>connectionError := Some ''The container is not running.'', timers := \<lparr>armed = [], nextId = 2\<rparr>,
       fx := [Dispatch ''error'' (Some ''The container is not running.'')]\<rparr>"
  "connectionError (failTerminalSessionStart (Some ''No shell is available in this container.'')
     (test_host\<lparr>connectionError := Some err_timeout\<rparr>)) = Some ''No shell is available in this container.''"
  "connectionError (failTerminalSessionStart None test_host) = Some err_connectionFailed"
  by (simp_all add: host_eval err_timeout_def)

lemma cancelled_start_test:
  "all_timers_fire (cancelTerminalAutoStart (auto_start test_host)) = test_host\<lparr>timers := \<lparr>armed = [], nextId = 2\<rparr>\<rparr>"
  "cancelTerminalAutoStart (auto_start (test_host\<lparr>pendingCommand := Some t\<rparr>)) = auto_start (test_host\<lparr>pendingCommand := Some t\<rparr>)"
  by (simp_all add: host_eval)

section \<open>Logs\<close>

lemma parse_lines_test:
  "map (\<lambda>l. (line_id l, ts l, line_text l, level l)) (fst (parseLogLines (Some
     (''2026-09-28T10:00:00.123456789Z Server started'' @ [lf, lf] @ ''2026-09-28T10:00:01Z ERROR failed to connect'' @ [lf] @ ''plain line'')) 0))
   = [(1, ''2026-09-28T10:00:00.123456789Z'', ''Server started'', ''info''),
      (2, ''2026-09-28T10:00:01Z'', ''ERROR failed to connect'', ''error''), (3, [], ''plain line'', ''info'')]"
  by code_simp

lemma level_tests:
  "getLogLevel ''fatal: boom'' = ''error''" "getLogLevel ''warning: disk'' = ''warning''"
  "getLogLevel ''trace id=1'' = ''debug''" "getLogLevel ''ready'' = ''info''"
  by code_simp+

lemma filter_tests:
  "map line_text (filterLogLines (fst (parseLogLines (Some (''ERROR Database down'' @ [lf] @ ''INFO Database up'' @ [lf] @ ''warn cache miss'')) 0))
     [(''error'', JBool True), (''warning'', JBool True), (''debug'', JBool True), (''info'', JBool True)] ''DATABASE'')
   = [''ERROR Database down'', ''INFO Database up'']"
  "map line_text (filterLogLines (fst (parseLogLines (Some (''ERROR Database down'' @ [lf] @ ''INFO Database up'' @ [lf] @ ''warn cache miss'')) 0))
     [(''error'', JBool False), (''warning'', JBool True), (''debug'', JBool True), (''info'', JBool True)] [])
   = [''INFO Database up'', ''warn cache miss'']"
  by code_simp+

definition test_lines :: "(string \<times> string) list \<Rightarrow> log_line list" where
  "test_lines ps = map (\<lambda>(t, x). \<lparr>line_id = 0, ts = t, line_text = x, lower = x, level = ''info''\<rparr>) ps"

lemma since_tests:
  "lastTimestamp (test_lines [(''2026-09-28T10:00:00Z'', ''first''), (''2026-09-28T10:00:01Z'', ''a''), (''2026-09-28T10:00:01Z'', ''b'')])
     = Some ''2026-09-28T10:00:01Z''"
  "map line_text (newLinesSince
     (test_lines [(''2026-09-28T10:00:00Z'', ''first''), (''2026-09-28T10:00:01Z'', ''a''), (''2026-09-28T10:00:01Z'', ''b'')])
     (test_lines [(''2026-09-28T10:00:01Z'', ''a''), (''2026-09-28T10:00:01Z'', ''b''), (''2026-09-28T10:00:01Z'', ''c''),
        (''2026-09-28T10:00:02Z'', ''next''  )])) = [''c'', ''next'']"
  "map line_text (newLinesSince (test_lines [(''2026-09-28T10:00:01Z'', ''ping'')])
     (test_lines [(''2026-09-28T10:00:01Z'', ''ping''), (''2026-09-28T10:00:01Z'', ''ping'')])) = [''ping'']"
  by code_simp+

lemma highlight_tests:
  "highlightSegments ''<b>Error</b> error'' ''error'' =
     [\<lparr>seg_text = ''<b>'', matching = False\<rparr>, \<lparr>seg_text = ''Error'', matching = True\<rparr>,
      \<lparr>seg_text = ''</b> '', matching = False\<rparr>, \<lparr>seg_text = ''error'', matching = True\<rparr>]"
  "highlightSegments ''plain'' ''  '' = [\<lparr>seg_text = ''plain'', matching = False\<rparr>]"
  by code_simp+

lemma find_shortcut_tests:
  "isFindShortcut \<lparr>ctrlKey = True, metaKey = False, altKey = False, shiftKey = False, key = Some ''f''\<rparr>"
  "isFindShortcut \<lparr>ctrlKey = False, metaKey = True, altKey = False, shiftKey = False, key = Some ''F''\<rparr>"
  "\<not> isFindShortcut \<lparr>ctrlKey = False, metaKey = False, altKey = False, shiftKey = False, key = Some ''f''\<rparr>"
  "\<not> isFindShortcut \<lparr>ctrlKey = True, metaKey = False, altKey = False, shiftKey = True, key = Some ''F''\<rparr>"
  "\<not> isFindShortcut \<lparr>ctrlKey = True, metaKey = False, altKey = True, shiftKey = False, key = Some ''f''\<rparr>"
  "\<not> isFindShortcut \<lparr>ctrlKey = True, metaKey = False, altKey = False, shiftKey = False, key = Some ''g''\<rparr>"
  by code_simp+

section \<open>Submit actions\<close>

lemma plain_argument_tests:
  "parseSubmitAction ''delete(5)'' = (''delete'', [''5''])"
  "parseSubmitAction (''changeSource(3, App'' @ [bsl] @ ''Models'' @ [bsl] @ ''GithubApp)'')
     = (''changeSource'', [''3'', ''App'' @ [bsl] @ ''Models'' @ [bsl] @ ''GithubApp''])"
  "parseSubmitAction ''resetDefaultLabels(true)'' = (''resetDefaultLabels'', [''true''])"
  by code_simp+

lemma quoted_argument_tests:
  "parseSubmitAction ''generateNginxConfiguration('spa')'' = (''generateNginxConfiguration'', [''spa''])"
  "parseSubmitAction ''replaceManagedDnsRecord('app.example.com', 4)'' = (''replaceManagedDnsRecord'', [''app.example.com'', ''4''])"
  "parseSubmitAction (''rename('' @ [dq] @ ''staging'' @ [dq] @ '')'') = (''rename'', [''staging''])"
  "parseSubmitAction (''save('a, b', 'c)d', 'it'' @ [bsl] @ [sq] @ ''s')'') = (''save'', [''a, b'', ''c)d'', ''it'' @ [sq] @ ''s''])"
  "parseSubmitAction ''cleanupDeleted()'' = (''cleanupDeleted'', [])"
  "parseSubmitAction ''delete'' = (''delete'', [])"
  by code_simp+

section \<open>Failed requests\<close>

definition test_failures :: "failure_event list \<Rightarrow> failure_effect list" where
  "test_failures es = map snd (failureLog (run failure_step failure_start es))"

lemmas failure_eval = test_failures_def failure_start_def markUserGesture_def on_request_def on_fail_def
  gesture_of_request_def handle_failure_def warn_step_def toast_step_def later_than_def elapsed_def log_failure_def
  trim_content_def USER_GESTURE_EVENTS_def INFRASTRUCTURE_FAILURE_STATUSES_def GESTURE_WINDOW_MS_def WARN_COOLDOWN_MS_def
  WARN_CONTENT_MAX_LENGTH_def

lemma toast_tests:
  "test_failures [UserEvent 100000 ''click'' True, RequestSent 100000, RequestFailed 100000 True 0 504 OtherContent]
     = [PreventDefault, Warn 504 OtherContent, Toast]"
  "test_failures [RequestSent 100000, RequestFailed 100000 True 0 524 (TextContent ''<html>proxy error</html>'')]
     = [PreventDefault, Warn 524 (TextContent ''<html>proxy error</html>'')]"
  "test_failures [UserEvent 100000 ''click'' True, RequestSent 100000, RequestFailed 100000 True 0 504 OtherContent,
     RequestSent 100000, RequestFailed 100000 True 1 504 OtherContent, UserEvent 108000 ''click'' True, RequestSent 108000,
     RequestFailed 108000 True 2 504 OtherContent] = [PreventDefault, Warn 504 OtherContent, Toast, PreventDefault, PreventDefault, Toast]"
  "Toast \<notin> set (test_failures [UserEvent 100000 ''click'' True, RequestSent 102001, RequestFailed 102001 True 0 504 OtherContent])"
  "Toast \<notin> set (test_failures [UserEvent 100000 ''click'' False, RequestSent 100000, RequestFailed 100000 True 0 504 OtherContent])"
  "test_failures [UserEvent 100000 ''click'' True, RequestSent 100000, RequestFailed 100000 False 0 504 OtherContent]
     = [PreventDefault, Warn 504 OtherContent]"
  by (simp_all add: failure_eval)

lemma warning_tests:
  "test_failures [RequestSent 100000, RequestFailed 100000 True 0 502 OtherContent, RequestSent 100000,
     RequestFailed 100000 True 1 504 OtherContent, RequestSent 110000, RequestFailed 110000 True 2 504 OtherContent]
   = [PreventDefault, Warn 502 OtherContent, PreventDefault, PreventDefault, Warn 504 OtherContent]"
  "map snd (failureLog (handle_failure 0 True 502 (TextContent (replicate 5000 CHR ''x'')) None failure_start))
   = [PreventDefault, Warn 502 (TextContent (replicate 2000 CHR ''x''))]"
  by (simp_all add: failure_eval)

lemma status_tests:
  "list_all (\<lambda>st. hd (failureLog (handle_failure 5 True st OtherContent None failure_start)) = (5, PreventDefault))
     INFRASTRUCTURE_FAILURE_STATUSES"
  "list_all (\<lambda>st. handle_failure 5 True st OtherContent (Some 5) failure_start = failure_start) [401, 419, 422, 429, 500]"
  by (simp_all add: failure_eval)

end
