(* ===== verification/Spec2Isabelle.thy ===== *)
theory Spec2Isabelle
  imports SystemOutput LogFollow TrafficGlobe RequestFailure SubmitAction SidebarAccordion
    CopyButton AppBootstrap DebugLog FullscreenSafety ViteConfig RejectionFixture UnitTests
begin

text \<open>
  Verification of the JavaScript of Coolify.

  The program. Coolify is a PHP application; its JavaScript is a terminal server that runs beside it
  and the browser code of its pages. The terminal server (docker/coolify-terminal) accepts WebSocket
  connections, authenticates each with Coolify, redeems single-use tokens for the ssh command lines
  that Coolify generates, checks them against an admission policy and runs them in pseudo terminals.
  The browser code (resources/js) is the terminal component that talks to this server, the viewer of
  container logs, the traffic globe and small components for settings pages, copy buttons, modals and
  failed requests.

  The model. Every component is a state machine: a record with the fields of the code, one function
  per method or callback, and a step function over the events the host delivers (frames, timers,
  replies, clicks). Code after an \<open>await\<close> is a later step: the server keeps suspended calls as tasks, so
  every interleaving of callbacks is a sequence of events. What a component does to the outside is
  appended to a log of effects. Timers are a table of armed ids (JSPrelude). A history is \<open>run step start
  events\<close>; the claims hold for all of them.

  Shared layer: JSPrelude. Strings of JavaScript as lists of Latin-1 code units with the library
  functions the sources call, JSON values, timers, the locale \<open>event_machine\<close> (an invariant that every
  event keeps) and its extension \<open>logging_machine\<close> (every step only appends allowed effects). Every
  component interprets the first on its own step function; the server and its stand-in interpret the second.

  Terminal server, docker/coolify-terminal.
    ShellParse: terminal-utils.js, from the shell text to arguments (\<open>extractSshArgs\<close>,
      \<open>extractHereDocContent\<close>, timeouts). Each regular expression is the search it performs. Claims:
      both round trips.
    SshPolicy: terminal-utils.js, the admission policy (\<open>validateSshArgs\<close>, \<open>sanitizeSshArgs\<close>,
      \<open>isAuthorizedTargetHost\<close>). The validation loop is proved equivalent to a grammar of command lines;
      the locale \<open>ssh_gate\<close> says that what was checked is what runs.
    UpgradeAuth: terminal-utils.js and terminal-server.js, upgrades, requests to Coolify, rejected
      sockets. Claims: only authenticated upgrades connect, rejected sockets end.
    TerminalServer: terminal-server.js, the server's state, handlers and step function.
    ServerSafety, ServerBehaviour: invariants (one live terminal per session, authorised commands only,
      bounded kill loops) and behaviour (input isolation, transparent buffering, well-formed requests,
      which frames make the server throw, terminals that outlive their session, closes that come too
      early).
    ServerTraffic: what becomes of frames: which tokens the server redeems and what it types into the
      terminals, counted over whole histories. ServerIsolation: who receives what a terminal prints, when
      the random user ids of the connections are distinct.

  Terminal in the browser, resources/js.
    TerminalConnection: terminal-connection.js and terminal-session-timer.js: close codes, messages, the
      session-start methods over the record of their host. What a host relies on is the locale
      \<open>session_fields\<close> (a property of the host that the fields of a start may change) and its extension
      \<open>session_host\<close>; every invariant of the component that the starts keep is an interpretation of them.
    TerminalTheme, TerminalFullscreen: the parts of terminal.js about colours, and about fullscreen,
      scroll lock and keyboard, over a page of elements with inline styles.
    TerminalClient: terminal.js, \<open>terminalData\<close>, as a record that extends the host record, and its step.
    ScrollLock, FullscreenSafety: the filter of wheel and touch events that fullscreen installs, and that
      no way of leaving fullscreen, in any history of the component, leaves it installed.
    ClientSafety, ClientTraffic, ClientClaims: invariants of sockets and timers, what is sent and when a
      socket may be opened (the relation \<open>quiet\<close>), and the claims.
    TerminalSystem: any number of pages and the server joined by connections, the inductive relation
      \<open>network\<close> over configurations. Frames of a connection arrive in order, or are lost together with all
      behind them; everything else (timers, replies, clicks, closes) happens at any time. Claims: the pages
      never bring the server down, a token is redeemed at most once from end to end, and input reaches the
      terminals of its own connection in order and at most once.
    SystemOutput: the way back: a page shows only what terminals of its own connections print.
    This theory: steps of the composition in detail: a session starts, rejections are understood, and
      output that looks like one is not told apart.

  Other components, resources/js.
    LogText, LogViewer, LogFollow: runtime-logs.js. Following a log is proved to refine appending the new
      lines of the server's log, under the hypothesis that replies to a request since a time stamp hold the
      lines of the log from it on, in order.
    TrafficGlobe (traffic-globe.js), RequestFailure (livewire-request-failure.js), SubmitAction
      (modal-confirmation.js), SidebarAccordion (settings-sidebar-accordion.js), CopyButton
      (copy-button.js), SectionScroll (the settings scroll of app.js), AppBootstrap (the listeners of
      app.js), DebugLog (the debug switches, the log lines of both sides of the terminal
      and the report of the theme).

  Beside the program.
    ViteConfig: vite.config.js as a function of the environment.
    RejectionFixture: the stand-in server of the browser tests, down to the bytes of its frames; every frame
      it writes reads as a rejection of the real server.

  UnitTests states the unit tests of the repository over these definitions: the inputs and expected
  values are those of the test files, so the definitions agree with the code wherever it is tested.

  Bounds and fuel. Loops of the code are structural recursion, or recursion with a measure where the
  rest of a string is searched; none needs fuel. The kill loop of the server and the frames of a scroll
  are steps; their ends are theorems (five attempts, 180 frames). Natural numbers stand for times,
  counters and ids, integers for JSON numbers, reals for the doubles of geometry and delays.

  Outside the sources and therefore parameters or events: node-pty, ws, the cookie parser and
  \<open>JSON.parse\<close> (an event carries what it returns), Coolify's replies, xterm and its fit addon (the
  size it would choose), the browser's geometry, clipboard and storage, the row virtualiser and the
  globe renderer. The socket library is assumed to accept whatever the server gives it to send; the
  frame it makes of a boolean (the answer to a checkActive frame) is the parameter \<open>bool_frame\<close> of the network.

  Not modelled. The PHP application and its templates, which are not JavaScript; the libraries copied to
  public/js; the text of the log lines; characters outside Latin-1; rounding of doubles.
\<close>

section \<open>Rejections\<close>

text \<open>What the component makes of one step of a rejection.\<close>

definition understood :: "ws_effect \<Rightarrow> bool" where
  "understood e \<longleftrightarrow>
     (case e of
        SendText m \<Rightarrow> classifyTerminalServerMessage (TextFrame m) = Some AuthRejectedMessage
      | CloseWith c why \<Rightarrow>
          c \<noteq> None \<and> isTerminalAuthRejectionCode (the c)
          \<and> out_authRejected (resolveTerminalCloseOutcome (the c) True 0 maxReconnectAttempts)
          \<and> \<not> out_reconnect (resolveTerminalCloseOutcome (the c) True 0 maxReconnectAttempts)
      | _ \<Rightarrow> True)"

lemma rejections_understood: "list_all (list_all understood) rejection_effects"
  by (simp add: rejection_effects_def rejections_def rejectTerminalSocket_def understood_def
      resolveTerminalCloseOutcome_def isTerminalAuthRejectionCode_def client_AUTH_REJECTED_def
      client_TOKEN_REJECTED_def AUTH_REJECTED_def TOKEN_REJECTED_def classifyTerminalServerMessage_def
      AUTH_REJECTION_MESSAGES_def)

section \<open>Starting a session\<close>

lemma resize_active [simp]:
  "terminalActive (resizeTerminal v s) = terminalActive s" "starting (resizeTerminal v s) = starting s"
  by (simp_all add: resizeTerminal_def Let_def sendMessage_def once_def arm_eq split: option.split prod.split)

lemma once_active [simp]: "terminalActive (once k s) = terminalActive s" "starting (once k s) = starting s"
  by (simp_all add: once_def arm_eq)

lemma countdown_active [simp]:
  "terminalActive (startTerminalSessionCountdown v s) = terminalActive s"
  "starting (startTerminalSessionCountdown v s) = starting s"
  by (simp_all add: startTerminalSessionCountdown_def arm_eq updateTerminalSessionCountdown_def
      resetTerminalSessionCountdown_def disarm_def split: option.split)

lemma pty_ready_starts: "term s \<noteq> None \<Longrightarrow>
    terminalActive (on_pty_ready v s) \<and> starting (on_pty_ready v s) = False"
proof -
  assume "term s \<noteq> None"
  moreover have "term (completeTerminalSessionStart s) = term s" "starting (completeTerminalSessionStart s) = False"
    by (simp_all add: completeTerminalSessionStart_def clearSessionStartTimeout_def split: option.split)
  ultimately show ?thesis by (auto simp: on_pty_ready_def Let_def split: if_splits)
qed

lemma token_goes_out:
  assumes "isWebSocketReady c" "\<not> authRejected c" "socket c = Some i" "i < nextSocket c" "term c \<noteq> None"
    and c1: "c1 = client_step c (TokenIssued v token)"
  shows "fx c1 = fx c @ [Send i (obj ''terminalToken'' token)] \<and> starting c1
    \<and> terminalActive (client_step c1 (SocketMessage v i (TextFrame ''pty-ready'')))
    \<and> starting (client_step c1 (SocketMessage v i (TextFrame ''pty-ready''))) = False"
proof -
  let ?a = "armTerminalSessionStartTimeout (c\<lparr>starting := True, connectionError := None, authRejected := False\<rparr>)"
  have a: "socket ?a = Some i" "readyState ?a i = WsOpen" "connectionState ?a = CsConnected" "fx ?a = fx c" "starting ?a"
    "term ?a = term c" "nextSocket ?a = nextSocket c"
    using assms(1,3) by (simp_all add: isWebSocketReady_def socketIs_def armTerminalSessionStartTimeout_def Let_def split_beta
        clearSessionStartTimeout_def split: option.split)
  then have "ensureWebSocketConnection v ?a = ?a" by (simp add: ensureWebSocketConnection_def socketLive_def)
  with a assms(2) have c1': "c1 = effect [Send i (obj ''terminalToken'' token)] ?a"
    by (simp add: c1 onTerminalToken_def beginTerminalSessionStart_def sendCommandWhenReady_def isWebSocketReady_def
        socketIs_def sendMessage_def)
  have "client_step c1 (SocketMessage v i (TextFrame ''pty-ready'')) = on_pty_ready v c1"
    using a assms(4) by (simp add: c1' handleSocketMessage_def effect_def)
  moreover have "term c1 \<noteq> None" using a assms(5) by (simp add: c1' effect_def)
  ultimately show ?thesis using a pty_ready_starts [of c1 v] by (simp add: c1')
qed

lemma token_redeemed:
  assumes "objs s n = Some ss" "authReady ss" "\<not> crashed s" "is_token token"
    and s1: "s1 = server_step s (Message n (JsonText (obj ''terminalToken'' token)))"
  shows "s1 = add_task (AwaitToken n) (emit [PostCoolify ''/terminal/session'' (authHeaders ss)
      (Some (JObj [(''token'', token)]))] s)"
  using assms(1-4)
  by (simp add: s1 server_step_def on_message_def handleMessage_def parseMessage_def obj_def handle_entry_def
      messageHandlers_def open_keys_def call_handler_def handleTerminalToken_def)

lemma generated_reported:
  assumes "objs s n = Some ss" "\<not> isActive ss" "userSessions s (userId ss) = Some n"
    and "AwaitToken n \<in> set (tasks s)" "\<not> crashed s"
    and "validateSshArgs args (authorizedIPs ss)" "''RequestTTY=no'' \<notin> set args" "plain_args args"
    and "d \<noteq> []" "list_all (\<lambda>c. \<not> is_ws c) d"
    and "js_indexOf (CHR '' '' # (flatten_lines script @ '' '') @ d) d = Some (Suc (length script + 1))"
    and s2: "s2 = server_step s (TokenSettled n (TokenReply 200 (Some (command_for args d script))))"
  shows "ptys s2 (nextPty s) = Some \<lparr>pty_owner = n, pty_ws = n,
      pty_args = sanitizeSshArgs args @ [CHR '' '' # flatten_lines script @ '' ''], pty_alive = True\<rparr>
    \<and> last (out s2) = SendStr n ''pty-ready''"
proof -
  let ?t = "clear_session_timer n (drop_task (AwaitToken n) s)"
  have o: "objs ?t n \<noteq> None" "nextPty ?t = nextPty s"
    using assms(1) by (simp_all add: clear_session_timer_def upd_def drop_task_def)
  have "last (out (spawn_terminal n n x ?t)) = SendStr n ''pty-ready''" for x
    by (simp add: spawn_terminal_def Let_def split: prod.splits)
  with generated_spawn [OF assms(1-11)] o spawn_terminal_sel [of ?t n] show ?thesis
    unfolding s2 by auto
qed

definition sample_open_client :: client where
  "sample_open_client = run client_step sample_client [TimerFires sample_env 1, SocketOpened sample_env 0]"

lemma sample_open:
  "isWebSocketReady sample_open_client" "\<not> authRejected sample_open_client" "socket sample_open_client = Some 0"
  "0 < nextSocket sample_open_client" "term sample_open_client \<noteq> None"
proof -
  have s: "sample_open_client = client_step sample_connecting (SocketOpened sample_env 0)"
    by (simp add: sample_open_client_def sample_first del: client_step.simps One_nat_def)
  show "isWebSocketReady sample_open_client" "\<not> authRejected sample_open_client" "socket sample_open_client = Some 0"
    "0 < nextSocket sample_open_client" "term sample_open_client \<noteq> None"
    unfolding s
    by (simp_all add: sample_connecting_def sample_calm_def client_eval handleSocketOpen_def resetPingTimeout_def socketIs_def)
qed

lemma sample_idle:
  "objs (run server_step server_start (take 2 sample_history)) 0 = Some sample_ready"
  "userSessions (run server_step server_start (take 2 sample_history)) ''1'' = Some 0"
  "\<not> crashed (run server_step server_start (take 2 sample_history))"
  unfolding sample_history_def run_def
  by (simp_all add: server_step_def on_connection_def server_start_def sample_cookie_def truthy_def Let_def
      new_session_def sample_ready_def drop_task_def ips_settled_def)

section \<open>Claims\<close>



text \<open>C29: Terminal output can end a session. The output of a live terminal goes to the browser as it
  is, and the component takes output that starts with \<open>Unauthorized:\<close> or \<open>Invalid SSH command:\<close> for a
  rejection by the server: it shows the output as an error and stops being active, although the
  terminal still runs.\<close>

theorem output_taken_for_rejection:
  assumes "ptys s p = Some y" "pty_alive y"
    and "js_startsWith data ''Unauthorized:'' \<or> js_startsWith data ''Invalid SSH command:''"
  shows "out (server_event_step s (PtyData p data)) = out s @ [SendStr (pty_ws y) data]
    \<and> ptys (server_event_step s (PtyData p data)) = ptys s
    \<and> terminalActive (handleSocketMessage v (TextFrame data) c) = False
    \<and> connectionError (handleSocketMessage v (TextFrame data) c) \<in> {Some data, Some err_authRejected}"
proof -
  have ne: "data \<noteq> ''pong''" "data \<noteq> ''pty-ready''" "data \<noteq> ''unprocessable''" "data \<noteq> ''pty-exited''"
    using assms(3) by (auto simp: js_startsWith_def)
  then obtain r where r: "classifyTerminalServerMessage (TextFrame data) = Some r"
    using assms(3) by (cases "data \<in> set AUTH_REJECTION_MESSAGES") (simp_all add: classifyTerminalServerMessage_def)
  have "handleSocketMessage v (TextFrame data) c = on_rejection r data c"
    using ne r by (simp add: handleSocketMessage_def)
  moreover have "connectionError (failTerminalConnection m True x) = Some m" for m and x :: client
    by (simp add: failTerminalConnection_def Let_def clearSessionStartTimeout_def split: option.split)
  ultimately show ?thesis
    using assms(1,2) by (simp add: on_pty_data_def on_rejection_def emit_def resetTerminalSessionCountdown_def)
qed

theorem output_taken_for_rejection_witness:
  "out (server_event_step (run server_step server_start sample_history) (PtyData 0 ''Unauthorized: sudo'')) =
     out (run server_step server_start sample_history) @ [SendStr 0 ''Unauthorized: sudo'']"
proof -
  obtain y where "ptys (run server_step server_start sample_history) 0 = Some y" "pty_alive y" "pty_ws y = 0"
    using sample_run by auto
  with output_taken_for_rejection [of "run server_step server_start sample_history" 0 y "''Unauthorized: sudo''"
      sample_env sample_client]
  show ?thesis by (simp add: js_startsWith_def)
qed



end
